(* ===== verification/Prelude.thy ===== *)
theory Prelude
  imports Main "HOL-Library.Word" "HOL-Library.State_Monad"
begin

text \<open>
  Shared vocabulary of the development: bytes and strings as the Go code has them, time
  stamps and durations, the generic facts on lists and on state-monad programs that every
  component uses, and the development's theorem collections.

  A Go \<open>string\<close> is a byte sequence, which is what \<^typ>\<open>string\<close> is here (a list of
  8-bit characters).  A Go \<open>time.Time\<close> is the number of nanoseconds since the zero
  time, so that \<open>IsZero()\<close> is \<open>t = 0\<close>, \<open>t.After(u)\<close> is \<open>u < t\<close> and
  \<open>t.Add(d)\<close> is \<open>t + d\<close>; a \<open>time.Duration\<close> is a number of nanoseconds.
\<close>

type_synonym byte = "8 word"
type_synonym bytes = "byte list"
type_synonym time = int
type_synonym duration = int

abbreviation Millisecond :: duration where "Millisecond \<equiv> 1000000"
abbreviation Second :: duration where "Second \<equiv> 1000000000"
abbreviation Minute :: duration where "Minute \<equiv> 60000000000"
abbreviation Hour :: duration where "Hour \<equiv> 3600000000000"

named_theorems go_simps "evaluation of the small library functions the code calls"
named_theorems effect_intros "rules that lift a two-state relation through a program"
named_theorems op_defs "definitions of operations, for symbolic execution"

subsection \<open>Strings and bytes\<close>

definition byte_of_char :: "char \<Rightarrow> byte" where
  "byte_of_char c = of_nat (of_char c)"

definition char_of_byte :: "byte \<Rightarrow> char" where
  "char_of_byte b = char_of (unat b)"

definition to_bytes :: "string \<Rightarrow> bytes" where
  "to_bytes s = map byte_of_char s"

definition of_bytes :: "bytes \<Rightarrow> string" where
  "of_bytes b = map char_of_byte b"

lemma of_char_less_256: "of_char c < (256 :: nat)"
proof -
  have "of_char c mod (256 :: nat) < 256" by simp
  then show ?thesis by simp
qed

lemma char_of_byte_of_char [simp]: "char_of_byte (byte_of_char c) = c"
proof -
  have "of_char c < (256 :: nat)" by (rule of_char_less_256)
  then have "unat (of_nat (of_char c) :: byte) = of_char c"
    by (simp add: unat_of_nat)
  then show ?thesis by (simp add: char_of_byte_def byte_of_char_def)
qed

lemma byte_of_char_of_byte [simp]: "byte_of_char (char_of_byte b) = b"
proof -
  have "unat b < 256" using unsigned_less [of b] by simp
  then show ?thesis by (simp add: char_of_byte_def byte_of_char_def)
qed

lemma of_bytes_to_bytes [simp]: "of_bytes (to_bytes s) = s"
  by (simp add: of_bytes_def to_bytes_def comp_def)

lemma to_bytes_of_bytes [simp]: "to_bytes (of_bytes b) = b"
  by (simp add: of_bytes_def to_bytes_def comp_def)

lemma length_to_bytes [simp]: "length (to_bytes s) = length s"
  by (simp add: to_bytes_def)

lemma length_of_bytes [simp]: "length (of_bytes s) = length s"
  by (simp add: of_bytes_def)

lemma inj_to_bytes: "to_bytes s = to_bytes t \<Longrightarrow> s = t"
  by (metis of_bytes_to_bytes)

lemma to_bytes_eq_Nil [simp]: "to_bytes s = [] \<longleftrightarrow> s = []"
  by (simp add: to_bytes_def)

subsection \<open>ASCII case and space, and the prefix and suffix tests\<close>

definition ascii :: "string \<Rightarrow> bool" where
  "ascii s = list_all (\<lambda>c. of_char c < (128 :: nat)) s"

definition ascii_lower :: "char \<Rightarrow> char" where
  "ascii_lower c = (let n = of_char c :: nat in if 65 \<le> n \<and> n \<le> 90 then char_of (n + 32) else c)"

definition ascii_upper :: "char \<Rightarrow> char" where
  "ascii_upper c = (let n = of_char c :: nat in if 97 \<le> n \<and> n \<le> 122 then char_of (n - 32) else c)"

definition ascii_space :: "char \<Rightarrow> bool" where
  "ascii_space c = (of_char c \<in> {9, 10, 11, 12, 13, 32 :: nat})"

definition ascii_trim :: "string \<Rightarrow> string" where
  "ascii_trim s = rev (dropWhile ascii_space (rev (dropWhile ascii_space s)))"

definition HasPrefix :: "string \<Rightarrow> string \<Rightarrow> bool" where
  "HasPrefix s p = (take (length p) s = p)"

definition HasSuffix :: "string \<Rightarrow> string \<Rightarrow> bool" where
  "HasSuffix s p = (length p \<le> length s \<and> drop (length s - length p) s = p)"

lemma of_char_ascii_lower:
  "of_char (ascii_lower c) =
     (let n = of_char c :: nat in if 65 \<le> n \<and> n \<le> 90 then n + 32 else n)"
  by (simp add: ascii_lower_def Let_def)

lemma of_char_ascii_upper:
  "of_char (ascii_upper c) =
     (let n = of_char c :: nat in if 97 \<le> n \<and> n \<le> 122 then n - 32 else n)"
  using of_char_less_256 [of c] by (auto simp: ascii_upper_def Let_def)

lemma ascii_lower_idem [simp]: "ascii_lower (ascii_lower c) = ascii_lower c"
proof -
  have "of_char (ascii_lower (ascii_lower c)) = (of_char (ascii_lower c) :: nat)"
    by (auto simp: of_char_ascii_lower Let_def)
  then show ?thesis by simp
qed

lemma ascii_upper_idem [simp]: "ascii_upper (ascii_upper c) = ascii_upper c"
proof -
  have "of_char (ascii_upper (ascii_upper c)) = (of_char (ascii_upper c) :: nat)"
    by (auto simp: of_char_ascii_upper Let_def)
  then show ?thesis by simp
qed

lemma ascii_upper_lower [simp]: "ascii_upper (ascii_lower c) = ascii_upper c"
proof -
  have "of_char (ascii_upper (ascii_lower c)) = (of_char (ascii_upper c) :: nat)"
    by (simp add: of_char_ascii_upper of_char_ascii_lower Let_def)
  then show ?thesis by simp
qed

lemma ascii_space_lower [simp]: "ascii_space (ascii_lower c) = ascii_space c"
  by (auto simp: ascii_space_def of_char_ascii_lower Let_def)

lemma ascii_space_upper [simp]: "ascii_space (ascii_upper c) = ascii_space c"
  by (auto simp: ascii_space_def of_char_ascii_upper Let_def)

lemma ascii_map_lower [simp]: "ascii (map ascii_lower s) = ascii s"
  by (induction s) (auto simp: ascii_def of_char_ascii_lower Let_def)

lemma ascii_map_upper [simp]: "ascii (map ascii_upper s) = ascii s"
  by (induction s) (auto simp: ascii_def of_char_ascii_upper Let_def)

lemma ascii_Nil [simp]: "ascii []"
  by (simp add: ascii_def)

lemma ascii_append [simp]: "ascii (s @ t) \<longleftrightarrow> ascii s \<and> ascii t"
  by (simp add: ascii_def)

lemma ascii_subset: "ascii s \<Longrightarrow> set t \<subseteq> set s \<Longrightarrow> ascii t"
  by (auto simp: ascii_def list_all_iff)

lemma set_ascii_trim: "set (ascii_trim s) \<subseteq> set s"
  unfolding ascii_trim_def by (metis set_dropWhileD set_rev subsetI)

lemma ascii_ascii_trim: "ascii s \<Longrightarrow> ascii (ascii_trim s)"
  by (rule ascii_subset [OF _ set_ascii_trim])

lemma dropWhile_hd_not: "xs = [] \<or> \<not> P (hd xs) \<Longrightarrow> dropWhile P xs = xs"
  by (cases xs) auto

lemma hd_dropWhile_not: "dropWhile P xs = [] \<or> \<not> P (hd (dropWhile P xs))"
  by (induction xs) auto

lemma ascii_trim_map:
  assumes "\<And>c. ascii_space (f c) = ascii_space c"
  shows "ascii_trim (map f s) = map f (ascii_trim s)"
proof -
  have "ascii_space \<circ> f = ascii_space" using assms by (simp add: fun_eq_iff)
  then show ?thesis by (simp add: ascii_trim_def dropWhile_map rev_map)
qed

lemma dropWhile_rev_keeps_head:
  assumes "xs = [] \<or> \<not> P (hd xs)"
  shows "rev (dropWhile P (rev xs)) = [] \<or> \<not> P (hd (rev (dropWhile P (rev xs))))"
proof (cases xs)
  case Nil
  then show ?thesis by simp
next
  case (Cons x ys)
  with assms have "\<not> P x" by simp
  then have "dropWhile P (rev ys @ [x]) = dropWhile P (rev ys) @ [x]"
    by (simp add: dropWhile_append dropWhile_eq_Nil_conv)
  with Cons \<open>\<not> P x\<close> show ?thesis by simp
qed

lemma ascii_trim_idem [simp]: "ascii_trim (ascii_trim s) = ascii_trim s"
proof -
  let ?d = "dropWhile ascii_space s"
  let ?t = "rev (dropWhile ascii_space (rev ?d))"
  have "?t = [] \<or> \<not> ascii_space (hd ?t)"
    by (rule dropWhile_rev_keeps_head) (rule hd_dropWhile_not)
  then have "dropWhile ascii_space ?t = ?t" by (rule dropWhile_hd_not)
  then show ?thesis by (simp add: ascii_trim_def)
qed

lemma ascii_lower_upper [simp]: "ascii_lower (ascii_upper c) = ascii_lower c"
proof -
  have "of_char (ascii_lower (ascii_upper c)) = (of_char (ascii_lower c) :: nat)"
    by (auto simp: of_char_ascii_upper of_char_ascii_lower Let_def)
  then show ?thesis by simp
qed

lemma ascii_spaces: "\<forall>c \<in> set s. ascii_space c \<Longrightarrow> ascii s"
  by (auto simp: ascii_def list_all_iff ascii_space_def)

lemma dropWhile_prefix: "\<forall>x \<in> set u. P x \<Longrightarrow> dropWhile P (u @ s) = dropWhile P s"
  by (induction u) auto

lemma ascii_trim_padding:
  assumes "\<forall>c \<in> set u. ascii_space c" and "\<forall>c \<in> set v. ascii_space c"
  shows "ascii_trim (u @ s @ v) = ascii_trim s"
proof (cases "\<forall>c\<in>set s. ascii_space c")
  case True
  then have "\<forall>c \<in> set (u @ s @ v). ascii_space c" using assms by auto
  then have "dropWhile ascii_space (u @ s @ v) = []" and "dropWhile ascii_space s = []"
    using True by (simp_all only: dropWhile_eq_Nil_conv)
  then show ?thesis by (simp only: ascii_trim_def)
next
  case False
  then have "dropWhile ascii_space (s @ v) = dropWhile ascii_space s @ v"
    by (auto simp: dropWhile_append dropWhile_eq_Nil_conv)
  then have "ascii_trim (u @ s @ v) =
      rev (dropWhile ascii_space (rev v @ rev (dropWhile ascii_space s)))"
    by (simp add: ascii_trim_def dropWhile_prefix [OF assms(1)])
  also have "\<dots> = ascii_trim s"
    using dropWhile_prefix [of "rev v" ascii_space] assms(2) by (simp add: ascii_trim_def)
  finally show ?thesis .
qed

end
