(* ===== verification/Window.thy ===== *)
theory Window
  imports Prelude
begin

text \<open>
  Sliding windows of time stamps, as \<open>auth.RateLimiter\<close> and \<open>audit.Tracker\<close> keep
  them per key.  \<open>keep_loop\<close> is the in-place compaction loop that both run
  (\<open>valid := existing[:0]; for _, t := range existing ...\<close>), with the backing array that
  the two slices share written out; it is proved to be \<^const>\<open>filter\<close>.  The locale
  \<open>sliding_window\<close> is the interface of such a table: what is recent at a later time
  after a hit, a tidy-up and a reset, and its simulation by an unpruned history.
\<close>

subsection \<open>The in-place compaction loop\<close>

text \<open>
  \<open>a\<close> is the shared backing array, \<open>i\<close> the loop's read position and \<open>j\<close> the length
  of \<open>valid\<close>, so that an \<open>append\<close> to \<open>valid\<close> writes slot \<open>j\<close> of the array being
  ranged over.
\<close>

function keep_loop :: "time \<Rightarrow> time list \<Rightarrow> nat \<Rightarrow> nat \<Rightarrow> time list" where
  "keep_loop cutoff a i j =
     (if i < length a
      then (if cutoff < a ! i
            then keep_loop cutoff (a[j := a ! i]) (Suc i) (Suc j)
            else keep_loop cutoff a (Suc i) j)
      else take j a)"
  by pat_completeness auto
termination
  by (relation "measure (\<lambda>(cutoff, a, i, j). length a - i)") auto

declare keep_loop.simps [simp del]

definition keep_after :: "time \<Rightarrow> time list \<Rightarrow> time list" where
  "keep_after cutoff existing = keep_loop cutoff existing 0 0"

lemma keep_loop_filter:
  "j \<le> i \<Longrightarrow> keep_loop cutoff a i j = take j a @ filter (\<lambda>t. cutoff < t) (drop i a)"
proof (induction cutoff a i j rule: keep_loop.induct)
  case (1 cutoff a i j)
  show ?case
  proof (cases "i < length a")
    case False
    then show ?thesis by (simp add: keep_loop.simps [of cutoff a i j])
  next
    case True
    note step = keep_loop.simps [of cutoff a i j] Cons_nth_drop_Suc [OF True, symmetric]
    show ?thesis
    proof (cases "cutoff < a ! i")
      case True
      with \<open>i < length a\<close> "1.prems" "1.IH"(1) have
        "keep_loop cutoff (a[j := a ! i]) (Suc i) (Suc j) =
           take (Suc j) (a[j := a ! i]) @ filter (\<lambda>t. cutoff < t) (drop (Suc i) (a[j := a ! i]))"
        by simp
      moreover have "take (Suc j) (a[j := a ! i]) = take j a @ [a ! i]"
        using \<open>i < length a\<close> "1.prems" by (simp add: take_Suc_conv_app_nth)
      ultimately show ?thesis
        using True \<open>i < length a\<close> "1.prems" by (simp add: step)
    next
      case False
      with \<open>i < length a\<close> "1.prems" "1.IH"(2) show ?thesis by (simp add: step)
    qed
  qed
qed

lemma keep_after_filter: "keep_after cutoff ts = filter (\<lambda>t. cutoff < t) ts"
  by (simp add: keep_after_def keep_loop_filter)

subsection \<open>The interface of a window table\<close>

text \<open>
  \<open>stamps s k\<close> are the time stamps stored for a key, \<open>hit\<close> records one, \<open>tidy\<close> drops
  stale ones and \<open>forget\<close> clears a key.  What counts as recent at time \<open>T\<close> is later than
  \<open>T - width s\<close>.
\<close>

definition recent_in :: "duration \<Rightarrow> time \<Rightarrow> time list \<Rightarrow> time list" where
  "recent_in w T ts = filter (\<lambda>t. T - w < t) ts"

lemma recent_in_append [simp]: "recent_in w T (xs @ ys) = recent_in w T xs @ recent_in w T ys"
  by (simp add: recent_in_def)

lemma recent_in_Nil [simp]: "recent_in w T [] = []"
  by (simp add: recent_in_def)

lemma recent_in_filter:
  "now \<le> T \<Longrightarrow> recent_in w T (filter (\<lambda>t. now - w < t) ts) = recent_in w T ts"
  by (induction ts) (auto simp: recent_in_def)

lemma recent_in_later:
  "now \<le> T \<Longrightarrow> recent_in w T (recent_in w now ts) = recent_in w T ts"
  using recent_in_filter [of now T w ts] by (simp add: recent_in_def)

text \<open>The reference: every hit of a key since its last reset, never pruned.\<close>

type_synonym 'k history = "'k \<Rightarrow> time list"

definition hist_hit :: "time \<Rightarrow> 'k \<Rightarrow> 'k history \<Rightarrow> 'k history" where
  "hist_hit now k h = h(k := h k @ [now])"

definition hist_forget :: "'k \<Rightarrow> 'k history \<Rightarrow> 'k history" where
  "hist_forget k h = h(k := [])"

locale sliding_window =
  fixes width :: "'s \<Rightarrow> duration"
    and stamps :: "'s \<Rightarrow> 'k \<Rightarrow> time list"
    and hit :: "time \<Rightarrow> 'k \<Rightarrow> 's \<Rightarrow> 's"
    and tidy :: "time \<Rightarrow> 'k \<Rightarrow> 's \<Rightarrow> 's"
    and forget :: "'k \<Rightarrow> 's \<Rightarrow> 's"
  assumes width_hit: "width (hit now k s) = width s"
    and width_tidy: "width (tidy now k s) = width s"
    and width_forget: "width (forget k s) = width s"
    and stamps_hit: "now \<le> T \<Longrightarrow> recent_in (width s) T (stamps (hit now k s) k') =
          recent_in (width s) T (stamps s k' @ (if k' = k then [now] else []))"
    and stamps_tidy: "now \<le> T \<Longrightarrow>
          recent_in (width s) T (stamps (tidy now k s) k') = recent_in (width s) T (stamps s k')"
    and stamps_forget: "stamps (forget k s) k' = (if k' = k then [] else stamps s k')"
begin

lemmas width_laws = width_hit width_tidy width_forget

text \<open>
  The table agrees with a history from \<open>now\<close> on: at every later time the same stamps are
  recent.
\<close>

definition agrees :: "time \<Rightarrow> 's \<Rightarrow> 'k history \<Rightarrow> bool" where
  "agrees now s h = (\<forall>k T. now \<le> T \<longrightarrow>
     recent_in (width s) T (stamps s k) = recent_in (width s) T (h k))"

lemma agreesD: "agrees now s h \<Longrightarrow> now \<le> T \<Longrightarrow>
  recent_in (width s) T (stamps s k) = recent_in (width s) T (h k)"
  by (simp add: agrees_def)

lemma agrees_later: "agrees now s h \<Longrightarrow> now \<le> now' \<Longrightarrow> agrees now' s h"
  by (auto simp: agrees_def)

lemma agrees_start: "(\<And>k. stamps s k = []) \<Longrightarrow> agrees now s (\<lambda>_. [])"
  by (simp add: agrees_def)

lemma agrees_hit: "agrees now s h \<Longrightarrow> agrees now (hit now k s) (hist_hit now k h)"
  by (auto simp: agrees_def width_laws stamps_hit hist_hit_def)

lemma agrees_tidy: "agrees now s h \<Longrightarrow> agrees now (tidy now k s) h"
  by (auto simp: agrees_def width_laws stamps_tidy)

lemma agrees_forget: "agrees now s h \<Longrightarrow> agrees now (forget k s) (hist_forget k h)"
  by (auto simp: agrees_def width_laws stamps_forget hist_forget_def)

lemma agrees_count:
  "agrees now s h \<Longrightarrow>
   length (recent_in (width s) now (stamps s k)) = length (recent_in (width s) now (h k))"
  by (simp add: agreesD)

end

subsection \<open>Counting hits in a window of a history\<close>

lemma recent_bound_extend:
  assumes old: "\<And>T. length (filter (\<lambda>t. T - w < t \<and> t \<le> T) h) \<le> n"
    and few: "length (recent_in w now h) < n"
    and past: "\<And>t. t \<in> set h \<Longrightarrow> t \<le> now"
  shows "length (filter (\<lambda>t. T - w < t \<and> t \<le> T) (h @ [now])) \<le> n"
proof (cases "now \<le> T")
  case False
  then show ?thesis using old [of T] by simp
next
  case True
  have "length (filter (\<lambda>t. T - w < t \<and> t \<le> T) h) \<le> length (recent_in w now h)"
  proof -
    have "filter (\<lambda>t. T - w < t \<and> t \<le> T) h = filter (\<lambda>t. T - w < t) (recent_in w now h)"
      using True by (auto simp: recent_in_def intro!: filter_cong dest: past)
    then show ?thesis by simp
  qed
  then show ?thesis using few by simp
qed

end
