(* ===== verification/Alert.thy ===== *)
theory Alert
  imports Window
begin

text \<open>
  \<open>internal/audit/alert.go\<close>: the tracker that raises an alert on repeated login failures
  of one user, and the notices its \<open>Notifier\<close> emits.  \<open>SlogNotifier\<close> writes each notice
  to the log; here a notice is a value, and the program state keeps the list of them.
  \<open>RecordLoginFailure\<close> reads the clock twice, so it takes both readings.
\<close>

datatype uuid = UUID (uuid_bits: "128 word")

instantiation uuid :: linorder
begin

definition less_eq_uuid :: "uuid \<Rightarrow> uuid \<Rightarrow> bool" where
  "less_eq_uuid a b = (uuid_bits a \<le> uuid_bits b)"

definition less_uuid :: "uuid \<Rightarrow> uuid \<Rightarrow> bool" where
  "less_uuid a b = (uuid_bits a < uuid_bits b)"

instance
  by standard (auto simp: less_eq_uuid_def less_uuid_def uuid.expand)

end

abbreviation uuid_Nil :: uuid where "uuid_Nil \<equiv> UUID 0"

datatype notice =
    LoginFailureThreshold uuid string int
  | NewDevice uuid string

record tracker =
  tk_failures :: "uuid \<rightharpoonup> time list"
  tk_limit :: int
  tk_window :: duration

definition NewTracker :: tracker where
  "NewTracker = \<lparr>tk_failures = Map.empty, tk_limit = 5, tk_window = 15 * Minute\<rparr>"

definition tk_events :: "tracker \<Rightarrow> uuid \<Rightarrow> time list" where
  "tk_events t uid = (case tk_failures t uid of None \<Rightarrow> [] | Some ts \<Rightarrow> ts)"

definition Tracker_RecordLoginFailure ::
  "time \<Rightarrow> time \<Rightarrow> uuid \<Rightarrow> string \<Rightarrow> tracker \<Rightarrow> notice list \<times> tracker" where
  "Tracker_RecordLoginFailure now1 now2 uid ip t =
     (let cutoff = now1 - tk_window t;
          pruned = keep_after cutoff (tk_events t uid) @ [now2];
          t' = t\<lparr>tk_failures := (tk_failures t)(uid \<mapsto> pruned)\<rparr>
      in (if int (length pruned) \<ge> tk_limit t
          then [LoginFailureThreshold uid ip (int (length pruned))] else [], t'))"

definition Tracker_ResetFailures :: "uuid \<Rightarrow> tracker \<Rightarrow> tracker" where
  "Tracker_ResetFailures uid t = t\<lparr>tk_failures := (tk_failures t)(uid := None)\<rparr>"

definition HashUserAgent :: "(bytes \<Rightarrow> bytes) \<Rightarrow> string \<Rightarrow> bytes" where
  "HashUserAgent sha256 ua = (if ua = [] then [] else sha256 (to_bytes ua))"

subsection \<open>The tracker is a sliding-window table\<close>

definition tk_hit :: "time \<Rightarrow> uuid \<Rightarrow> tracker \<Rightarrow> tracker" where
  "tk_hit now uid t =
     t\<lparr>tk_failures := (tk_failures t)
         (uid \<mapsto> keep_after (now - tk_window t) (tk_events t uid) @ [now])\<rparr>"

definition tk_tidy :: "time \<Rightarrow> uuid \<Rightarrow> tracker \<Rightarrow> tracker" where
  "tk_tidy now uid t =
     t\<lparr>tk_failures := (tk_failures t)
         (uid \<mapsto> keep_after (now - tk_window t) (tk_events t uid))\<rparr>"

lemma tk_events_upd:
  "tk_events (t\<lparr>tk_failures := (tk_failures t)(k := v)\<rparr>) k' =
     (if k' = k then (case v of None \<Rightarrow> [] | Some ts \<Rightarrow> ts) else tk_events t k')"
  by (simp add: tk_events_def)

interpretation tkw: sliding_window tk_window tk_events tk_hit tk_tidy Tracker_ResetFailures
  by unfold_locales
     (auto simp: tk_hit_def tk_tidy_def Tracker_ResetFailures_def tk_events_upd
        keep_after_filter recent_in_filter)

lemma NewTracker_agrees: "tkw.agrees now NewTracker (\<lambda>_. [])"
  by (rule tkw.agrees_start) (simp add: NewTracker_def tk_events_def)

lemma RecordLoginFailure_same_time:
  "Tracker_RecordLoginFailure now now uid ip t =
     (let n = int (length (recent_in (tk_window t) now (tk_events t uid))) + 1
      in (if n \<ge> tk_limit t then [LoginFailureThreshold uid ip n] else [], tk_hit now uid t))"
  by (simp add: Tracker_RecordLoginFailure_def tk_hit_def keep_after_filter recent_in_def Let_def)

text \<open>
  One call, against the unpruned history of the user's failures since the last reset: the
  alert is raised exactly when this failure makes at least \<open>limit\<close> in the window.
\<close>

lemma RecordLoginFailure_alert_iff:
  assumes "tkw.agrees now t h"
  shows "fst (Tracker_RecordLoginFailure now now uid ip t) =
     (let n = int (length (recent_in (tk_window t) now (h uid))) + 1
      in if n \<ge> tk_limit t then [LoginFailureThreshold uid ip n] else [])"
  using tkw.agrees_count [OF assms, of uid] by (simp add: RecordLoginFailure_same_time Let_def)

lemma RecordLoginFailure_agrees:
  assumes "tkw.agrees now t h"
  shows "tkw.agrees now (snd (Tracker_RecordLoginFailure now now uid ip t)) (hist_hit now uid h)"
  using tkw.agrees_hit [OF assms] by (simp add: RecordLoginFailure_same_time Let_def)

subsection \<open>Properties\<close>

text \<open>
  Failure alerts.  A tracker whose window agrees with the user's full failure history
  raises an alert on a failure exactly when that failure is at least the \<open>limit\<close>-th one in
  the last window, reports that number, and agrees with the extended history afterwards.
\<close>

theorem tracker_alerts_iff_threshold:
  assumes "tkw.agrees now t h"
  shows "fst (Tracker_RecordLoginFailure now now uid ip t) =
       (let n = int (length (recent_in (tk_window t) now (h uid))) + 1
        in if n \<ge> tk_limit t then [LoginFailureThreshold uid ip n] else []) \<and>
     tkw.agrees now (snd (Tracker_RecordLoginFailure now now uid ip t)) (hist_hit now uid h)"
  using RecordLoginFailure_alert_iff [OF assms] RecordLoginFailure_agrees [OF assms] by blast

theorem tracker_alerts_iff_threshold_witness:
  "fst (Tracker_RecordLoginFailure 5 5 uuid_Nil ''ip'' NewTracker) = []"
  using tracker_alerts_iff_threshold [OF NewTracker_agrees, of 5 uuid_Nil "''ip''"]
  by (simp add: NewTracker_def)

end
