(* ===== verification/GoError.thy ===== *)
theory GoError
  imports Prelude
begin

text \<open>
  Go error values.  The sentinels of the packages are constructors; \<open>fmt.Errorf\<close> with
  \<open>%w\<close> is \<open>Wrap\<close>; \<open>errors.Is\<close> and \<open>errors.As\<close> (for \<open>*pgconn.PgError\<close>) walk the chain of
  wrapped errors, as the library does.  A fallible Go function returns \<open>err + 'a\<close>.
\<close>

datatype err =
    ErrNoRows                     \<comment> \<open>\<open>pgx.ErrNoRows\<close>\<close>
  | PgError string                \<comment> \<open>\<open>*pgconn.PgError\<close> with its SQLSTATE code\<close>
  | ErrDriver string              \<comment> \<open>any other failure of the database driver\<close>
  | ErrNotFound                   \<comment> \<open>\<open>storage.ErrNotFound\<close>\<close>
  | ErrConflict                   \<comment> \<open>\<open>storage.ErrConflict\<close>\<close>
  | ErrSessionInvalid             \<comment> \<open>\<open>auth.ErrSessionInvalid\<close>\<close>
  | ErrRand                       \<comment> \<open>\<open>rand.Read\<close> failed\<close>
  | ErrInvalidKeySize
  | ErrCiphertextTooShort
  | ErrOpen
  | ErrEmptyPassword
  | ErrEmptySalt
  | ErrEmptyMasterKey
  | ErrEmptyAuthHash
  | ErrText string                \<comment> \<open>\<open>errors.New\<close> with a message of its own\<close>
  | Wrap string err               \<comment> \<open>\<open>fmt.Errorf(... %w)\<close>\<close>

fun errors_Is :: "err \<Rightarrow> err \<Rightarrow> bool" where
  "errors_Is (Wrap m e) target = (Wrap m e = target \<or> errors_Is e target)"
| "errors_Is e target = (e = target)"

fun errors_AsPg :: "err \<Rightarrow> string option" where
  "errors_AsPg (PgError code) = Some code"
| "errors_AsPg (Wrap m e) = errors_AsPg e"
| "errors_AsPg _ = None"

text \<open>\<open>storage.mapNotFound\<close>, called on a non-nil error.\<close>

definition mapNotFound :: "err \<Rightarrow> err" where
  "mapNotFound e = (if errors_Is e ErrNoRows then ErrNotFound else e)"

text \<open>The two shapes in which a repository passes an error on.\<close>

definition map_err :: "(err \<Rightarrow> err) \<Rightarrow> err + 'a \<Rightarrow> err + 'a" where
  "map_err f r = (case r of Inl e \<Rightarrow> Inl (f e) | Inr x \<Rightarrow> Inr x)"

definition map_ok :: "('a \<Rightarrow> 'b) \<Rightarrow> err + 'a \<Rightarrow> err + 'b" where
  "map_ok f r = (case r of Inl e \<Rightarrow> Inl e | Inr x \<Rightarrow> Inr (f x))"

lemma map_err_simps [simp]:
  "map_err f (Inl e) = Inl (f e)" "map_err f (Inr x) = Inr x"
  by (simp_all add: map_err_def)

lemma map_ok_simps [simp]:
  "map_ok g (Inl e) = Inl e" "map_ok g (Inr x) = Inr (g x)"
  by (simp_all add: map_ok_def)

lemma map_err_eq_Inr [simp]: "map_err f r = Inr x \<longleftrightarrow> r = Inr x"
  by (cases r) auto

lemma map_ok_eq_Inl [simp]: "map_ok g r = Inl e \<longleftrightarrow> r = Inl e"
  by (cases r) auto

lemma mapNotFound_eq: "mapNotFound e = ErrNotFound \<longleftrightarrow> errors_Is e ErrNoRows \<or> e = ErrNotFound"
  by (auto simp: mapNotFound_def)

lemma errors_Is_mapNotFound:
  "errors_Is (mapNotFound e) ErrNotFound \<longleftrightarrow> errors_Is e ErrNoRows \<or> errors_Is e ErrNotFound"
  by (auto simp: mapNotFound_def)

lemma mapNotFound_Wrap:
  "mapNotFound (Wrap m e) = (if errors_Is e ErrNoRows then ErrNotFound else Wrap m e)"
  by (simp add: mapNotFound_def)

end
