(* ===== verification/Externals.thy ===== *)
theory Externals
  imports GoError Alert
begin

text \<open>
  What the program takes from outside its sources.  Third-party functions (Argon2id,
  HKDF, XChaCha20-Poly1305, TOTP, the e-mail and UUID parsers), SHA-256 and the Unicode
  tables and text syntax of JSON behind the standard library are fields of the record
  \<open>lib\<close>, an argument of every definition that uses them; what the code relies on of them is
  stated as named predicates (\<open>aead_ok\<close>, \<open>json_ok\<close>, \<open>sha_injective_on\<close>).

  A JSON text is its tree: numbers written as integers are \<open>JNum\<close>, other numbers
  \<open>JReal\<close> with their literal, and an object keeps its members in order, duplicates included.
\<close>

datatype json =
    JNull
  | JBool bool
  | JNum int
  | JReal string
  | JStr string
  | JArr "json list"
  | JObj "(string \<times> json) list"

type_synonym u32 = "32 word"
type_synonym u8 = "8 word"

record lib =
  unicode_lower :: "string \<Rightarrow> string"    \<comment> \<open>\<open>strings.ToLower\<close> beyond ASCII\<close>
  unicode_upper :: "string \<Rightarrow> string"    \<comment> \<open>\<open>strings.ToUpper\<close> beyond ASCII\<close>
  unicode_trim :: "string \<Rightarrow> string"     \<comment> \<open>\<open>strings.TrimSpace\<close> beyond ASCII\<close>
  unicode_fold :: "string \<Rightarrow> string"     \<comment> \<open>key folding of \<open>encoding/json\<close> beyond ASCII\<close>
  argon2_IDKey :: "bytes \<Rightarrow> bytes \<Rightarrow> u32 \<Rightarrow> u32 \<Rightarrow> u8 \<Rightarrow> u32 \<Rightarrow> bytes"
  hkdf_read :: "bytes \<Rightarrow> bytes \<Rightarrow> nat \<Rightarrow> bytes option"
  sha256 :: "bytes \<Rightarrow> bytes"
  sha384 :: "bytes \<Rightarrow> bytes"
  chacha_NewX :: "bytes \<Rightarrow> bool"         \<comment> \<open>whether the constructor accepts the key\<close>
  xchacha_seal :: "bytes \<Rightarrow> bytes \<Rightarrow> bytes \<Rightarrow> bytes \<Rightarrow> bytes"
  xchacha_open :: "bytes \<Rightarrow> bytes \<Rightarrow> bytes \<Rightarrow> bytes \<Rightarrow> bytes option"
  totp_Validate :: "time \<Rightarrow> string \<Rightarrow> string \<Rightarrow> bool"
  totp_Generate :: "string \<Rightarrow> string \<Rightarrow> bytes \<Rightarrow> (string \<times> string) option"
  email_Unmarshal :: "json \<Rightarrow> string option"
  uuid_Parse :: "string \<Rightarrow> uuid option"
  net_ParseIP :: "string \<Rightarrow> string option"
  time_Format :: "time \<Rightarrow> string"        \<comment> \<open>the layout \<open>newRequestID\<close> falls back to\<close>
  json_text :: "json \<Rightarrow> bytes"
  json_parse :: "bytes \<Rightarrow> json option"

subsection \<open>Hypotheses about the externals\<close>

text \<open>
  XChaCha20-Poly1305 (documented behaviour of the AEAD): 32-byte keys are accepted, the
  sealed text is 16 bytes longer than the plaintext, and opening succeeds exactly on what
  sealing the result again under the same key, nonce and additional data would give (the tag
  is recomputed over the ciphertext, and the stream cipher is a bijection).
\<close>

definition aead_ok :: "lib \<Rightarrow> bool" where
  "aead_ok l = (\<forall>k n. length k = 32 \<and> length n = 24 \<longrightarrow>
     chacha_NewX l k \<and>
     (\<forall>p a. length (xchacha_seal l k n p a) = length p + 16) \<and>
     (\<forall>c p a. xchacha_open l k n c a = Some p \<longleftrightarrow> c = xchacha_seal l k n p a))"

text \<open>The JSON printer and parser agree on the trees the code prints.\<close>

definition json_ok :: "lib \<Rightarrow> json \<Rightarrow> bool" where
  "json_ok l j = (json_parse l (json_text l j) = Some j)"

text \<open>No SHA-256 collision among the given inputs.\<close>

definition sha_injective_on :: "lib \<Rightarrow> bytes set \<Rightarrow> bool" where
  "sha_injective_on l A = inj_on (sha256 l) A"

lemma sha_injectiveD:
  "sha_injective_on l {a, b} \<Longrightarrow> sha256 l a = sha256 l b \<Longrightarrow> a = b"
  by (erule inj_onD [of "sha256 l" "{a, b}", unfolded sha_injective_on_def [symmetric]]) simp_all

lemma aead_okD:
  assumes "aead_ok l" and "length k = 32" and "length n = 24"
  shows "chacha_NewX l k" "length (xchacha_seal l k n p a) = length p + 16"
    and "xchacha_open l k n c a = Some p \<longleftrightarrow> c = xchacha_seal l k n p a"
  using assms by (auto simp: aead_ok_def)

subsection \<open>Case and space functions of \<open>strings\<close>\<close>

text \<open>
  \<open>ToLower\<close>, \<open>ToUpper\<close> and \<open>TrimSpace\<close> take a fast path on ASCII strings, written out
  here; other strings go through the Unicode tables.
\<close>

definition ToLower :: "lib \<Rightarrow> string \<Rightarrow> string" where
  "ToLower l s = (if ascii s then map ascii_lower s else unicode_lower l s)"

definition ToUpper :: "lib \<Rightarrow> string \<Rightarrow> string" where
  "ToUpper l s = (if ascii s then map ascii_upper s else unicode_upper l s)"

definition TrimSpace :: "lib \<Rightarrow> string \<Rightarrow> string" where
  "TrimSpace l s = (if ascii s then ascii_trim s else unicode_trim l s)"

lemma TrimSpace_ascii: "ascii s \<Longrightarrow> TrimSpace l s = ascii_trim s"
  by (simp add: TrimSpace_def)

lemma ToLower_ascii: "ascii s \<Longrightarrow> ToLower l s = map ascii_lower s"
  by (simp add: ToLower_def)

lemma ToUpper_ascii: "ascii s \<Longrightarrow> ToUpper l s = map ascii_upper s"
  by (simp add: ToUpper_def)

subsection \<open>Randomness\<close>

text \<open>
  \<open>crypto/rand\<close>: an unbounded supply of bytes, and for each call of \<open>rand.Read\<close> whether it
  fails.  Both are arbitrary; a read consumes from the front.
\<close>

record rng =
  rng_bytes :: "nat \<Rightarrow> byte"
  rng_fail :: "nat \<Rightarrow> bool"

definition rand_Read :: "nat \<Rightarrow> (rng, err + bytes) state" where
  "rand_Read n = State (\<lambda>g.
     let g' = g\<lparr>rng_fail := (\<lambda>i. rng_fail g (Suc i))\<rparr>
     in if rng_fail g 0 then (Inl ErrRand, g')
        else (Inr (map (rng_bytes g) [0..<n]), g'\<lparr>rng_bytes := (\<lambda>i. rng_bytes g (i + n))\<rparr>))"

lemma rand_Read_Inr: "run_state (rand_Read n) g = (Inr bs, g') \<Longrightarrow> length bs = n"
  by (auto simp: rand_Read_def Let_def split: if_splits)

lemma rand_Read_run:
  "run_state (rand_Read n) g =
     (if rng_fail g 0 then (Inl ErrRand, g\<lparr>rng_fail := (\<lambda>i. rng_fail g (Suc i))\<rparr>)
      else (Inr (map (rng_bytes g) [0..<n]),
            g\<lparr>rng_fail := (\<lambda>i. rng_fail g (Suc i)), rng_bytes := (\<lambda>i. rng_bytes g (i + n))\<rparr>))"
  by (simp add: rand_Read_def Let_def)

subsection \<open>A concrete instance of the externals\<close>

text \<open>
  A small computable instance, at which the hypotheses above hold: sealing appends a tag of
  16 zero bytes, hashes pad or cut their input.  It shows that the hypotheses can be met and
  lets examples be evaluated; no result depends on it.
\<close>

definition pad_to :: "nat \<Rightarrow> bytes \<Rightarrow> bytes" where
  "pad_to n b = take n (b @ replicate n 0)"

definition sample_open :: "bytes \<Rightarrow> bytes option" where
  "sample_open c = (if 16 \<le> length c \<and> drop (length c - 16) c = replicate 16 0
     then Some (take (length c - 16) c) else None)"

definition sample_lib :: lib where
  "sample_lib = \<lparr>
     unicode_lower = (\<lambda>s. s), unicode_upper = (\<lambda>s. s), unicode_trim = (\<lambda>s. s),
     unicode_fold = (\<lambda>s. s),
     argon2_IDKey = (\<lambda>pw salt t m p n. pad_to (unat n) (pw @ salt)),
     hkdf_read = (\<lambda>secret info n. Some (pad_to n (secret @ info))),
     sha256 = pad_to 32, sha384 = pad_to 48,
     chacha_NewX = (\<lambda>k. length k = 32),
     xchacha_seal = (\<lambda>k n p a. p @ replicate 16 0),
     xchacha_open = (\<lambda>k n c a. sample_open c),
     totp_Validate = (\<lambda>now code secret. code = ''123456''),
     totp_Generate = (\<lambda>issuer account r. Some (''ABCDEFGH'', ''otpauth://totp'')),
     email_Unmarshal = (\<lambda>j. case j of JStr s \<Rightarrow> if CHR ''@'' \<in> set s then Some s else None | _ \<Rightarrow> None),
     uuid_Parse = (\<lambda>s. if s = ''u1'' then Some (UUID 1) else None),
     net_ParseIP = (\<lambda>s. if s = [] then None else Some s),
     time_Format = (\<lambda>t. ''20060102T150405''),
     json_text = (\<lambda>j. []), json_parse = (\<lambda>b. None)\<rparr>"

lemma length_pad_to [simp]: "length (pad_to n b) = n"
  by (simp add: pad_to_def)

lemma sample_open_iff: "sample_open c = Some p \<longleftrightarrow> c = p @ replicate 16 0"
proof
  assume "sample_open c = Some p"
  then have "16 \<le> length c" "drop (length c - 16) c = replicate 16 0" "p = take (length c - 16) c"
    by (auto simp: sample_open_def split: if_splits)
  then show "c = p @ replicate 16 0" by (metis append_take_drop_id)
next
  assume "c = p @ replicate 16 0"
  then show "sample_open c = Some p" by (simp add: sample_open_def)
qed

lemma aead_ok_sample: "aead_ok sample_lib"
  by (simp add: aead_ok_def sample_lib_def sample_open_iff)

definition sample_rng :: rng where
  "sample_rng = \<lparr>rng_bytes = (\<lambda>i. of_nat i), rng_fail = (\<lambda>_. False)\<rparr>"

lemma aead_ok_upd [simp]:
  "aead_ok (l\<lparr>json_parse := f\<rparr>) = aead_ok l"
  "aead_ok (l\<lparr>json_text := h\<rparr>) = aead_ok l"
  by (simp_all add: aead_ok_def)

end
