(* ===== verification/Http.thy ===== *)
theory Http
  imports Externals
begin

text \<open>
  Requests, responses and cookies as the handlers of \<open>internal/api\<close> use them.  A request
  carries the values \<open>context.WithValue\<close> attached to it (request id, user agent, user id) in
  fields of its own.  Its body is what \<open>json.NewDecoder(r.Body).Decode\<close> sees: the first JSON
  value and the offset at which it ends, or nothing when there is no well-formed value.
  A response writer collects headers until the status is written; the first status wins and
  freezes the headers, as \<open>net/http\<close> has it.
\<close>

record request =
  rq_method :: string
  rq_path :: string
  rq_remote :: string
  rq_header :: "string \<Rightarrow> string"          \<comment> \<open>\<open>r.Header.Get\<close>: empty when absent\<close>
  rq_cookies :: "(string \<times> string) list"
  rq_query :: "(string \<times> string) list"
  rq_body :: "(nat \<times> json) option"
  rq_limit :: "nat option"                  \<comment> \<open>the cap \<open>http.MaxBytesReader\<close> put on the body\<close>
  rq_path_id :: string                      \<comment> \<open>\<open>r.PathValue("id")\<close>\<close>
  cx_request_id :: "string option"
  cx_user_agent :: "string option"
  cx_user_id :: "uuid option"

definition Cookie :: "string \<Rightarrow> request \<Rightarrow> string option" where
  "Cookie name r = map_option snd (find (\<lambda>c. fst c = name) (rq_cookies r))"

definition Query_Get :: "string \<Rightarrow> request \<Rightarrow> string" where
  "Query_Get key r = (case find (\<lambda>q. fst q = key) (rq_query r) of None \<Rightarrow> [] | Some q \<Rightarrow> snd q)"

subsection \<open>\<open>net.SplitHostPort\<close>\<close>

text \<open>The text before and after the last colon.\<close>

fun split_last :: "char \<Rightarrow> string \<Rightarrow> (string \<times> string) option" where
  "split_last c [] = None"
| "split_last c (x # xs) =
     (case split_last c xs of
        Some (pre, post) \<Rightarrow> Some (x # pre, post)
      | None \<Rightarrow> if x = c then Some ([], xs) else None)"

definition SplitHostPort :: "string \<Rightarrow> (string \<times> string) option" where
  "SplitHostPort hp =
     (case split_last CHR '':'' hp of
        None \<Rightarrow> None
      | Some (before, port) \<Rightarrow>
          if take 1 hp = ''['' then
            (let host = takeWhile (\<lambda>c. c \<noteq> CHR '']'') (tl before);
                 rest = dropWhile (\<lambda>c. c \<noteq> CHR '']'') (tl before)
             in if rest = '']'' \<and> CHR ''['' \<notin> set host \<and> CHR ''['' \<notin> set port \<and> CHR '']'' \<notin> set port
                then Some (host, port) else None)
          else if CHR '':'' \<in> set before \<or> {CHR ''['', CHR '']''} \<inter> set hp \<noteq> {} then None
          else Some (before, port))"

definition clientIP :: "request \<Rightarrow> string" where
  "clientIP r =
     (case SplitHostPort (rq_remote r) of None \<Rightarrow> rq_remote r | Some (host, port) \<Rightarrow> host)"

lemma split_last_append:
  "c \<notin> set port \<Longrightarrow> split_last c (host @ c # port) = Some (host, port)"
proof (induction host)
  case Nil
  have "c \<notin> set p \<Longrightarrow> split_last c p = None" for p
    by (induction p) auto
  with Nil show ?case by simp
next
  case (Cons x xs)
  then show ?case by simp
qed

lemma clientIP_host_port:
  assumes "rq_remote r = host @ '':'' @ port"
    and "{CHR '':'', CHR ''['', CHR '']''} \<inter> (set host \<union> set port) = {}"
  shows "clientIP r = host"
proof -
  have "take 1 (host @ CHR '':'' # port) \<noteq> ''[''"
    using assms(2) by (cases host) auto
  with assms show ?thesis
    by (auto simp: clientIP_def SplitHostPort_def split_last_append)
qed

subsection \<open>Responses\<close>

datatype same_site = SameSiteDefault | SameSiteStrict

record cookie =
  ck_name :: string
  ck_value :: string
  ck_path :: string
  ck_max_age :: int
  ck_http_only :: bool
  ck_secure :: bool
  ck_same_site :: same_site

datatype body = BJson json | BText string

record response =
  rs_header :: "string \<rightharpoonup> string"
  rs_cookies :: "cookie list"
  rs_sent :: "(nat \<times> (string \<rightharpoonup> string) \<times> cookie list) option"
  rs_body :: "body list"

definition fresh_response :: response where
  "fresh_response = \<lparr>rs_header = Map.empty, rs_cookies = [], rs_sent = None, rs_body = []\<rparr>"

definition rs_set :: "string \<Rightarrow> string \<Rightarrow> response \<Rightarrow> response" where
  "rs_set k v rs = rs\<lparr>rs_header := (rs_header rs)(k \<mapsto> v)\<rparr>"

definition rs_set_cookie :: "cookie \<Rightarrow> response \<Rightarrow> response" where
  "rs_set_cookie c rs = rs\<lparr>rs_cookies := rs_cookies rs @ [c]\<rparr>"

definition rs_write_header :: "nat \<Rightarrow> response \<Rightarrow> response" where
  "rs_write_header code rs =
     (case rs_sent rs of
        None \<Rightarrow> rs\<lparr>rs_sent := Some (code, rs_header rs, rs_cookies rs)\<rparr>
      | Some _ \<Rightarrow> rs)"

text \<open>A write without a status sends 200 first.\<close>

definition rs_write :: "body \<Rightarrow> response \<Rightarrow> response" where
  "rs_write b rs = (let rs' = rs_write_header 200 rs in rs'\<lparr>rs_body := rs_body rs' @ [b]\<rparr>)"

definition rs_json :: "nat \<Rightarrow> json \<Rightarrow> response \<Rightarrow> response" where
  "rs_json status v rs = rs_write (BJson v) (rs_write_header status
     (rs_set ''Content-Type'' ''application/json; charset=utf-8'' rs))"

text \<open>What the client receives: a handler that wrote nothing sends 200.\<close>

definition rs_status :: "response \<Rightarrow> nat" where
  "rs_status rs = (case rs_sent rs of None \<Rightarrow> 200 | Some (code, h, cs) \<Rightarrow> code)"

definition sent_cookies :: "response \<Rightarrow> cookie list" where
  "sent_cookies rs = (case rs_sent rs of None \<Rightarrow> rs_cookies rs | Some (code, h, cs) \<Rightarrow> cs)"

definition sent_header :: "string \<Rightarrow> response \<Rightarrow> string option" where
  "sent_header k rs = (case rs_sent rs of None \<Rightarrow> rs_header rs k | Some (code, h, cs) \<Rightarrow> h k)"

lemmas response_defs = rs_set_def rs_set_cookie_def rs_write_header_def rs_write_def rs_json_def
  rs_status_def sent_cookies_def sent_header_def Let_def

lemma rs_json_fresh:
  "rs_sent rs = None \<Longrightarrow> rs_status (rs_json code v rs) = code \<and>
     sent_cookies (rs_json code v rs) = rs_cookies rs \<and>
     rs_body (rs_json code v rs) = rs_body rs @ [BJson v]"
  by (simp add: response_defs)

lemma rs_write_header_fresh:
  "rs_sent rs = None \<Longrightarrow> rs_status (rs_write_header code rs) = code \<and>
     sent_cookies (rs_write_header code rs) = rs_cookies rs \<and>
     rs_body (rs_write_header code rs) = rs_body rs"
  by (simp add: response_defs)

end
