(* ===== verification/Json.thy ===== *)
theory Json
  imports Externals
begin

text \<open>
  Decoding of JSON objects into Go structs, as \<open>encoding/json\<close> does it for the field types
  the program uses.  A struct is described by its field names with one setter each.  Keys
  match a field up to case folding, later duplicates win, \<open>null\<close> leaves a plain field
  alone and clears a pointer, a value of the wrong type is an error, and a key that matches
  no field is an error under \<open>DisallowUnknownFields\<close> and ignored otherwise.
\<close>

type_synonym 'r setter = "json \<Rightarrow> 'r \<Rightarrow> 'r option"
type_synonym 'r fields = "(string \<times> 'r setter) list"

definition fold_name :: "lib \<Rightarrow> string \<Rightarrow> string" where
  "fold_name l k = (if ascii k then map ascii_upper k else unicode_fold l k)"

definition find_field :: "lib \<Rightarrow> 'r fields \<Rightarrow> string \<Rightarrow> 'r setter option" where
  "find_field l fs k =
     map_option snd (find (\<lambda>f. fold_name l (fst f) = fold_name l k) fs)"

fun decode_members :: "lib \<Rightarrow> bool \<Rightarrow> 'r fields \<Rightarrow> (string \<times> json) list \<Rightarrow> 'r \<Rightarrow> 'r option" where
  "decode_members l strict fs [] r = Some r"
| "decode_members l strict fs ((k, v) # kvs) r =
     (case find_field l fs k of
        None \<Rightarrow> if strict then None else decode_members l strict fs kvs r
      | Some put \<Rightarrow>
          (case put v r of
             None \<Rightarrow> None
           | Some r' \<Rightarrow> decode_members l strict fs kvs r'))"

definition decode_struct :: "lib \<Rightarrow> bool \<Rightarrow> 'r fields \<Rightarrow> json \<Rightarrow> 'r \<Rightarrow> 'r option" where
  "decode_struct l strict fs j r =
     (case j of
        JNull \<Rightarrow> Some r
      | JObj kvs \<Rightarrow> decode_members l strict fs kvs r
      | _ \<Rightarrow> None)"

subsection \<open>Setters by field type\<close>

definition dec_string :: "(string \<Rightarrow> 'r \<Rightarrow> 'r) \<Rightarrow> 'r setter" where
  "dec_string f v r = (case v of JStr s \<Rightarrow> Some (f s r) | JNull \<Rightarrow> Some r | _ \<Rightarrow> None)"

definition dec_string_ptr :: "(string option \<Rightarrow> 'r \<Rightarrow> 'r) \<Rightarrow> 'r setter" where
  "dec_string_ptr f v r =
     (case v of JStr s \<Rightarrow> Some (f (Some s) r) | JNull \<Rightarrow> Some (f None r) | _ \<Rightarrow> None)"

definition dec_int :: "int \<Rightarrow> int \<Rightarrow> (int \<Rightarrow> 'r \<Rightarrow> 'r) \<Rightarrow> 'r setter" where
  "dec_int lo hi f v r =
     (case v of
        JNum n \<Rightarrow> if lo \<le> n \<and> n \<le> hi then Some (f n r) else None
      | JNull \<Rightarrow> Some r
      | _ \<Rightarrow> None)"

text \<open>Go's \<open>int\<close> on the 64-bit platforms the server is built for.\<close>

abbreviation dec_go_int :: "(int \<Rightarrow> 'r \<Rightarrow> 'r) \<Rightarrow> 'r setter" where
  "dec_go_int \<equiv> dec_int (- (2 ^ 63)) (2 ^ 63 - 1)"

text \<open>A type with its own \<open>UnmarshalJSON\<close>.\<close>

definition dec_custom :: "(json \<Rightarrow> 'a option) \<Rightarrow> ('a \<Rightarrow> 'r \<Rightarrow> 'r) \<Rightarrow> 'r setter" where
  "dec_custom u f v r = (case u v of None \<Rightarrow> None | Some x \<Rightarrow> Some (f x r))"

definition dec_nested ::
  "lib \<Rightarrow> bool \<Rightarrow> 'a fields \<Rightarrow> ('r \<Rightarrow> 'a) \<Rightarrow> ('a \<Rightarrow> 'r \<Rightarrow> 'r) \<Rightarrow> 'r setter" where
  "dec_nested l strict fs get f v r =
     (case decode_struct l strict fs v (get r) of None \<Rightarrow> None | Some x \<Rightarrow> Some (f x r))"

lemmas json_defs = decode_struct_def dec_string_def dec_string_ptr_def dec_int_def
  dec_custom_def dec_nested_def find_field_def fold_name_def

lemma decode_members_unknown:
  "k \<in> fst ` set kvs \<Longrightarrow> find_field l fs k = None \<Longrightarrow> decode_members l True fs kvs r = None"
  by (induction kvs arbitrary: r) (force split: option.splits)+

subsection \<open>\<open>gen.KDFParams\<close>\<close>

record gen_KDFParams =
  kp_iterations :: int
  kp_memory_kib :: int
  kp_parallelism :: int
  kp_type :: string
  kp_version :: int

definition zero_gen_KDFParams :: gen_KDFParams where
  "zero_gen_KDFParams =
     \<lparr>kp_iterations = 0, kp_memory_kib = 0, kp_parallelism = 0, kp_type = [], kp_version = 0\<rparr>"

definition gen_KDFParams_fields :: "gen_KDFParams fields" where
  "gen_KDFParams_fields =
     [(''iterations'', dec_go_int (\<lambda>n p. p\<lparr>kp_iterations := n\<rparr>)),
      (''memory_kib'', dec_go_int (\<lambda>n p. p\<lparr>kp_memory_kib := n\<rparr>)),
      (''parallelism'', dec_go_int (\<lambda>n p. p\<lparr>kp_parallelism := n\<rparr>)),
      (''type'', dec_string (\<lambda>s p. p\<lparr>kp_type := s\<rparr>)),
      (''version'', dec_go_int (\<lambda>n p. p\<lparr>kp_version := n\<rparr>))]"

definition gen_KDFParams_json :: "gen_KDFParams \<Rightarrow> json" where
  "gen_KDFParams_json p =
     JObj [(''iterations'', JNum (kp_iterations p)), (''memory_kib'', JNum (kp_memory_kib p)),
           (''parallelism'', JNum (kp_parallelism p)), (''type'', JStr (kp_type p)),
           (''version'', JNum (kp_version p))]"

definition gen_KDFParams_Unmarshal :: "lib \<Rightarrow> json \<Rightarrow> gen_KDFParams option" where
  "gen_KDFParams_Unmarshal l j = decode_struct l False gen_KDFParams_fields j zero_gen_KDFParams"

definition go_int :: "int \<Rightarrow> bool" where
  "go_int n = (- (2 ^ 63) \<le> n \<and> n \<le> 2 ^ 63 - 1)"

definition gen_KDFParams_ok :: "gen_KDFParams \<Rightarrow> bool" where
  "gen_KDFParams_ok p = (go_int (kp_iterations p) \<and> go_int (kp_memory_kib p) \<and>
     go_int (kp_parallelism p) \<and> go_int (kp_version p))"

lemma ascii_field_names [simp]:
  "ascii ''iterations''" "ascii ''memory_kib''" "ascii ''parallelism''" "ascii ''type''"
  "ascii ''version''"
  by code_simp+

lemma gen_KDFParams_find [simp]:
  "find_field l gen_KDFParams_fields ''iterations'' =
     Some (dec_go_int (\<lambda>n p. p\<lparr>kp_iterations := n\<rparr>))"
  "find_field l gen_KDFParams_fields ''memory_kib'' =
     Some (dec_go_int (\<lambda>n p. p\<lparr>kp_memory_kib := n\<rparr>))"
  "find_field l gen_KDFParams_fields ''parallelism'' =
     Some (dec_go_int (\<lambda>n p. p\<lparr>kp_parallelism := n\<rparr>))"
  "find_field l gen_KDFParams_fields ''type'' = Some (dec_string (\<lambda>s p. p\<lparr>kp_type := s\<rparr>))"
  "find_field l gen_KDFParams_fields ''version'' =
     Some (dec_go_int (\<lambda>n p. p\<lparr>kp_version := n\<rparr>))"
  by (simp_all add: find_field_def fold_name_def gen_KDFParams_fields_def ascii_upper_def)

lemma gen_KDFParams_decode:
  "gen_KDFParams_ok p \<Longrightarrow>
   decode_struct l strict gen_KDFParams_fields (gen_KDFParams_json p) zero_gen_KDFParams = Some p"
  by (simp add: gen_KDFParams_json_def decode_struct_def dec_int_def dec_string_def
      gen_KDFParams_ok_def go_int_def zero_gen_KDFParams_def)

lemma gen_KDFParams_roundtrip:
  "gen_KDFParams_ok p \<Longrightarrow> gen_KDFParams_Unmarshal l (gen_KDFParams_json p) = Some p"
  by (simp add: gen_KDFParams_Unmarshal_def gen_KDFParams_decode)

end
