(* ===== verification/Encoding.thy ===== *)
theory Encoding
  imports Prelude
begin

text \<open>
  The parts of Go's \<open>encoding/hex\<close>, \<open>encoding/base64\<close> and \<open>encoding/base32\<close> that the
  code uses: \<open>hex.EncodeToString\<close>, the padded standard base64 alphabet in both directions
  and the acceptance test of base32.  Base64 decoding follows Go: line breaks are skipped,
  trailing bits are not checked, padding may only end the input.  The lemmas are the length
  and injectivity of hex and the base64 round trip.
\<close>

subsection \<open>Hexadecimal\<close>

definition hex_digits :: string where
  "hex_digits = ''0123456789abcdef''"

definition hex_byte :: "byte \<Rightarrow> string" where
  "hex_byte b = [hex_digits ! (unat b div 16), hex_digits ! (unat b mod 16)]"

definition hex_EncodeToString :: "bytes \<Rightarrow> string" where
  "hex_EncodeToString bs = concat (map hex_byte bs)"

lemma unat_byte_less: "unat (b :: byte) < 256"
  using unsigned_less [of b] by simp

lemma length_hex [simp]: "length (hex_EncodeToString bs) = 2 * length bs"
  by (induction bs) (simp_all add: hex_EncodeToString_def hex_byte_def)

lemma hex_digits_distinct: "distinct hex_digits" "length hex_digits = 16"
  by (simp_all add: hex_digits_def)

lemma hex_byte_inj: "hex_byte a = hex_byte b \<Longrightarrow> a = b"
proof -
  assume "hex_byte a = hex_byte b"
  then have "unat a div 16 = unat b div 16 \<and> unat a mod 16 = unat b mod 16"
    using unat_byte_less [of a] unat_byte_less [of b] hex_digits_distinct
    by (simp add: hex_byte_def nth_eq_iff_index_eq)
  then have "unat a = unat b" by (metis div_mult_mod_eq)
  then show "a = b" by (simp add: unsigned_word_eqI)
qed

lemma hex_inj: "hex_EncodeToString a = hex_EncodeToString b \<Longrightarrow> a = b"
proof (induction a arbitrary: b)
  case Nil
  then show ?case by (cases b) (simp_all add: hex_EncodeToString_def hex_byte_def)
next
  case (Cons x a)
  then obtain y b' where b: "b = y # b'"
    by (cases b) (simp_all add: hex_EncodeToString_def hex_byte_def)
  with Cons.prems have "hex_byte x @ hex_EncodeToString a = hex_byte y @ hex_EncodeToString b'"
    by (simp add: hex_EncodeToString_def)
  then have "hex_byte x = hex_byte y" "hex_EncodeToString a = hex_EncodeToString b'"
    by (simp_all add: hex_byte_def)
  with Cons.IH b show ?case using hex_byte_inj by blast
qed

lemma set_hex_byte: "set (hex_byte b) \<subseteq> set hex_digits"
proof -
  have "unat b div 16 < 16" using unat_byte_less [of b] by simp
  then show ?thesis using hex_digits_distinct(2) by (auto simp: hex_byte_def intro!: nth_mem)
qed

lemma set_hex: "set (hex_EncodeToString bs) \<subseteq> set hex_digits"
  using set_hex_byte by (auto simp: hex_EncodeToString_def)

subsection \<open>Base64, standard alphabet with padding\<close>

definition b64_alphabet :: string where
  "b64_alphabet = ''ABCDEFGHIJKLMNOPQRSTUVWXYZabcdefghijklmnopqrstuvwxyz0123456789+/''"

definition b64_char :: "nat \<Rightarrow> char" where
  "b64_char n = b64_alphabet ! n"

text \<open>The decode map: the position of a character in the alphabet.\<close>

fun index_of :: "char \<Rightarrow> string \<Rightarrow> nat option" where
  "index_of c [] = None"
| "index_of c (x # xs) = (if x = c then Some 0 else map_option Suc (index_of c xs))"

definition b64_val :: "char \<Rightarrow> nat option" where
  "b64_val c = index_of c b64_alphabet"

abbreviation pad :: char where "pad \<equiv> CHR ''=''"

fun base64_encode :: "bytes \<Rightarrow> string" where
  "base64_encode [] = []"
| "base64_encode [a] =
     (let n = unat a * 65536
      in [b64_char (n div 262144), b64_char (n div 4096 mod 64), pad, pad])"
| "base64_encode [a, b] =
     (let n = unat a * 65536 + unat b * 256
      in [b64_char (n div 262144), b64_char (n div 4096 mod 64), b64_char (n div 64 mod 64), pad])"
| "base64_encode (a # b # c # bs) =
     (let n = unat a * 65536 + unat b * 256 + unat c
      in b64_char (n div 262144) # b64_char (n div 4096 mod 64) # b64_char (n div 64 mod 64) #
         b64_char (n mod 64) # base64_encode bs)"

text \<open>One quantum at a time, after \<open>decodeQuantum\<close>; \<open>None\<close> is \<open>CorruptInputError\<close>.\<close>

fun base64_quanta :: "string \<Rightarrow> bytes option" where
  "base64_quanta [] = Some []"
| "base64_quanta (p # q # r # s # rest) =
     (case (b64_val p, b64_val q) of
        (Some vp, Some vq) \<Rightarrow>
          (case b64_val r of
             None \<Rightarrow>
               if r = pad \<and> s = pad \<and> rest = []
               then Some [of_nat ((vp * 262144 + vq * 4096) div 65536)] else None
           | Some vr \<Rightarrow>
               (case b64_val s of
                  None \<Rightarrow>
                    if s = pad \<and> rest = []
                    then (let n = vp * 262144 + vq * 4096 + vr * 64
                          in Some [of_nat (n div 65536), of_nat (n div 256 mod 256)])
                    else None
                | Some vs \<Rightarrow>
                    (let n = vp * 262144 + vq * 4096 + vr * 64 + vs
                     in map_option (\<lambda>bs. of_nat (n div 65536) # of_nat (n div 256 mod 256) #
                                         of_nat (n mod 256) # bs)
                          (base64_quanta rest))))
      | _ \<Rightarrow> None)"
| "base64_quanta _ = None"

definition not_newline :: "char \<Rightarrow> bool" where
  "not_newline c = (c \<noteq> CHR 0x0A \<and> c \<noteq> CHR 0x0D)"

definition base64_decode :: "string \<Rightarrow> bytes option" where
  "base64_decode s = base64_quanta (filter not_newline s)"

lemma b64_tables: "\<forall>n<64. b64_val (b64_char n) = Some n \<and> not_newline (b64_char n)"
proof -
  have "list_all (\<lambda>n. b64_val (b64_char n) = Some n \<and> not_newline (b64_char n)) [0..<64]"
    by code_simp
  then show ?thesis by (simp add: list_all_iff)
qed

lemma b64_val_char [simp]: "n < 64 \<Longrightarrow> b64_val (b64_char n) = Some n"
  using b64_tables by blast

lemma b64_val_pad [simp]: "b64_val pad = None"
  by code_simp

lemma not_newline_char [simp]: "n < 64 \<Longrightarrow> not_newline (b64_char n)"
  using b64_tables by blast

lemma not_newline_pad [simp]: "not_newline pad"
  by (simp add: not_newline_def)

lemma base64_no_newline: "filter not_newline (base64_encode bs) = base64_encode bs"
proof (induction bs rule: base64_encode.induct)
  case 1
  then show ?case by simp
next
  case (2 a)
  then show ?case using unat_byte_less [of a] by (simp add: Let_def)
next
  case (3 a b)
  then show ?case using unat_byte_less [of a] unat_byte_less [of b] by (simp add: Let_def)
next
  case (4 a b c bs)
  then show ?case
    using unat_byte_less [of a] unat_byte_less [of b] unat_byte_less [of c] by (simp add: Let_def)
qed

lemma sextets:
  "n div 262144 * 262144 + n div 4096 mod 64 * 4096 + n div 64 mod 64 * 64 + n mod 64 = (n :: nat)"
proof -
  have "n div 64 div 64 = n div 4096" and "n div 4096 div 64 = n div 262144"
    by (simp_all add: div_mult2_eq [symmetric])
  then have "n div 64 = 64 * (n div 4096) + n div 64 mod 64"
    and "n div 4096 = 64 * (n div 262144) + n div 4096 mod 64"
    and "n = 64 * (n div 64) + n mod 64"
    by (metis mult_div_mod_eq)+
  then show ?thesis by linarith
qed

lemma octets:
  fixes a b c :: nat
  assumes "b < 256" and "c < 256"
  shows "(a * 65536 + b * 256 + c) div 65536 = a"
    and "(a * 65536 + b * 256 + c) div 256 mod 256 = b"
    and "(a * 65536 + b * 256 + c) mod 256 = c"
proof -
  show "(a * 65536 + b * 256 + c) div 65536 = a"
    by (rule div_nat_eqI) (use assms in simp_all)
  have "(a * 65536 + b * 256 + c) div 256 = a * 256 + b"
    by (rule div_nat_eqI) (use assms in simp_all)
  then show "(a * 65536 + b * 256 + c) div 256 mod 256 = b" using assms by simp
  have "a * 65536 + b * 256 + c = c + 256 * (a * 256 + b)" by simp
  then show "(a * 65536 + b * 256 + c) mod 256 = c"
    using assms by (metis mod_mult_self2 mod_less)
qed

lemma quantum_full:
  assumes "n < 16777216"
  shows "base64_quanta (b64_char (n div 262144) # b64_char (n div 4096 mod 64) #
           b64_char (n div 64 mod 64) # b64_char (n mod 64) # rest) =
         map_option (\<lambda>bs. of_nat (n div 65536) # of_nat (n div 256 mod 256) #
                         of_nat (n mod 256) # bs) (base64_quanta rest)"
  using assms by (simp add: sextets)

lemma quantum_two:
  assumes "n < 16777216" and "n mod 64 = 0"
  shows "base64_quanta [b64_char (n div 262144), b64_char (n div 4096 mod 64),
           b64_char (n div 64 mod 64), pad] =
         Some [of_nat (n div 65536), of_nat (n div 256 mod 256)]"
  using assms sextets [of n] by simp

lemma quantum_one:
  assumes "n < 16777216" and "n mod 4096 = 0"
  shows "base64_quanta [b64_char (n div 262144), b64_char (n div 4096 mod 64), pad, pad] =
         Some [of_nat (n div 65536)]"
proof -
  obtain k where "n = 4096 * k" using assms(2) by auto
  then have "n mod 64 = 0" and "n div 64 mod 64 = 0" by simp_all
  then show ?thesis using assms sextets [of n] by simp
qed

lemma base64_quanta_encode: "base64_quanta (base64_encode bs) = Some bs"
proof (induction bs rule: base64_encode.induct)
  case 1
  then show ?case by simp
next
  case (2 a)
  have "unat a * 65536 < 16777216" using unat_byte_less [of a] by simp
  then show ?case
    using quantum_one [of "unat a * 65536"] by (simp only: base64_encode.simps Let_def) simp
next
  case (3 a b)
  have n: "unat a * 65536 + unat b * 256 < 16777216"
    using unat_byte_less [of a] unat_byte_less [of b] by simp
  have m: "(unat a * 65536 + unat b * 256) mod 64 = 0" by simp
  show ?case
    using octets [OF unat_byte_less [of b], of 0 "unat a"]
    by (simp only: base64_encode.simps Let_def quantum_two [OF n m]) simp
next
  case (4 a b c bs)
  have n: "unat a * 65536 + unat b * 256 + unat c < 16777216"
    using unat_byte_less [of a] unat_byte_less [of b] unat_byte_less [of c] by simp
  show ?case
    by (simp only: base64_encode.simps Let_def quantum_full [OF n] 4
        octets [OF unat_byte_less [of b] unat_byte_less [of c]]) simp
qed

lemma base64_roundtrip: "base64_decode (base64_encode bs) = Some bs"
  by (simp add: base64_decode_def base64_no_newline base64_quanta_encode)

lemma base64_encode_Nil_iff [simp]: "base64_encode bs = [] \<longleftrightarrow> bs = []"
  by (cases bs rule: base64_encode.cases) (simp_all add: Let_def)

end
