(* ===== verification/Crypto.thy ===== *)
theory Crypto
  imports Json Encoding
begin

text \<open>
  \<open>internal/crypto\<close>: key derivation (\<open>crypto.go\<close>, \<open>keys.go\<close>), the AEAD blob format
  (\<open>aead.go\<close>), item and TOTP-secret encryption (\<open>item.go\<close>, \<open>totp_wrap.go\<close>) and memory
  hygiene (\<open>hygiene.go\<close>).  Primitives are fields of \<open>lib\<close>; what the package itself decides
  (checks, their order, blob layout, labels, parameters, serialisation) is written out.
  Functions that draw randomness are programs over the state \<open>rng\<close>.
\<close>

subsection \<open>KDF parameters\<close>

definition Argon2Version13 :: u32 where "Argon2Version13 = 0x13"
definition MasterKeySizeBytes :: u32 where "MasterKeySizeBytes = 32"
definition StretchedKeySizeBytes :: nat where "StretchedKeySizeBytes = 32"
definition VaultKeySizeBytes :: nat where "VaultKeySizeBytes = 32"
definition AuthHashSizeBytes :: u32 where "AuthHashSizeBytes = 32"
definition ServerSaltSizeBytes :: nat where "ServerSaltSizeBytes = 16"
definition NonceSizeBytes :: nat where "NonceSizeBytes = 24"
definition hkdfInfoEnc :: string where "hkdfInfoEnc = ''secure-vault:v1:enc''"
definition hkdfInfoMAC :: string where "hkdfInfoMAC = ''secure-vault:v1:mac''"

record KDFParams =
  kdf_Type :: string
  kdf_Version :: u32
  kdf_MemoryKiB :: u32
  kdf_Iterations :: u32
  kdf_Parallelism :: u8

definition DefaultKDFParams :: KDFParams where
  "DefaultKDFParams = \<lparr>kdf_Type = ''argon2id'', kdf_Version = Argon2Version13,
     kdf_MemoryKiB = 64 * 1024, kdf_Iterations = 3, kdf_Parallelism = 1\<rparr>"

definition DefaultServerAuthParams :: KDFParams where
  "DefaultServerAuthParams = \<lparr>kdf_Type = ''argon2id'', kdf_Version = Argon2Version13,
     kdf_MemoryKiB = 19 * 1024, kdf_Iterations = 2, kdf_Parallelism = 1\<rparr>"

definition kdf_invalid :: err where
  "kdf_invalid =
     ErrText ''invalid KDF params: memory, iterations, and parallelism must be > 0''"

definition KDFParams_validate :: "KDFParams \<Rightarrow> err option" where
  "KDFParams_validate p =
     (if kdf_MemoryKiB p = 0 \<or> kdf_Iterations p = 0 \<or> kdf_Parallelism p = 0
      then Some kdf_invalid else None)"

definition DeriveMasterKey :: "lib \<Rightarrow> bytes \<Rightarrow> bytes \<Rightarrow> KDFParams \<Rightarrow> err + bytes" where
  "DeriveMasterKey l password salt params =
     (if length password = 0 then Inl ErrEmptyPassword
      else if length salt = 0 then Inl ErrEmptySalt
      else case KDFParams_validate params of
             Some e \<Rightarrow> Inl e
           | None \<Rightarrow> Inr (argon2_IDKey l password salt (kdf_Iterations params)
               (kdf_MemoryKiB params) (kdf_Parallelism params) MasterKeySizeBytes))"

definition hkdfExpand :: "lib \<Rightarrow> bytes \<Rightarrow> string \<Rightarrow> nat \<Rightarrow> err + bytes" where
  "hkdfExpand l secret info sz =
     (case hkdf_read l secret (to_bytes info) sz of
        None \<Rightarrow> Inl (Wrap ''hkdf expand failed'' (ErrText ''EOF''))
      | Some out \<Rightarrow> Inr out)"

definition StretchMasterKey :: "lib \<Rightarrow> bytes \<Rightarrow> err + bytes \<times> bytes" where
  "StretchMasterKey l masterKey =
     (if length masterKey = 0 then Inl ErrEmptyMasterKey
      else case hkdfExpand l masterKey hkdfInfoEnc StretchedKeySizeBytes of
             Inl e \<Rightarrow> Inl (Wrap ''derive enc key'' e)
           | Inr encKey \<Rightarrow>
               (case hkdfExpand l masterKey hkdfInfoMAC StretchedKeySizeBytes of
                  Inl e \<Rightarrow> Inl (Wrap ''derive mac key'' e)
                | Inr macKey \<Rightarrow> Inr (encKey, macKey)))"

definition DeriveAuthHash :: "lib \<Rightarrow> bytes \<Rightarrow> bytes \<Rightarrow> KDFParams \<Rightarrow> err + bytes" where
  "DeriveAuthHash l masterKey password params =
     (if length masterKey = 0 then Inl ErrEmptyMasterKey
      else if length password = 0 then Inl ErrEmptyPassword
      else case KDFParams_validate params of
             Some e \<Rightarrow> Inl e
           | None \<Rightarrow> Inr (argon2_IDKey l masterKey password (kdf_Iterations params)
               (kdf_MemoryKiB params) (kdf_Parallelism params) AuthHashSizeBytes))"

definition DeriveServerAuthHash :: "lib \<Rightarrow> bytes \<Rightarrow> bytes \<Rightarrow> KDFParams \<Rightarrow> err + bytes" where
  "DeriveServerAuthHash l clientAuthHash salt params =
     (if length clientAuthHash = 0 then Inl ErrEmptyAuthHash
      else if length salt = 0 then Inl ErrEmptySalt
      else case KDFParams_validate params of
             Some e \<Rightarrow> Inl e
           | None \<Rightarrow> Inr (argon2_IDKey l clientAuthHash salt (kdf_Iterations params)
               (kdf_MemoryKiB params) (kdf_Parallelism params) AuthHashSizeBytes))"

lemma DeriveServerAuthHash_default:
  "h \<noteq> [] \<Longrightarrow> s \<noteq> [] \<Longrightarrow> DeriveServerAuthHash l h s DefaultServerAuthParams =
     Inr (argon2_IDKey l h s 2 19456 1 32)"
  by (simp add: DeriveServerAuthHash_def KDFParams_validate_def DefaultServerAuthParams_def
      AuthHashSizeBytes_def)

subsection \<open>Random keys and salts\<close>

definition randomBytes :: "nat \<Rightarrow> (rng, err + bytes) state" where
  "randomBytes n = do {
     r \<leftarrow> rand_Read n;
     State_Monad.return (map_err (Wrap ''read random bytes'') r)
   }"

definition NewVaultKey :: "(rng, err + bytes) state" where
  "NewVaultKey = randomBytes VaultKeySizeBytes"

definition NewServerSalt :: "(rng, err + bytes) state" where
  "NewServerSalt = randomBytes ServerSaltSizeBytes"

lemma randomBytes_length: "run_state (randomBytes n) g = (Inr bs, g') \<Longrightarrow> length bs = n"
  by (auto simp: randomBytes_def map_err_eq_Inr split: prod.splits dest: rand_Read_Inr)

definition NormalizeEmail :: "lib \<Rightarrow> string \<Rightarrow> string" where
  "NormalizeEmail l email = ToLower l (TrimSpace l email)"

lemma NormalizeEmail_ascii:
  "ascii e \<Longrightarrow> NormalizeEmail l e = map ascii_lower (ascii_trim e)"
  by (simp add: NormalizeEmail_def TrimSpace_ascii ToLower_ascii ascii_ascii_trim)

lemma NormalizeEmail_idem:
  "ascii e \<Longrightarrow> NormalizeEmail l (NormalizeEmail l e) = NormalizeEmail l e"
  by (simp add: NormalizeEmail_ascii ascii_ascii_trim ascii_trim_map comp_def)

subsection \<open>The AEAD blob\<close>

definition newAEAD :: "lib \<Rightarrow> bytes \<Rightarrow> err + unit" where
  "newAEAD l key =
     (if length key \<noteq> 32 then Inl ErrInvalidKeySize
      else if \<not> chacha_NewX l key then Inl ErrInvalidKeySize
      else Inr ())"

definition Seal :: "lib \<Rightarrow> bytes \<Rightarrow> bytes \<Rightarrow> bytes \<Rightarrow> (rng, err + bytes) state" where
  "Seal l key plaintext aad =
     (case newAEAD l key of
        Inl e \<Rightarrow> State_Monad.return (Inl e)
      | Inr _ \<Rightarrow> do {
          r \<leftarrow> rand_Read NonceSizeBytes;
          State_Monad.return (case r of
              Inl e \<Rightarrow> Inl (Wrap ''generate nonce'' e)
            | Inr nonce \<Rightarrow> Inr (nonce @ xchacha_seal l key nonce plaintext aad))
        })"

definition Open :: "lib \<Rightarrow> bytes \<Rightarrow> bytes \<Rightarrow> bytes \<Rightarrow> err + bytes" where
  "Open l key blob aad =
     (case newAEAD l key of
        Inl e \<Rightarrow> Inl e
      | Inr _ \<Rightarrow>
          if length blob < NonceSizeBytes then Inl ErrCiphertextTooShort
          else case xchacha_open l key (take NonceSizeBytes blob) (drop NonceSizeBytes blob) aad of
                 None \<Rightarrow> Inl ErrOpen
               | Some plaintext \<Rightarrow> Inr plaintext)"

definition WrapKey :: "lib \<Rightarrow> bytes \<Rightarrow> bytes \<Rightarrow> bytes \<Rightarrow> (rng, err + bytes) state" where
  "WrapKey l wrappingKey vaultKey aad = Seal l wrappingKey vaultKey aad"

definition UnwrapKey :: "lib \<Rightarrow> bytes \<Rightarrow> bytes \<Rightarrow> bytes \<Rightarrow> err + bytes" where
  "UnwrapKey l wrappingKey protectedKey aad = Open l wrappingKey protectedKey aad"

subsection \<open>Items and TOTP secrets\<close>

record Item =
  it_Name :: string
  it_Username :: string
  it_Password :: string
  it_URL :: string
  it_Notes :: string
  it_TOTPSeed :: string

definition zero_Item :: Item where
  "zero_Item = \<lparr>it_Name = [], it_Username = [], it_Password = [], it_URL = [], it_Notes = [],
     it_TOTPSeed = []\<rparr>"

definition Item_json :: "Item \<Rightarrow> json" where
  "Item_json i = JObj [(''name'', JStr (it_Name i)), (''username'', JStr (it_Username i)),
     (''password'', JStr (it_Password i)), (''url'', JStr (it_URL i)),
     (''notes'', JStr (it_Notes i)), (''totp_seed'', JStr (it_TOTPSeed i))]"

definition Item_fields :: "Item fields" where
  "Item_fields =
     [(''name'', dec_string (\<lambda>s i. i\<lparr>it_Name := s\<rparr>)),
      (''username'', dec_string (\<lambda>s i. i\<lparr>it_Username := s\<rparr>)),
      (''password'', dec_string (\<lambda>s i. i\<lparr>it_Password := s\<rparr>)),
      (''url'', dec_string (\<lambda>s i. i\<lparr>it_URL := s\<rparr>)),
      (''notes'', dec_string (\<lambda>s i. i\<lparr>it_Notes := s\<rparr>)),
      (''totp_seed'', dec_string (\<lambda>s i. i\<lparr>it_TOTPSeed := s\<rparr>))]"

definition Item_Marshal :: "lib \<Rightarrow> Item \<Rightarrow> bytes" where
  "Item_Marshal l i = json_text l (Item_json i)"

definition Item_Unmarshal :: "lib \<Rightarrow> bytes \<Rightarrow> err + Item" where
  "Item_Unmarshal l b =
     (case json_parse l b of
        None \<Rightarrow> Inl (ErrText ''invalid JSON'')
      | Some j \<Rightarrow> (case decode_struct l False Item_fields j zero_Item of
                    None \<Rightarrow> Inl (ErrText ''cannot unmarshal'')
                  | Some i \<Rightarrow> Inr i))"

definition EncryptItem ::
  "lib \<Rightarrow> bytes \<Rightarrow> Item option \<Rightarrow> bytes \<Rightarrow> (rng, err + bytes) state" where
  "EncryptItem l vaultKey item aad =
     (case item of
        None \<Rightarrow> State_Monad.return (Inl (ErrText ''item must not be nil''))
      | Some i \<Rightarrow> Seal l vaultKey (Item_Marshal l i) aad)"

definition DecryptItem :: "lib \<Rightarrow> bytes \<Rightarrow> bytes \<Rightarrow> bytes \<Rightarrow> err + Item" where
  "DecryptItem l vaultKey blob aad =
     (case Open l vaultKey blob aad of
        Inl e \<Rightarrow> Inl e
      | Inr plaintext \<Rightarrow> map_err (Wrap ''unmarshal item'') (Item_Unmarshal l plaintext))"

definition totp_aad :: bytes where
  "totp_aad = to_bytes ''totp-secret-v1''"

definition WrapTOTPSecret :: "lib \<Rightarrow> bytes \<Rightarrow> string \<Rightarrow> (rng, err + bytes) state" where
  "WrapTOTPSecret l vaultKey secret = Seal l vaultKey (to_bytes secret) totp_aad"

definition UnwrapTOTPSecret :: "lib \<Rightarrow> bytes \<Rightarrow> bytes \<Rightarrow> err + string" where
  "UnwrapTOTPSecret l vaultKey wrapped =
     (case Open l vaultKey wrapped totp_aad of
        Inl e \<Rightarrow> Inl e
      | Inr plain \<Rightarrow> Inr (of_bytes plain))"

subsection \<open>Memory hygiene and constant-time comparison\<close>

text \<open>\<open>for i := range b { b[i] = 0 }\<close>\<close>

fun Zero_loop :: "nat \<Rightarrow> bytes \<Rightarrow> bytes" where
  "Zero_loop 0 b = b"
| "Zero_loop (Suc n) b = Zero_loop n (b[length b - Suc n := 0])"

definition Zero :: "bytes \<Rightarrow> bytes" where
  "Zero b = Zero_loop (length b) b"

text \<open>\<open>subtle.ConstantTimeCompare\<close>: the differences of all byte pairs are accumulated.\<close>

definition ConstantTimeCompare :: "bytes \<Rightarrow> bytes \<Rightarrow> int" where
  "ConstantTimeCompare x y =
     (if length x \<noteq> length y then 0
      else if foldl (\<lambda>v (a, b). or v (xor a b)) (0 :: byte) (zip x y) = 0 then 1 else 0)"

definition ConstantTimeEqual :: "bytes \<Rightarrow> bytes \<Rightarrow> bool" where
  "ConstantTimeEqual a b = (ConstantTimeCompare a b = 1)"

lemma or_eq_0: "or a b = (0 :: byte) \<longleftrightarrow> a = 0 \<and> b = 0"
  by (auto simp: bit_eq_iff bit_simps)

lemma xor_eq_0: "xor a b = (0 :: byte) \<longleftrightarrow> a = b"
  by (auto simp: bit_eq_iff bit_simps)

lemma ct_fold:
  "length x = length y \<Longrightarrow>
   foldl (\<lambda>v (a, b). or v (xor a b)) (v :: byte) (zip x y) = 0 \<longleftrightarrow> v = 0 \<and> x = y"
  by (induction x y arbitrary: v rule: list_induct2) (auto simp: or_eq_0 xor_eq_0)

lemma ConstantTimeCompare_eq: "ConstantTimeCompare x y = (if x = y then 1 else 0)"
  by (auto simp: ConstantTimeCompare_def ct_fold)

lemma Zero_loop_eq: "n \<le> length b \<Longrightarrow> Zero_loop n b = take (length b - n) b @ replicate n 0"
proof (induction n arbitrary: b)
  case 0
  then show ?case by simp
next
  case (Suc n)
  let ?i = "length b - Suc n"
  have "take (length b - n) (b[?i := 0]) = take ?i b @ [0]"
    using Suc.prems by (simp add: Suc_diff_Suc [symmetric] take_Suc_conv_app_nth)
  then show ?case
    using Suc.IH [of "b[?i := 0]"] Suc.prems by (simp add: replicate_append_same)
qed

lemma Zero_eq: "Zero b = replicate (length b) 0"
  by (simp add: Zero_def Zero_loop_eq)

subsection \<open>Sealing as an interface\<close>

text \<open>
  \<open>sealer\<close> is what \<open>Seal\<close> and \<open>Open\<close> promise to the rest of the package: under good
  externals, opening gives back what was sealed, and a blob opens only in one way.
  \<open>sealed_codec\<close> is a client that seals the encoding of a value; its round trip is proved
  once and used for wrapped keys, items and TOTP secrets.
\<close>

locale sealer =
  fixes good :: "lib \<Rightarrow> bool"
    and seal_op :: "lib \<Rightarrow> bytes \<Rightarrow> bytes \<Rightarrow> bytes \<Rightarrow> (rng, err + bytes) state"
    and open_op :: "lib \<Rightarrow> bytes \<Rightarrow> bytes \<Rightarrow> bytes \<Rightarrow> err + bytes"
  assumes open_seal: "good l \<Longrightarrow> run_state (seal_op l k p a) g = (Inr c, g') \<Longrightarrow>
      open_op l k c a = Inr p"
    and open_determined: "good l \<Longrightarrow> open_op l k c a = Inr p \<Longrightarrow> open_op l k c' a = Inr p \<Longrightarrow>
      take NonceSizeBytes c = take NonceSizeBytes c' \<Longrightarrow> c = c'"

locale sealed_codec = sealer +
  fixes enc :: "lib \<Rightarrow> 'x \<Rightarrow> bytes"
    and dec :: "lib \<Rightarrow> bytes \<Rightarrow> err + 'x"
    and encodable :: "lib \<Rightarrow> 'x \<Rightarrow> bool"
    and bound_aad :: "bytes \<Rightarrow> bytes"
    and put_op :: "lib \<Rightarrow> bytes \<Rightarrow> 'x \<Rightarrow> bytes \<Rightarrow> (rng, err + bytes) state"
    and get_op :: "lib \<Rightarrow> bytes \<Rightarrow> bytes \<Rightarrow> bytes \<Rightarrow> err + 'x"
  assumes dec_enc: "encodable l x \<Longrightarrow> dec l (enc l x) = Inr x"
    and put_seals: "put_op l k x a = seal_op l k (enc l x) (bound_aad a)"
    and get_opens: "get_op l k c a =
      (case open_op l k c (bound_aad a) of Inl e \<Rightarrow> Inl e | Inr p \<Rightarrow> dec l p)"
begin

lemma get_put:
  assumes "good l" and "encodable l x" and "run_state (put_op l k x a) g = (Inr c, g')"
  shows "get_op l k c a = Inr x"
  using open_seal [OF assms(1)] assms(2,3) by (simp add: put_seals get_opens dec_enc)

lemma get_authentic:
  assumes "good l" and "get_op l k c a = Inr x"
  shows "\<exists>p. open_op l k c (bound_aad a) = Inr p \<and> dec l p = Inr x"
  using assms(2) by (auto simp: get_opens split: sum.splits)

end

lemma newAEAD_ok: "aead_ok l \<Longrightarrow> newAEAD l k = (if length k = 32 then Inr () else Inl ErrInvalidKeySize)"
  using aead_okD(1) [of l k "replicate 24 0"] by (simp add: newAEAD_def)

lemma Open_Inr_iff:
  assumes "aead_ok l"
  shows "Open l key blob aad = Inr p \<longleftrightarrow>
     length key = 32 \<and> 24 \<le> length blob \<and>
     drop 24 blob = xchacha_seal l key (take 24 blob) p aad"
  using aead_okD(3) [OF assms, of key "take 24 blob" "drop 24 blob" aad p]
  by (auto simp: Open_def newAEAD_ok [OF assms] NonceSizeBytes_def split: option.splits)

lemma Seal_run:
  assumes "aead_ok l"
  shows "run_state (Seal l key p aad) g =
     (if length key \<noteq> 32 then (Inl ErrInvalidKeySize, g)
      else if rng_fail g 0
      then (Inl (Wrap ''generate nonce'' ErrRand), g\<lparr>rng_fail := (\<lambda>i. rng_fail g (Suc i))\<rparr>)
      else (let nonce = map (rng_bytes g) [0..<24]
            in (Inr (nonce @ xchacha_seal l key nonce p aad),
                g\<lparr>rng_fail := (\<lambda>i. rng_fail g (Suc i)),
                  rng_bytes := (\<lambda>i. rng_bytes g (i + 24))\<rparr>)))"
  by (simp add: Seal_def newAEAD_ok [OF assms] rand_Read_run NonceSizeBytes_def Let_def)

lemma Open_Seal:
  assumes "aead_ok l" and "run_state (Seal l k p a) g = (Inr c, g')"
  shows "Open l k c a = Inr p"
  using assms(2)
  by (auto simp: Seal_run [OF assms(1)] Open_Inr_iff [OF assms(1)] Let_def split: if_splits)

interpretation blob: sealer aead_ok Seal Open
proof
  fix l k p a g c g'
  assume "aead_ok l" "run_state (Seal l k p a) g = (Inr c, g')"
  then show "Open l k c a = Inr p" by (rule Open_Seal)
next
  fix l k c a p c'
  assume l: "aead_ok l" and "Open l k c a = Inr p" "Open l k c' a = Inr p"
    and n: "take NonceSizeBytes c = take NonceSizeBytes c'"
  then have "drop 24 c = drop 24 c'" by (simp add: Open_Inr_iff [OF l] NonceSizeBytes_def)
  with n show "c = c'" by (metis NonceSizeBytes_def append_take_drop_id)
qed

interpretation keyc: sealed_codec aead_ok Seal Open "\<lambda>l x. x" "\<lambda>l p. Inr p" "\<lambda>l x. True" "\<lambda>a. a"
    WrapKey UnwrapKey
  by unfold_locales (auto simp: WrapKey_def UnwrapKey_def split: sum.split)

definition item_encodable :: "lib \<Rightarrow> Item \<Rightarrow> bool" where
  "item_encodable l i = json_ok l (Item_json i)"

lemma ascii_item_names [simp]:
  "ascii ''name''" "ascii ''username''" "ascii ''password''" "ascii ''url''" "ascii ''notes''"
  "ascii ''totp_seed''"
  by code_simp+

lemma Item_find [simp]:
  "find_field l Item_fields ''name'' = Some (dec_string (\<lambda>s i. i\<lparr>it_Name := s\<rparr>))"
  "find_field l Item_fields ''username'' = Some (dec_string (\<lambda>s i. i\<lparr>it_Username := s\<rparr>))"
  "find_field l Item_fields ''password'' = Some (dec_string (\<lambda>s i. i\<lparr>it_Password := s\<rparr>))"
  "find_field l Item_fields ''url'' = Some (dec_string (\<lambda>s i. i\<lparr>it_URL := s\<rparr>))"
  "find_field l Item_fields ''notes'' = Some (dec_string (\<lambda>s i. i\<lparr>it_Notes := s\<rparr>))"
  "find_field l Item_fields ''totp_seed'' = Some (dec_string (\<lambda>s i. i\<lparr>it_TOTPSeed := s\<rparr>))"
  by (simp_all add: find_field_def fold_name_def Item_fields_def ascii_upper_def)

lemma Item_unmarshal_marshal:
  "item_encodable l i \<Longrightarrow> Item_Unmarshal l (Item_Marshal l i) = Inr i"
  by (simp add: item_encodable_def json_ok_def Item_Unmarshal_def Item_Marshal_def)
     (simp add: Item_json_def decode_struct_def dec_string_def zero_Item_def)

interpretation itemc: sealed_codec aead_ok Seal Open Item_Marshal
    "\<lambda>l p. map_err (Wrap ''unmarshal item'') (Item_Unmarshal l p)" item_encodable "\<lambda>a. a"
    "\<lambda>l k i a. EncryptItem l k (Some i) a" DecryptItem
  by unfold_locales
     (auto simp: EncryptItem_def DecryptItem_def Item_unmarshal_marshal split: sum.split)

interpretation totpc: sealed_codec aead_ok Seal Open "\<lambda>l s. to_bytes s" "\<lambda>l p. Inr (of_bytes p)"
    "\<lambda>l s. True" "\<lambda>a. totp_aad" "\<lambda>l k s a. WrapTOTPSecret l k s" "\<lambda>l k w a. UnwrapTOTPSecret l k w"
  by unfold_locales (auto simp: WrapTOTPSecret_def UnwrapTOTPSecret_def split: sum.split)

subsection \<open>Properties\<close>

text \<open>
  C36: with a 32-byte key and working randomness, \<open>Seal\<close> succeeds; its blob is the fresh
  24-byte nonce, then ciphertext and tag, 40 bytes longer than the plaintext, and \<open>Open\<close>
  under the same key and additional data gives the plaintext back.
\<close>

theorem seal_then_open:
  assumes "aead_ok l" and "length key = 32" and "\<not> rng_fail g 0"
  shows "\<exists>blob g'. run_state (Seal l key plaintext aad) g = (Inr blob, g') \<and>
     take 24 blob = map (rng_bytes g) [0..<24] \<and>
     length blob = 24 + length plaintext + 16 \<and>
     Open l key blob aad = Inr plaintext"
proof -
  let ?n = "map (rng_bytes g) [0..<24]"
  let ?c = "?n @ xchacha_seal l key ?n plaintext aad"
  have "length (xchacha_seal l key ?n plaintext aad) = length plaintext + 16"
    using aead_okD(2) [OF assms(1,2), of ?n] by simp
  moreover have "Open l key ?c aad = Inr plaintext"
    using assms(2) by (simp add: Open_Inr_iff [OF assms(1)])
  ultimately show ?thesis
    using assms(2,3) by (simp add: Seal_run [OF assms(1)] Let_def)
qed

theorem seal_then_open_witness:
  "\<exists>blob g'. run_state (Seal sample_lib (replicate 32 7) [1, 2] []) sample_rng = (Inr blob, g') \<and>
     take 24 blob = map (rng_bytes sample_rng) [0..<24] \<and> length blob = 24 + length [1, 2 :: byte] + 16 \<and>
     Open sample_lib (replicate 32 7) blob [] = Inr [1, 2]"
  by (rule seal_then_open) (simp_all add: aead_ok_sample sample_rng_def)

text \<open>
  What \<open>Open\<close> accepts and how it fails.  It succeeds with \<open>p\<close> exactly on a nonce followed
  by the AEAD sealing of \<open>p\<close> under that nonce; so a blob changed after its nonce never opens to
  the same plaintext.  A failure is the key size, the blob's length or the one opaque
  authentication error, the first two exactly when those sizes are wrong.
\<close>

theorem open_accepts_exactly_sealings:
  assumes "aead_ok l"
  shows "(Open l key blob aad = Inr p \<longleftrightarrow> length key = 32 \<and> 24 \<le> length blob \<and>
        blob = take 24 blob @ xchacha_seal l key (take 24 blob) p aad) \<and>
     (Open l key blob aad = Inr p \<and> take 24 blob' = take 24 blob \<and> blob' \<noteq> blob \<longrightarrow>
        Open l key blob' aad \<noteq> Inr p) \<and>
     (Open l key blob aad = Inl ErrInvalidKeySize \<longleftrightarrow> length key \<noteq> 32) \<and>
     (Open l key blob aad = Inl ErrCiphertextTooShort \<longleftrightarrow> length key = 32 \<and> length blob < 24) \<and>
     (Open l key blob aad = Inl e \<longrightarrow> e \<in> {ErrInvalidKeySize, ErrCiphertextTooShort, ErrOpen})"
proof (intro conjI)
  show "Open l key blob aad = Inr p \<longleftrightarrow> length key = 32 \<and> 24 \<le> length blob \<and>
        blob = take 24 blob @ xchacha_seal l key (take 24 blob) p aad"
    unfolding Open_Inr_iff [OF assms] by (metis append_take_drop_id same_append_eq)
  show "Open l key blob aad = Inr p \<and> take 24 blob' = take 24 blob \<and> blob' \<noteq> blob \<longrightarrow>
        Open l key blob' aad \<noteq> Inr p"
    using blob.open_determined [OF assms] by (metis NonceSizeBytes_def)
qed (auto simp: Open_def newAEAD_ok [OF assms] NonceSizeBytes_def split: option.splits)

theorem open_accepts_exactly_sealings_witness:
  "Open sample_lib (replicate 32 7) [1, 2, 3] [] = Inl ErrCiphertextTooShort"
  using open_accepts_exactly_sealings [OF aead_ok_sample, of "replicate 32 7" "[1, 2, 3]" "[]"]
  by simp

text \<open>
  What a client encrypts it can decrypt.  A wrapped vault key, an item and a TOTP secret
  each come back from the blob their encryption produced, under the same key and context;
  an item needs its JSON form to survive printing and parsing.
\<close>

theorem client_secrets_roundtrip:
  assumes "aead_ok l" and "item_encodable l i"
  shows "(run_state (WrapKey l kek vaultKey aad) g = (Inr wrapped, g1) \<longrightarrow>
       UnwrapKey l kek wrapped aad = Inr vaultKey) \<and>
     (run_state (EncryptItem l vaultKey (Some i) aad) g = (Inr c, g2) \<longrightarrow>
       DecryptItem l vaultKey c aad = Inr i) \<and>
     (run_state (WrapTOTPSecret l vaultKey secret) g = (Inr w, g3) \<longrightarrow>
       UnwrapTOTPSecret l vaultKey w = Inr secret)"
  using keyc.get_put [OF assms(1) TrueI, where x = vaultKey and k = kek and a = aad]
    itemc.get_put [OF assms, where k = vaultKey and a = aad]
    totpc.get_put [OF assms(1) TrueI, where x = secret and k = vaultKey]
  by blast

theorem client_secrets_roundtrip_witness:
  "UnwrapKey (sample_lib\<lparr>json_parse := \<lambda>_. Some (Item_json zero_Item)\<rparr>) (replicate 32 1)
     (map of_nat [0..<24] @ replicate 32 9 @ replicate 16 0) [] = Inr (replicate 32 9)"
proof -
  let ?l = "sample_lib\<lparr>json_parse := \<lambda>_. Some (Item_json zero_Item)\<rparr>"
  have l: "aead_ok ?l" using aead_ok_sample by simp
  have i: "item_encodable ?l zero_Item" by (simp add: item_encodable_def json_ok_def)
  have "run_state (WrapKey ?l (replicate 32 1) (replicate 32 9) []) sample_rng =
    (Inr (map of_nat [0..<24] @ replicate 32 9 @ replicate 16 0),
     snd (run_state (WrapKey ?l (replicate 32 1) (replicate 32 9) []) sample_rng))"
    by (simp add: WrapKey_def Seal_run [OF l] Let_def sample_rng_def) (simp add: sample_lib_def)
  then show ?thesis
    using client_secrets_roundtrip [OF l i] by blast
qed

text \<open>
  Master-password rotation needs no re-encryption: the vault key unwrapped from a
  re-wrapping under any new key still decrypts an item encrypted before the rotation.
\<close>

theorem rewrap_keeps_items_readable:
  assumes "aead_ok l" and "item_encodable l i"
    and "run_state (EncryptItem l vaultKey (Some i) aad) g = (Inr c, g1)"
    and "run_state (WrapKey l newKek vaultKey kaad) g1 = (Inr wrapped, g2)"
    and "UnwrapKey l newKek wrapped kaad = Inr vaultKey'"
  shows "DecryptItem l vaultKey' c aad = Inr i"
proof -
  have "vaultKey' = vaultKey"
    using keyc.get_put [OF assms(1) TrueI assms(4)] assms(5) by simp
  then show ?thesis using itemc.get_put [OF assms(1,2,3)] by simp
qed

theorem rewrap_keeps_items_readable_witness:
  "\<exists>l i c. DecryptItem l (replicate 32 9) c [] = Inr i"
proof -
  let ?l = "sample_lib\<lparr>json_parse := \<lambda>_. Some (Item_json zero_Item)\<rparr>"
  have l: "aead_ok ?l" using aead_ok_sample by simp
  have i: "item_encodable ?l zero_Item" by (simp add: item_encodable_def json_ok_def)
  obtain c g1 where c: "run_state (EncryptItem ?l (replicate 32 9) (Some zero_Item) []) sample_rng
      = (Inr c, g1)" and g1: "\<not> rng_fail g1 0"
    by (auto simp: EncryptItem_def Seal_run [OF l] Let_def sample_rng_def)
  obtain w g2 where w: "run_state (WrapKey ?l (replicate 32 1) (replicate 32 9) []) g1 = (Inr w, g2)"
    using g1 by (auto simp: WrapKey_def Seal_run [OF l] Let_def)
  have "UnwrapKey ?l (replicate 32 1) w [] = Inr (replicate 32 9)"
    using keyc.get_put [OF l TrueI w] .
  from rewrap_keeps_items_readable [OF l i c w this] show ?thesis by blast
qed

text \<open>
  The constant-time comparison of secrets, which accumulates the differences of all byte
  pairs, decides equality; and zeroing a buffer overwrites every byte of it.
\<close>

theorem constant_time_equal_and_zero:
  "ConstantTimeEqual a b = (a = b) \<and> Zero b = replicate (length b) 0"
  by (simp add: ConstantTimeEqual_def ConstantTimeCompare_eq Zero_eq)

text \<open>
  E-mail normalisation is canonical on ASCII addresses: it is idempotent, and it ignores
  letter case and surrounding white space, so that the key-derivation salt of the client and
  the lookup key of the server agree.
\<close>

theorem normalize_email_canonical:
  assumes "ascii e" and "\<forall>c \<in> set u \<union> set v. ascii_space c"
  shows "NormalizeEmail l (NormalizeEmail l e) = NormalizeEmail l e \<and>
     NormalizeEmail l (map ascii_upper e) = NormalizeEmail l e \<and>
     NormalizeEmail l (u @ e @ v) = NormalizeEmail l e"
proof (intro conjI)
  show "NormalizeEmail l (NormalizeEmail l e) = NormalizeEmail l e"
    by (rule NormalizeEmail_idem [OF assms(1)])
  show "NormalizeEmail l (map ascii_upper e) = NormalizeEmail l e"
    using assms(1) by (simp add: NormalizeEmail_ascii ascii_trim_map comp_def)
  have "ascii u" "ascii v" using assms(2) ascii_spaces by simp_all
  then show "NormalizeEmail l (u @ e @ v) = NormalizeEmail l e"
    using assms by (simp add: NormalizeEmail_ascii ascii_trim_padding)
qed

theorem normalize_email_canonical_witness:
  "NormalizeEmail sample_lib ''  Ann@Example.ORG '' = ''ann@example.org''"
proof -
  have e: "ascii ''Ann@Example.ORG''" and s: "\<forall>c \<in> set ''  '' \<union> set '' ''. ascii_space c"
    and v: "map ascii_lower (ascii_trim ''Ann@Example.ORG'') = ''ann@example.org''"
    by code_simp+
  show ?thesis
    using normalize_email_canonical [OF e s, of sample_lib] v
    by (simp add: NormalizeEmail_ascii [OF e] del: list.map)
qed

end
