(* ===== verification/Database.thy ===== *)
theory Database
  imports Json
begin

text \<open>
  The PostgreSQL tables of \<open>db/schema.sql\<close> and the SQL statements of
  \<open>internal/storage/sqlcgen\<close>.  A table is the list of its rows in insertion order; a
  statement is a function of the database clock (\<open>NOW()\<close>), the value the next
  \<open>gen_random_uuid()\<close> would give, and the tables, returning its result and the new tables.
  Constraints of the schema are checked where the database checks them, with their
  SQLSTATE: 23505 unique, 23503 foreign key, 23514 check, 22003 integer out of range; a
  statement that fails changes nothing.  Columns the program never reads (creation times of
  codes, challenges and devices, ids of challenges) are left out.  The lemmas show that every
  statement keeps \<open>db_inv\<close>: keys unique, references resolved, checks satisfied.
\<close>

subsection \<open>Rows\<close>

type_synonym int32 = "32 word"

record User =
  u_id :: uuid
  u_email :: string
  u_kdf :: json
  u_auth_hash :: bytes
  u_auth_salt :: bytes
  u_psk :: string
  u_totp_enabled :: bool
  u_ptotp :: "string option"
  u_created :: time

record item_row =
  i_id :: uuid
  i_user :: uuid
  i_ciphertext :: string
  i_type :: string
  i_revision :: int32
  i_updated :: time

record Session =
  s_id :: uuid
  s_user :: uuid
  s_access :: bytes
  s_access_exp :: time
  s_refresh :: bytes
  s_refresh_exp :: time
  s_created :: time

record recovery_row =
  rc_id :: uuid
  rc_user :: uuid
  rc_hash :: bytes
  rc_used :: "time option"

record challenge_row =
  ch_user :: uuid
  ch_token :: bytes
  ch_expires :: time

record audit_row =
  au_id :: uuid
  au_user :: "uuid option"
  au_type :: string
  au_ip :: "string option"
  au_ua :: "string option"
  au_resource :: "uuid option"
  au_meta :: json
  au_created :: time

record db =
  users :: "User list"
  items :: "item_row list"
  sessions :: "Session list"
  recovery :: "recovery_row list"
  challenges :: "challenge_row list"
  audits :: "audit_row list"
  devices :: "(uuid \<times> bytes) list"

definition empty_db :: db where
  "empty_db = \<lparr>users = [], items = [], sessions = [], recovery = [], challenges = [],
     audits = [], devices = []\<rparr>"

definition unique_violation :: err where "unique_violation = PgError ''23505''"
definition foreign_key_violation :: err where "foreign_key_violation = PgError ''23503''"
definition check_violation :: err where "check_violation = PgError ''23514''"
definition out_of_range :: err where "out_of_range = PgError ''22003''"

lemmas sqlstates = unique_violation_def foreign_key_violation_def check_violation_def
  out_of_range_def

type_synonym 'a stmt = "time \<Rightarrow> uuid \<Rightarrow> db \<Rightarrow> (err + 'a) \<times> db"

definition one_row :: "'a option \<Rightarrow> err + 'a" where
  "one_row r = (case r of None \<Rightarrow> Inl ErrNoRows | Some x \<Rightarrow> Inr x)"

definition user_exists :: "db \<Rightarrow> uuid \<Rightarrow> bool" where
  "user_exists d uid = list_ex (\<lambda>u. u_id u = uid) (users d)"

subsection \<open>Table \<open>users\<close>\<close>

definition getUserByID :: "uuid \<Rightarrow> User stmt" where
  "getUserByID uid now fresh d = (one_row (find (\<lambda>u. u_id u = uid) (users d)), d)"

definition getUserByEmail :: "string \<Rightarrow> User stmt" where
  "getUserByEmail email now fresh d = (one_row (find (\<lambda>u. u_email u = email) (users d)), d)"

definition createUser ::
  "string \<Rightarrow> json \<Rightarrow> bytes \<Rightarrow> bytes \<Rightarrow> string \<Rightarrow> User stmt" where
  "createUser email kdf hash salt psk now fresh d =
     (if list_ex (\<lambda>u. u_id u = fresh \<or> u_email u = email) (users d)
      then (Inl unique_violation, d)
      else let u = \<lparr>u_id = fresh, u_email = email, u_kdf = kdf, u_auth_hash = hash,
             u_auth_salt = salt, u_psk = psk, u_totp_enabled = False, u_ptotp = None,
             u_created = now\<rparr>
           in (Inr u, d\<lparr>users := users d @ [u]\<rparr>))"

definition set_users :: "uuid \<Rightarrow> (User \<Rightarrow> User) \<Rightarrow> db \<Rightarrow> db" where
  "set_users uid f d = d\<lparr>users := map (\<lambda>u. if u_id u = uid then f u else u) (users d)\<rparr>"

definition updateUserProtectedKey :: "uuid \<Rightarrow> string \<Rightarrow> User stmt" where
  "updateUserProtectedKey uid psk now fresh d =
     (let f = (\<lambda>u. u\<lparr>u_psk := psk\<rparr>)
      in (one_row (map_option f (find (\<lambda>u. u_id u = uid) (users d))), set_users uid f d))"

definition updateUserAuthCredentials ::
  "uuid \<Rightarrow> bytes \<Rightarrow> bytes \<Rightarrow> json \<Rightarrow> string \<Rightarrow> User stmt" where
  "updateUserAuthCredentials uid hash salt kdf psk now fresh d =
     (let f = (\<lambda>u. u\<lparr>u_auth_hash := hash, u_auth_salt := salt, u_kdf := kdf, u_psk := psk\<rparr>)
      in (one_row (map_option f (find (\<lambda>u. u_id u = uid) (users d))), set_users uid f d))"

text \<open>\<open>ON DELETE CASCADE\<close> on every reference but \<open>audit_events\<close>, which is set to NULL.\<close>

definition cascade_user :: "uuid \<Rightarrow> db \<Rightarrow> db" where
  "cascade_user uid d = \<lparr>
     users = filter (\<lambda>u. u_id u \<noteq> uid) (users d),
     items = filter (\<lambda>i. i_user i \<noteq> uid) (items d),
     sessions = filter (\<lambda>s. s_user s \<noteq> uid) (sessions d),
     recovery = filter (\<lambda>r. rc_user r \<noteq> uid) (recovery d),
     challenges = filter (\<lambda>c. ch_user c \<noteq> uid) (challenges d),
     audits = map (\<lambda>e. if au_user e = Some uid then e\<lparr>au_user := None\<rparr> else e) (audits d),
     devices = filter (\<lambda>(u, h). u \<noteq> uid) (devices d)\<rparr>"

definition deleteUser :: "uuid \<Rightarrow> nat stmt" where
  "deleteUser uid now fresh d =
     (Inr (length (filter (\<lambda>u. u_id u = uid) (users d))), cascade_user uid d)"

definition enableUserTOTP :: "uuid \<Rightarrow> string option \<Rightarrow> nat stmt" where
  "enableUserTOTP uid secret now fresh d =
     (Inr (length (filter (\<lambda>u. u_id u = uid) (users d))),
      set_users uid (\<lambda>u. u\<lparr>u_totp_enabled := True, u_ptotp := secret\<rparr>) d)"

definition disableUserTOTP :: "uuid \<Rightarrow> nat stmt" where
  "disableUserTOTP uid now fresh d =
     (Inr (length (filter (\<lambda>u. u_id u = uid) (users d))),
      set_users uid (\<lambda>u. u\<lparr>u_totp_enabled := False, u_ptotp := None\<rparr>) d)"

definition getUserTOTPStatus :: "uuid \<Rightarrow> (bool \<times> string option) stmt" where
  "getUserTOTPStatus uid now fresh d =
     (one_row (map_option (\<lambda>u. (u_totp_enabled u, u_ptotp u))
        (find (\<lambda>u. u_id u = uid) (users d))), d)"

subsection \<open>Table \<open>vault_items\<close>\<close>

definition item_types :: "string list" where
  "item_types = [''login'', ''note'', ''card'', ''identity'']"

definition createItem :: "uuid \<Rightarrow> string \<Rightarrow> string \<Rightarrow> item_row stmt" where
  "createItem uid ciphertext itemType now fresh d =
     (if \<not> List.member item_types itemType then (Inl check_violation, d)
      else if list_ex (\<lambda>i. i_id i = fresh) (items d) then (Inl unique_violation, d)
      else if \<not> user_exists d uid then (Inl foreign_key_violation, d)
      else let i = \<lparr>i_id = fresh, i_user = uid, i_ciphertext = ciphertext, i_type = itemType,
             i_revision = 1, i_updated = now\<rparr>
           in (Inr i, d\<lparr>items := items d @ [i]\<rparr>))"

definition getItem :: "uuid \<Rightarrow> uuid \<Rightarrow> item_row stmt" where
  "getItem iid uid now fresh d =
     (one_row (find (\<lambda>i. i_id i = iid \<and> i_user i = uid) (items d)), d)"

definition listItems :: "uuid \<Rightarrow> item_row list stmt" where
  "listItems uid now fresh d =
     (Inr (sort_key (\<lambda>i. - i_updated i) (filter (\<lambda>i. i_user i = uid) (items d))), d)"

definition int32_max :: int32 where "int32_max = 0x7FFFFFFF"

definition updateItem ::
  "uuid \<Rightarrow> uuid \<Rightarrow> int32 \<Rightarrow> string \<Rightarrow> string option \<Rightarrow> item_row stmt" where
  "updateItem iid uid expected ciphertext itemType now fresh d =
     (let hit = (\<lambda>i. i_id i = iid \<and> i_user i = uid \<and> i_revision i = expected);
          f = (\<lambda>i. i\<lparr>i_ciphertext := ciphertext,
                i_type := (case itemType of None \<Rightarrow> i_type i | Some t \<Rightarrow> t),
                i_revision := i_revision i + 1, i_updated := now\<rparr>)
      in case find hit (items d) of
           None \<Rightarrow> (Inl ErrNoRows, d)
         | Some i \<Rightarrow>
             if i_revision i = int32_max then (Inl out_of_range, d)
             else if \<not> List.member item_types (i_type (f i)) then (Inl check_violation, d)
             else (Inr (f i), d\<lparr>items := map (\<lambda>i. if hit i then f i else i) (items d)\<rparr>))"

definition itemExists :: "uuid \<Rightarrow> uuid \<Rightarrow> int stmt" where
  "itemExists iid uid now fresh d =
     (one_row (map_option (\<lambda>_. 1) (find (\<lambda>i. i_id i = iid \<and> i_user i = uid) (items d))), d)"

definition deleteItem :: "uuid \<Rightarrow> uuid \<Rightarrow> nat stmt" where
  "deleteItem iid uid now fresh d =
     (let hit = (\<lambda>i. i_id i = iid \<and> i_user i = uid)
      in (Inr (length (filter hit (items d))),
          d\<lparr>items := filter (\<lambda>i. \<not> hit i) (items d)\<rparr>))"

subsection \<open>Table \<open>sessions\<close>\<close>

definition createSessionPair ::
  "uuid \<Rightarrow> bytes \<Rightarrow> time \<Rightarrow> bytes \<Rightarrow> time \<Rightarrow> Session stmt" where
  "createSessionPair uid ah aexp rh rexp now fresh d =
     (if list_ex (\<lambda>s. s_id s = fresh \<or> s_access s = ah \<or> s_refresh s = rh) (sessions d)
      then (Inl unique_violation, d)
      else if \<not> user_exists d uid then (Inl foreign_key_violation, d)
      else let s = \<lparr>s_id = fresh, s_user = uid, s_access = ah, s_access_exp = aexp,
             s_refresh = rh, s_refresh_exp = rexp, s_created = now\<rparr>
           in (Inr s, d\<lparr>sessions := sessions d @ [s]\<rparr>))"

definition getSessionByAccessHash :: "bytes \<Rightarrow> Session stmt" where
  "getSessionByAccessHash h now fresh d =
     (one_row (find (\<lambda>s. s_access s = h) (sessions d)), d)"

definition getSessionByRefreshHash :: "bytes \<Rightarrow> Session stmt" where
  "getSessionByRefreshHash h now fresh d =
     (one_row (find (\<lambda>s. s_refresh s = h) (sessions d)), d)"

definition rotateSessionTokens ::
  "uuid \<Rightarrow> bytes \<Rightarrow> time \<Rightarrow> bytes \<Rightarrow> time \<Rightarrow> Session stmt" where
  "rotateSessionTokens sid ah aexp rh rexp now fresh d =
     (let f = (\<lambda>s. s\<lparr>s_access := ah, s_access_exp := aexp, s_refresh := rh,
                s_refresh_exp := rexp\<rparr>)
      in case find (\<lambda>s. s_id s = sid) (sessions d) of
           None \<Rightarrow> (Inl ErrNoRows, d)
         | Some s \<Rightarrow>
             if list_ex (\<lambda>s'. s_id s' \<noteq> sid \<and> (s_access s' = ah \<or> s_refresh s' = rh)) (sessions d)
             then (Inl unique_violation, d)
             else (Inr (f s),
                   d\<lparr>sessions := map (\<lambda>s. if s_id s = sid then f s else s) (sessions d)\<rparr>))"

definition deleteSessionByAccessHash :: "bytes \<Rightarrow> unit stmt" where
  "deleteSessionByAccessHash h now fresh d =
     (Inr (), d\<lparr>sessions := filter (\<lambda>s. s_access s \<noteq> h) (sessions d)\<rparr>)"

definition deleteSessionByRefreshHash :: "bytes \<Rightarrow> unit stmt" where
  "deleteSessionByRefreshHash h now fresh d =
     (Inr (), d\<lparr>sessions := filter (\<lambda>s. s_refresh s \<noteq> h) (sessions d)\<rparr>)"

definition deleteAllSessionsForUser :: "uuid \<Rightarrow> unit stmt" where
  "deleteAllSessionsForUser uid now fresh d =
     (Inr (), d\<lparr>sessions := filter (\<lambda>s. s_user s \<noteq> uid) (sessions d)\<rparr>)"

subsection \<open>Tables \<open>recovery_codes\<close> and \<open>mfa_challenges\<close>\<close>

definition deleteRecoveryCodesForUser :: "uuid \<Rightarrow> unit stmt" where
  "deleteRecoveryCodesForUser uid now fresh d =
     (Inr (), d\<lparr>recovery := filter (\<lambda>r. rc_user r \<noteq> uid) (recovery d)\<rparr>)"

definition insertRecoveryCode :: "uuid \<Rightarrow> bytes \<Rightarrow> unit stmt" where
  "insertRecoveryCode uid h now fresh d =
     (if list_ex (\<lambda>r. rc_id r = fresh) (recovery d) then (Inl unique_violation, d)
      else if \<not> user_exists d uid then (Inl foreign_key_violation, d)
      else (Inr (), d\<lparr>recovery := recovery d @
             [\<lparr>rc_id = fresh, rc_user = uid, rc_hash = h, rc_used = None\<rparr>]\<rparr>))"

definition listUnusedRecoveryCodes :: "uuid \<Rightarrow> (uuid \<times> bytes) list stmt" where
  "listUnusedRecoveryCodes uid now fresh d =
     (Inr (map (\<lambda>r. (rc_id r, rc_hash r))
        (filter (\<lambda>r. rc_user r = uid \<and> rc_used r = None) (recovery d))), d)"

definition markRecoveryCodeUsed :: "uuid \<Rightarrow> nat stmt" where
  "markRecoveryCodeUsed cid now fresh d =
     (let hit = (\<lambda>r. rc_id r = cid \<and> rc_used r = None)
      in (Inr (length (filter hit (recovery d))),
          d\<lparr>recovery := map (\<lambda>r. if hit r then r\<lparr>rc_used := Some now\<rparr> else r) (recovery d)\<rparr>))"

definition createMFAChallenge :: "uuid \<Rightarrow> bytes \<Rightarrow> time \<Rightarrow> unit stmt" where
  "createMFAChallenge uid h expires now fresh d =
     (if list_ex (\<lambda>c. ch_token c = h) (challenges d) then (Inl unique_violation, d)
      else if \<not> user_exists d uid then (Inl foreign_key_violation, d)
      else (Inr (), d\<lparr>challenges := challenges d @
             [\<lparr>ch_user = uid, ch_token = h, ch_expires = expires\<rparr>]\<rparr>))"

definition consumeMFAChallenge :: "bytes \<Rightarrow> uuid stmt" where
  "consumeMFAChallenge h now fresh d =
     (let hit = (\<lambda>c. ch_token c = h \<and> now < ch_expires c)
      in (one_row (map_option ch_user (find hit (challenges d))),
          d\<lparr>challenges := filter (\<lambda>c. \<not> hit c) (challenges d)\<rparr>))"

definition cleanupExpiredMFAChallenges :: "unit stmt" where
  "cleanupExpiredMFAChallenges now fresh d =
     (Inr (), d\<lparr>challenges := filter (\<lambda>c. \<not> ch_expires c \<le> now) (challenges d)\<rparr>)"

subsection \<open>Tables \<open>audit_events\<close> and \<open>user_device_hashes\<close>\<close>

definition appendAuditEvent ::
  "uuid option \<Rightarrow> string \<Rightarrow> string option \<Rightarrow> string option \<Rightarrow> uuid option \<Rightarrow> json \<Rightarrow>
   (uuid \<times> time) stmt" where
  "appendAuditEvent uid ty ip ua resource meta now fresh d =
     (if list_ex (\<lambda>e. au_id e = fresh) (audits d) then (Inl unique_violation, d)
      else if (case uid of None \<Rightarrow> False | Some u \<Rightarrow> \<not> user_exists d u)
      then (Inl foreign_key_violation, d)
      else (Inr (fresh, now), d\<lparr>audits := audits d @
             [\<lparr>au_id = fresh, au_user = uid, au_type = ty, au_ip = ip, au_ua = ua,
               au_resource = resource, au_meta = meta, au_created = now\<rparr>]\<rparr>))"

text \<open>
  A comparison with the creation time of a cursor event that does not exist is NULL, so it
  selects no row.
\<close>

definition before_cursor :: "db \<Rightarrow> uuid option \<Rightarrow> audit_row \<Rightarrow> bool" where
  "before_cursor d cursor e =
     (case cursor of
        None \<Rightarrow> True
      | Some c \<Rightarrow> (case find (\<lambda>x. au_id x = c) (audits d) of
                    None \<Rightarrow> False
                  | Some x \<Rightarrow> au_created e < au_created x))"

definition user_events :: "uuid \<Rightarrow> uuid option \<Rightarrow> db \<Rightarrow> audit_row list" where
  "user_events uid cursor d =
     sort_key (\<lambda>e. - au_created e)
       (filter (\<lambda>e. au_user e = Some uid \<and> before_cursor d cursor e) (audits d))"

definition listAuditEventsByUser ::
  "uuid \<Rightarrow> uuid option \<Rightarrow> int32 \<Rightarrow> audit_row list stmt" where
  "listAuditEventsByUser uid cursor limit now fresh d =
     (Inr (take (nat (sint limit)) (user_events uid cursor d)), d)"

definition countRecentLoginFailures :: "uuid \<Rightarrow> nat stmt" where
  "countRecentLoginFailures uid now fresh d =
     (Inr (length (filter (\<lambda>e. au_user e = Some uid \<and> au_type e = ''login_failure'' \<and>
         now - 15 * Minute < au_created e) (audits d))), d)"

definition recordDeviceHash :: "uuid \<Rightarrow> bytes \<Rightarrow> uuid stmt" where
  "recordDeviceHash uid h now fresh d =
     (if List.member (devices d) (uid, h) then (Inl ErrNoRows, d)
      else if \<not> user_exists d uid then (Inl foreign_key_violation, d)
      else (Inr uid, d\<lparr>devices := devices d @ [(uid, h)]\<rparr>))"

subsection \<open>The invariant of the tables\<close>

definition uids :: "db \<Rightarrow> uuid set" where
  "uids d = set (map u_id (users d))"

definition keys_ok :: "db \<Rightarrow> bool" where
  "keys_ok d = (distinct (map u_id (users d)) \<and> distinct (map u_email (users d)) \<and>
     distinct (map i_id (items d)) \<and>
     distinct (map s_id (sessions d)) \<and> distinct (map s_access (sessions d)) \<and>
     distinct (map s_refresh (sessions d)) \<and>
     distinct (map rc_id (recovery d)) \<and> distinct (map ch_token (challenges d)) \<and>
     distinct (map au_id (audits d)) \<and> distinct (devices d))"

definition refs_ok :: "db \<Rightarrow> bool" where
  "refs_ok d = (i_user ` set (items d) \<subseteq> uids d \<and> s_user ` set (sessions d) \<subseteq> uids d \<and>
     rc_user ` set (recovery d) \<subseteq> uids d \<and> ch_user ` set (challenges d) \<subseteq> uids d \<and>
     (\<forall>e \<in> set (audits d). \<forall>u. au_user e = Some u \<longrightarrow> u \<in> uids d) \<and>
     fst ` set (devices d) \<subseteq> uids d)"

definition checks_ok :: "db \<Rightarrow> bool" where
  "checks_ok d = (\<forall>i \<in> set (items d). i_type i \<in> set item_types \<and> 1 \<le> sint (i_revision i))"

definition db_inv :: "db \<Rightarrow> bool" where
  "db_inv d = (keys_ok d \<and> refs_ok d \<and> checks_ok d)"

lemmas db_inv_defs = keys_ok_def refs_ok_def checks_ok_def uids_def

lemma db_inv_empty: "db_inv empty_db"
  by (simp add: db_inv_def db_inv_defs empty_db_def)

lemma user_exists_iff: "user_exists d u \<longleftrightarrow> u \<in> uids d"
  by (auto simp: user_exists_def uids_def list_ex_iff)

lemma distinct_map_filter [intro]: "distinct (map f xs) \<Longrightarrow> distinct (map f (filter P xs))"
  by (induction xs) auto

lemma map_key_update:
  "(\<And>x. x \<in> set xs \<Longrightarrow> f (g x) = f x) \<Longrightarrow> map f (map g xs) = map f xs"
  by simp

lemma sint_succ:
  assumes "r \<noteq> int32_max"
  shows "sint (r + 1) = sint r + 1"
proof -
  have r: "sint r < 2 ^ 31" "- (2 ^ 31) \<le> sint r"
    using sint_lt [of r] sint_ge [of r] by simp_all
  have "sint int32_max = 2 ^ 31 - 1" by (simp add: int32_max_def)
  moreover have "sint r = sint int32_max \<Longrightarrow> r = int32_max" by (rule signed_word_eqI)
  ultimately have "sint r \<noteq> 2 ^ 31 - 1" using assms by auto
  with r have "signed_take_bit 31 (sint r + 1) = sint r + 1"
    by (intro signed_take_bit_int_eq_self) simp_all
  then show ?thesis by (simp add: sint_word_add)
qed

text \<open>One lemma per kind of change; reading statements change nothing.\<close>

definition inv_step :: "db \<Rightarrow> db \<Rightarrow> bool" where
  "inv_step d d' = (db_inv d \<longrightarrow> db_inv d')"

lemma set_users_inv:
  assumes "\<And>u. u_id (f u) = u_id u" and "\<And>u. u_email (f u) = u_email u"
  shows "inv_step d (set_users uid f d)"
proof -
  have ids: "map u_id (users (set_users uid f d)) = map u_id (users d)"
    and em: "map u_email (users (set_users uid f d)) = map u_email (users d)"
    using assms by (simp_all add: set_users_def)
  have "uids (set_users uid f d) = uids d" by (simp only: uids_def ids)
  then show ?thesis
    by (simp add: inv_step_def db_inv_def keys_ok_def refs_ok_def checks_ok_def ids em
        del: map_map) (simp add: set_users_def)
qed

lemma createUser_inv: "inv_step d (snd (createUser email kdf h salt psk now fresh d))"
  by (auto simp: inv_step_def createUser_def db_inv_def db_inv_defs list_ex_iff Let_def)

lemma uids_cascade: "uids (cascade_user uid d) = uids d - {uid}"
  by (auto simp: uids_def cascade_user_def)

lemma cascade_user_inv: "inv_step d (cascade_user uid d)"
proof -
  have a: "map au_id (audits (cascade_user uid d)) = map au_id (audits d)"
    by (simp add: cascade_user_def)
  have "keys_ok d \<Longrightarrow> keys_ok (cascade_user uid d)"
    unfolding keys_ok_def a by (auto simp: cascade_user_def)
  moreover have "refs_ok d \<Longrightarrow> refs_ok (cascade_user uid d)"
    unfolding refs_ok_def uids_cascade by (auto simp: cascade_user_def)
  moreover have "checks_ok d \<Longrightarrow> checks_ok (cascade_user uid d)"
    by (simp add: checks_ok_def cascade_user_def)
  ultimately show ?thesis by (simp add: inv_step_def db_inv_def)
qed

lemma createItem_inv: "inv_step d (snd (createItem uid c t now fresh d))"
  by (auto simp: inv_step_def createItem_def db_inv_def db_inv_defs list_ex_iff Let_def
      user_exists_iff)

lemma updateItem_inv: "inv_step d (snd (updateItem iid uid n c t now fresh d))"
proof -
  define hit where "hit i \<longleftrightarrow> i_id i = iid \<and> i_user i = uid \<and> i_revision i = n" for i :: item_row
  define f where "f i = i\<lparr>i_ciphertext := c, i_type := (case t of None \<Rightarrow> i_type i | Some t \<Rightarrow> t),
                i_revision := i_revision i + 1, i_updated := now\<rparr>" for i :: item_row
  let ?d = "d\<lparr>items := map (\<lambda>i. if hit i then f i else i) (items d)\<rparr>"
  have "db_inv ?d"
    if inv: "db_inv d" and i: "find hit (items d) = Some i" and m: "n \<noteq> int32_max"
      and ty: "i_type (f i) \<in> set item_types"
    for i
  proof -
    have keys: "map i_id (items ?d) = map i_id (items d)" by (simp add: f_def)
    have "i_type (f x) \<in> set item_types \<and> 1 \<le> sint (i_revision (f x))"
      if "x \<in> set (items d)" and "hit x" for x
    proof -
      from i have "i \<in> set (items d)" "hit i" by (auto simp: find_Some_iff)
      with that inv have "x = i"
        by (auto simp: db_inv_def keys_ok_def hit_def distinct_map inj_on_def)
      moreover have "1 \<le> sint (i_revision x)" using that inv
        by (auto simp: db_inv_def checks_ok_def)
      ultimately show ?thesis
        using ty m \<open>hit x\<close> sint_succ [of n] by (simp add: f_def hit_def)
    qed
    then have "checks_ok ?d" using inv by (auto simp: db_inv_def checks_ok_def)
    moreover have "keys_ok ?d" using inv unfolding db_inv_def keys_ok_def keys by simp
    moreover have "refs_ok ?d" using inv
      by (auto simp: db_inv_def refs_ok_def uids_def f_def)
    ultimately show ?thesis by (simp add: db_inv_def)
  qed
  moreover have "updateItem iid uid n c t now fresh d =
     (case find hit (items d) of None \<Rightarrow> (Inl ErrNoRows, d)
      | Some i \<Rightarrow> if i_revision i = int32_max then (Inl out_of_range, d)
          else if \<not> List.member item_types (i_type (f i)) then (Inl check_violation, d)
          else (Inr (f i), ?d))"
    by (simp only: updateItem_def Let_def hit_def [abs_def] f_def [abs_def])
  moreover have "i_revision i = n" if "find hit (items d) = Some i" for i
    using that by (auto simp: find_Some_iff hit_def)
  ultimately show ?thesis by (auto simp: inv_step_def split: option.splits)
qed

lemma deleteItem_inv: "inv_step d (snd (deleteItem iid uid now fresh d))"
  by (auto simp: inv_step_def deleteItem_def db_inv_def db_inv_defs Let_def)

lemma createSessionPair_inv: "inv_step d (snd (createSessionPair uid a ae r re now fresh d))"
  by (auto simp: inv_step_def createSessionPair_def db_inv_def db_inv_defs list_ex_iff Let_def
      user_exists_iff)

lemma rotateSessionTokens_inv:
  "inv_step d (snd (rotateSessionTokens sid a ae r re now fresh d))"
proof -
  define f where "f s = s\<lparr>s_access := a, s_access_exp := ae, s_refresh := r, s_refresh_exp := re\<rparr>"
    for s :: Session
  define g where "g s = (if s_id s = sid then f s else s)" for s :: Session
  let ?d = "d\<lparr>sessions := map g (sessions d)\<rparr>"
  have keys: "map s_id (sessions ?d) = map s_id (sessions d)"
    by (simp add: g_def f_def)
  have inj: "distinct (map fld (map g xs))"
    if "distinct (map s_id xs)" and "distinct (map fld xs)"
      and "\<forall>s \<in> set xs. s_id s \<noteq> sid \<longrightarrow> fld s \<noteq> v" and "\<And>s. fld (f s) = v"
    for xs and fld :: "Session \<Rightarrow> bytes" and v
    using that unfolding distinct_map map_map inj_on_def g_def comp_def
    by (intro conjI) (auto split: if_splits)
  have "db_inv ?d"
    if inv: "db_inv d"
      and new: "\<forall>s \<in> set (sessions d). s_id s \<noteq> sid \<longrightarrow> s_access s \<noteq> a \<and> s_refresh s \<noteq> r"
  proof -
    have "distinct (map s_access (sessions ?d))" "distinct (map s_refresh (sessions ?d))"
      using inv new
      by (auto simp: db_inv_def keys_ok_def f_def simp del: map_map intro!: inj)
    then have "keys_ok ?d" using inv unfolding db_inv_def keys_ok_def keys by simp
    moreover have "refs_ok ?d" using inv by (auto simp: db_inv_def refs_ok_def uids_def g_def f_def)
    moreover have "checks_ok ?d" using inv by (simp add: db_inv_def checks_ok_def)
    ultimately show ?thesis by (simp add: db_inv_def)
  qed
  moreover have "snd (rotateSessionTokens sid a ae r re now fresh d) = d \<or>
     snd (rotateSessionTokens sid a ae r re now fresh d) = ?d \<and>
     (\<forall>s \<in> set (sessions d). s_id s \<noteq> sid \<longrightarrow> s_access s \<noteq> a \<and> s_refresh s \<noteq> r)"
    by (auto simp: rotateSessionTokens_def Let_def list_ex_iff g_def [abs_def] f_def [abs_def] split: option.split)
  ultimately show ?thesis by (auto simp: inv_step_def)
qed

lemma filter_sessions_inv: "inv_step d (d\<lparr>sessions := filter P (sessions d)\<rparr>)"
  by (auto simp: inv_step_def db_inv_def db_inv_defs)

lemma filter_recovery_inv: "inv_step d (d\<lparr>recovery := filter P (recovery d)\<rparr>)"
  by (auto simp: inv_step_def db_inv_def db_inv_defs)

lemma filter_challenges_inv: "inv_step d (d\<lparr>challenges := filter P (challenges d)\<rparr>)"
  by (auto simp: inv_step_def db_inv_def db_inv_defs)

lemma insertRecoveryCode_inv: "inv_step d (snd (insertRecoveryCode uid h now fresh d))"
  by (auto simp: inv_step_def insertRecoveryCode_def db_inv_def db_inv_defs list_ex_iff
      user_exists_iff)

lemma markRecoveryCodeUsed_inv: "inv_step d (snd (markRecoveryCodeUsed cid now fresh d))"
proof -
  let ?d = "snd (markRecoveryCodeUsed cid now fresh d)"
  have keys: "map rc_id (recovery ?d) = map rc_id (recovery d)"
    by (simp add: markRecoveryCodeUsed_def Let_def)
  have "keys_ok d \<Longrightarrow> keys_ok ?d"
    unfolding keys_ok_def keys by (simp add: markRecoveryCodeUsed_def Let_def)
  moreover have "refs_ok d \<Longrightarrow> refs_ok ?d"
    by (auto simp: refs_ok_def uids_def markRecoveryCodeUsed_def Let_def)
  moreover have "checks_ok d \<Longrightarrow> checks_ok ?d"
    by (simp add: checks_ok_def markRecoveryCodeUsed_def Let_def)
  ultimately show ?thesis by (simp add: inv_step_def db_inv_def)
qed

lemma createMFAChallenge_inv: "inv_step d (snd (createMFAChallenge uid h e now fresh d))"
  by (auto simp: inv_step_def createMFAChallenge_def db_inv_def db_inv_defs list_ex_iff
      user_exists_iff)

lemma appendAuditEvent_inv:
  "inv_step d (snd (appendAuditEvent uid ty ip ua res meta now fresh d))"
  by (auto simp: inv_step_def appendAuditEvent_def db_inv_def db_inv_defs list_ex_iff
      user_exists_iff split: option.splits)

lemma recordDeviceHash_inv: "inv_step d (snd (recordDeviceHash uid h now fresh d))"
  by (auto simp: inv_step_def recordDeviceHash_def db_inv_def db_inv_defs
      user_exists_iff)

end
