(* ===== verification/RateLimit.thy ===== *)
theory RateLimit
  imports Window
begin

text \<open>
  \<open>internal/auth/ratelimit.go\<close>: the in-memory sliding-window rate limiter.  One record
  models the struct, one function each method; \<open>time.Now()\<close> is the argument \<open>now\<close> (each
  method reads the clock once, under its mutex).  The lemmas interpret the window interface
  on it, show that pruning never changes a verdict (refinement of an unpruned history), and
  bound what a key can be granted in any window.
\<close>

record rate_limiter =
  rl_windows :: "string \<rightharpoonup> time list"
  rl_limit :: int
  rl_window :: duration

definition newRateLimiter :: "int \<Rightarrow> duration \<Rightarrow> rate_limiter" where
  "newRateLimiter limit window =
     \<lparr>rl_windows = Map.empty, rl_limit = limit, rl_window = window\<rparr>"

text \<open>Reading a missing key of a Go map of slices yields the nil slice.\<close>

definition rl_existing :: "rate_limiter \<Rightarrow> string \<Rightarrow> time list" where
  "rl_existing r key = (case rl_windows r key of None \<Rightarrow> [] | Some ts \<Rightarrow> ts)"

definition RateLimiter_Allow :: "time \<Rightarrow> string \<Rightarrow> rate_limiter \<Rightarrow> bool \<times> rate_limiter" where
  "RateLimiter_Allow now key r =
     (let cutoff = now - rl_window r;
          existing = rl_existing r key;
          valid = keep_after cutoff existing
      in if int (length valid) \<ge> rl_limit r
         then (False, r\<lparr>rl_windows := (rl_windows r)(key \<mapsto> valid)\<rparr>)
         else (True, r\<lparr>rl_windows := (rl_windows r)(key \<mapsto> valid @ [now])\<rparr>))"

definition RateLimiter_Reset :: "string \<Rightarrow> rate_limiter \<Rightarrow> rate_limiter" where
  "RateLimiter_Reset key r = r\<lparr>rl_windows := (rl_windows r)(key := None)\<rparr>"

subsection \<open>The limiter is a sliding-window table\<close>

definition rl_tidy :: "time \<Rightarrow> string \<Rightarrow> rate_limiter \<Rightarrow> rate_limiter" where
  "rl_tidy now key r =
     r\<lparr>rl_windows := (rl_windows r)(key \<mapsto> keep_after (now - rl_window r) (rl_existing r key))\<rparr>"

definition rl_hit :: "time \<Rightarrow> string \<Rightarrow> rate_limiter \<Rightarrow> rate_limiter" where
  "rl_hit now key r =
     r\<lparr>rl_windows := (rl_windows r)
         (key \<mapsto> keep_after (now - rl_window r) (rl_existing r key) @ [now])\<rparr>"

definition rl_recent :: "time \<Rightarrow> string \<Rightarrow> rate_limiter \<Rightarrow> time list" where
  "rl_recent now key r = recent_in (rl_window r) now (rl_existing r key)"

lemma Allow_eq:
  "RateLimiter_Allow now key r =
     (if rl_limit r \<le> int (length (rl_recent now key r))
      then (False, rl_tidy now key r) else (True, rl_hit now key r))"
  by (simp add: RateLimiter_Allow_def rl_recent_def recent_in_def rl_tidy_def rl_hit_def
      keep_after_filter Let_def)

lemma rl_fields [simp]:
  "rl_limit (rl_hit now k r) = rl_limit r" "rl_window (rl_hit now k r) = rl_window r"
  "rl_limit (rl_tidy now k r) = rl_limit r" "rl_window (rl_tidy now k r) = rl_window r"
  "rl_limit (RateLimiter_Reset k r) = rl_limit r"
  "rl_window (RateLimiter_Reset k r) = rl_window r"
  by (simp_all add: rl_hit_def rl_tidy_def RateLimiter_Reset_def)

lemma Allow_fields [simp]:
  "rl_limit (snd (RateLimiter_Allow now k r)) = rl_limit r"
  "rl_window (snd (RateLimiter_Allow now k r)) = rl_window r"
  by (simp_all add: Allow_eq)

lemma rl_existing_upd:
  "rl_existing (r\<lparr>rl_windows := (rl_windows r)(k := v)\<rparr>) k' =
     (if k' = k then (case v of None \<Rightarrow> [] | Some ts \<Rightarrow> ts) else rl_existing r k')"
  by (simp add: rl_existing_def)

interpretation rlw: sliding_window rl_window rl_existing rl_hit rl_tidy RateLimiter_Reset
  by unfold_locales
     (auto simp: rl_hit_def rl_tidy_def RateLimiter_Reset_def rl_existing_upd
        keep_after_filter recent_in_filter)

lemma newRateLimiter_agrees: "rlw.agrees now (newRateLimiter limit window) (\<lambda>_. [])"
  by (rule rlw.agrees_start) (simp add: newRateLimiter_def rl_existing_def)

subsection \<open>Runs of the limiter and of its specification\<close>

text \<open>
  The operations of a limiter with the time each is called at, the limiter's run over them,
  and the specification: grant a request exactly when fewer than \<open>limit\<close> granted requests
  of its key lie in the last \<open>window\<close>, counting every grant since the key's last reset.
\<close>

datatype rl_op = AllowOp time string | ResetOp time string

primrec op_time :: "rl_op \<Rightarrow> time" where
  "op_time (AllowOp t k) = t"
| "op_time (ResetOp t k) = t"

fun rl_run :: "rl_op list \<Rightarrow> rate_limiter \<Rightarrow> bool list" where
  "rl_run [] r = []"
| "rl_run (AllowOp now k # ops) r =
     (let (ok, r') = RateLimiter_Allow now k r in ok # rl_run ops r')"
| "rl_run (ResetOp now k # ops) r = rl_run ops (RateLimiter_Reset k r)"

fun spec_run :: "int \<Rightarrow> duration \<Rightarrow> rl_op list \<Rightarrow> string history \<Rightarrow> bool list" where
  "spec_run limit w [] h = []"
| "spec_run limit w (AllowOp now k # ops) h =
     (if int (length (recent_in w now (h k))) < limit
      then True # spec_run limit w ops (hist_hit now k h)
      else False # spec_run limit w ops h)"
| "spec_run limit w (ResetOp now k # ops) h = spec_run limit w ops (hist_forget k h)"

lemma rl_run_refines:
  assumes "rlw.agrees t0 r h" and "sorted (map op_time ops)" and "\<forall>op\<in>set ops. t0 \<le> op_time op"
  shows "rl_run ops r = spec_run (rl_limit r) (rl_window r) ops h"
  using assms
proof (induction ops arbitrary: r h t0)
  case Nil
  then show ?case by simp
next
  case (Cons op ops)
  show ?case
  proof (cases op)
    case (AllowOp now k)
    with Cons.prems have now: "rlw.agrees now r h"
      by (auto intro: rlw.agrees_later)
    note cnt = rlw.agrees_count [OF now, of k]
    have rest: "sorted (map op_time ops)" "\<forall>op\<in>set ops. now \<le> op_time op"
      using Cons.prems(2) AllowOp by auto
    show ?thesis
      using Cons.IH [OF rlw.agrees_hit [OF now] rest, of k]
        Cons.IH [OF rlw.agrees_tidy [OF now] rest, of k] cnt AllowOp
      by (auto simp: Allow_eq rl_recent_def)
  next
    case (ResetOp now k)
    with Cons.prems have now: "rlw.agrees now r h"
      by (auto intro: rlw.agrees_later)
    have rest: "sorted (map op_time ops)" "\<forall>op\<in>set ops. now \<le> op_time op"
      using Cons.prems(2) ResetOp by auto
    show ?thesis
      using Cons.IH [OF rlw.agrees_forget [OF now] rest, of k] ResetOp by simp
  qed
qed

subsection \<open>How much a key is granted\<close>

text \<open>The times at which a key was granted, in a run of requests without resets.\<close>

fun granted :: "string \<Rightarrow> (time \<times> string) list \<Rightarrow> rate_limiter \<Rightarrow> time list" where
  "granted key [] r = []"
| "granted key ((now, k) # rs) r =
     (let (ok, r') = RateLimiter_Allow now k r
      in (if ok \<and> k = key then [now] else []) @ granted key rs r')"

lemma granted_window_bound:
  assumes "rlw.agrees t0 r h" and "sorted (map fst rs)" and "\<forall>(t, k)\<in>set rs. t0 \<le> t"
    and past: "\<And>t. t \<in> set (h key) \<Longrightarrow> t \<le> t0"
    and bound: "\<And>T. length (filter (\<lambda>t. T - rl_window r < t \<and> t \<le> T) (h key)) \<le> nat (rl_limit r)"
  shows "length (filter (\<lambda>t. T - rl_window r < t \<and> t \<le> T) (h key @ granted key rs r))
           \<le> nat (rl_limit r)"
  using assms
proof (induction rs arbitrary: r h t0)
  case Nil
  then show ?case by simp
next
  case (Cons rq rs)
  obtain now k where rq: "rq = (now, k)" by (cases rq)
  with Cons.prems have now: "rlw.agrees now r h" and t0: "t0 \<le> now"
    by (auto intro: rlw.agrees_later)
  have rest: "sorted (map fst rs)" "\<forall>(t, k)\<in>set rs. now \<le> t"
    using Cons.prems(2) rq by auto
  have past: "\<And>t. t \<in> set (h key) \<Longrightarrow> t \<le> now"
    using Cons.prems(4) t0 by fastforce
  show ?case
  proof (cases "rl_limit r \<le> int (length (rl_recent now k r))")
    case True
    then show ?thesis
      using Cons.IH [OF rlw.agrees_tidy [OF now] rest past] Cons.prems(5)
      by (simp add: rq Allow_eq)
  next
    case False
    let ?h = "hist_hit now k h"
    have few: "length (recent_in (rl_window r) now (h k)) < nat (rl_limit r)"
      using False rlw.agrees_count [OF now, of k] by (simp add: rl_recent_def)
    have ext: "length (filter (\<lambda>t. T' - rl_window r < t \<and> t \<le> T') (?h key)) \<le> nat (rl_limit r)"
      for T'
      using Cons.prems(5) recent_bound_extend [OF Cons.prems(5), of now] few past
      by (cases "k = key") (auto simp: hist_hit_def)
    have past': "\<And>t. t \<in> set (?h key) \<Longrightarrow> t \<le> now"
      using past by (auto simp: hist_hit_def split: if_splits)
    have "length (filter (\<lambda>t. T - rl_window (rl_hit now k r) < t \<and> t \<le> T)
            (?h key @ granted key rs (rl_hit now k r))) \<le> nat (rl_limit (rl_hit now k r))"
      by (rule Cons.IH [OF rlw.agrees_hit [OF now] rest past']) (use ext in simp_all)
    then show ?thesis
      using False by (auto simp: rq Allow_eq hist_hit_def)
  qed
qed

subsection \<open>Frame\<close>

lemma Allow_other_key:
  "k' \<noteq> k \<Longrightarrow> rl_recent T k' (snd (RateLimiter_Allow now k r)) = rl_recent T k' r"
  by (simp add: Allow_eq rl_recent_def rl_tidy_def rl_hit_def rl_existing_upd)

lemma Reset_recent:
  "rl_recent T k' (RateLimiter_Reset k r) = (if k' = k then [] else rl_recent T k' r)"
  by (simp add: rl_recent_def rlw.stamps_forget)

subsection \<open>Properties\<close>

text \<open>
  C31: the limiter refines its specification.  Over any sequence of requests and resets at
  non-decreasing times, the pruned in-memory windows give the same verdicts as the
  specification that never forgets a grant: a request is allowed exactly when fewer than
  \<open>limit\<close> grants of its key since the key's last reset lie in the last \<open>window\<close>.
\<close>

theorem rate_limiter_refines_spec:
  assumes "sorted (map op_time ops)"
  shows "rl_run ops (newRateLimiter limit window) = spec_run limit window ops (\<lambda>_. [])"
proof (cases ops)
  case Nil
  then show ?thesis by simp
next
  case (Cons op ops')
  have "\<forall>op'\<in>set ops. op_time op \<le> op_time op'"
    using assms Cons by auto
  from rl_run_refines [OF newRateLimiter_agrees assms this]
  show ?thesis by (simp add: newRateLimiter_def)
qed

theorem rate_limiter_refines_spec_witness:
  "rl_run [AllowOp 1 ''a'', AllowOp 2 ''a'', AllowOp 3 ''b'', AllowOp 11 ''a'', ResetOp 12 ''a'',
      AllowOp 12 ''a''] (newRateLimiter 1 10) = [True, False, True, True, True]"
  using rate_limiter_refines_spec [of "[AllowOp 1 ''a'', AllowOp 2 ''a'', AllowOp 3 ''b'',
      AllowOp 11 ''a'', ResetOp 12 ''a'', AllowOp 12 ''a'']" 1 10]
  by (simp add: recent_in_def hist_hit_def hist_forget_def)

text \<open>
  Brute-force bound.  However requests for a fresh limiter are timed and interleaved over
  keys, in no window of its length does one key get more than \<open>limit\<close> grants (as long as it
  is not reset).
\<close>

theorem rate_limiter_window_bound:
  assumes "sorted (map fst rs)" and "0 \<le> limit"
  shows "int (length (filter (\<lambda>t. T - window < t \<and> t \<le> T)
     (granted key rs (newRateLimiter limit window)))) \<le> limit"
proof (cases rs)
  case Nil
  then show ?thesis using assms by simp
next
  case (Cons rq rs')
  have "\<forall>(t, k)\<in>set rs. fst rq \<le> t"
    using assms Cons by auto
  from granted_window_bound [where key = key and T = T,
      OF newRateLimiter_agrees [of _ limit window] assms(1) this]
  show ?thesis using assms(2) by (simp add: newRateLimiter_def)
qed

theorem rate_limiter_window_bound_witness:
  "length (filter (\<lambda>t. 10 - 10 < t \<and> t \<le> 10)
     (granted ''a'' [(1, ''a''), (2, ''a''), (3, ''b''), (9, ''a''), (10, ''a'')]
        (newRateLimiter 2 10))) \<le> 2"
  using rate_limiter_window_bound [of "[(1, ''a''), (2, ''a''), (3, ''b''), (9, ''a''), (10, ''a'')]"
      2 10 10 "''a''"]
  by simp

end
