(* ===== verification/Lockout.thy ===== *)
theory Lockout
  imports Prelude
begin

text \<open>
  \<open>internal/auth/lockout.go\<close>: the per-email failure tracker.  \<open>failureRecord\<close> is a
  record, \<open>records\<close> a map, and each method a function of the time its single
  \<open>time.Now()\<close> returned.  The nil-receiver guards of the methods concern a \<open>nil\<close>
  tracker, which \<open>NewManager\<close> never builds; the tracker here is always present.
  The lemmas give the invariant of the stored records, when an account is locked, and the
  closed form of the backoff loop.
\<close>

definition lockoutFailureThreshold :: int where "lockoutFailureThreshold = 5"
definition lockoutDuration :: duration where "lockoutDuration = 15 * Minute"
definition lockoutWindow :: duration where "lockoutWindow = 15 * Minute"
definition maxBackoff :: duration where "maxBackoff = 8 * Second"
definition backoffBase :: duration where "backoffBase = 250 * Millisecond"

lemmas lockout_consts = lockoutFailureThreshold_def lockoutDuration_def lockoutWindow_def
  maxBackoff_def backoffBase_def

record failureRecord =
  fr_failures :: int
  fr_firstFail :: time
  fr_lockedUntil :: time

type_synonym lockout = "string \<rightharpoonup> failureRecord"

definition newLockoutTracker :: lockout where
  "newLockoutTracker = Map.empty"

definition LockoutTracker_IsLocked :: "time \<Rightarrow> string \<Rightarrow> lockout \<Rightarrow> bool \<times> lockout" where
  "LockoutTracker_IsLocked now email l =
     (case l email of
        None \<Rightarrow> (False, l)
      | Some rec \<Rightarrow>
          if now < fr_lockedUntil rec then (True, l)
          else if fr_lockedUntil rec < now \<and> fr_lockedUntil rec \<noteq> 0 then (False, l(email := None))
          else (False, l))"

subsection \<open>The backoff loop\<close>

text \<open>
  \<open>for i := 1; i < failures; i++\<close>: the first argument counts the iterations left.
\<close>

fun backoff_loop :: "nat \<Rightarrow> duration \<Rightarrow> duration" where
  "backoff_loop 0 d = d"
| "backoff_loop (Suc n) d = (if 2 * d \<ge> maxBackoff then maxBackoff else backoff_loop n (2 * d))"

definition backoffDelay :: "int \<Rightarrow> duration" where
  "backoffDelay n =
     (if n \<le> 0 then 0 else backoff_loop (nat (n - 1)) backoffBase)"

definition LockoutTracker_RecordFailure ::
  "time \<Rightarrow> string \<Rightarrow> lockout \<Rightarrow> duration \<times> lockout" where
  "LockoutTracker_RecordFailure now email l =
     (let rec0 = (case l email of
            None \<Rightarrow> \<lparr>fr_failures = 0, fr_firstFail = now, fr_lockedUntil = 0\<rparr>
          | Some rec \<Rightarrow> rec);
          rec1 = (if now - fr_firstFail rec0 > lockoutWindow
            then rec0\<lparr>fr_failures := 0, fr_firstFail := now, fr_lockedUntil := 0\<rparr> else rec0);
          rec2 = rec1\<lparr>fr_failures := fr_failures rec1 + 1\<rparr>;
          n = fr_failures rec2;
          rec3 = (if n \<ge> lockoutFailureThreshold
            then rec2\<lparr>fr_lockedUntil := now + lockoutDuration\<rparr> else rec2)
      in (backoffDelay n, l(email \<mapsto> rec3)))"

definition LockoutTracker_Reset :: "string \<Rightarrow> lockout \<Rightarrow> lockout" where
  "LockoutTracker_Reset email l = l(email := None)"

subsection \<open>Backoff: closed form and bounds\<close>

lemma backoff_loop_closed:
  "0 < d \<Longrightarrow> d \<le> maxBackoff \<Longrightarrow> backoff_loop n d = min (d * 2 ^ n) maxBackoff"
proof (induction n d rule: backoff_loop.induct)
  case (1 d)
  then show ?case by simp
next
  case (2 n d)
  show ?case
  proof (cases "2 * d \<ge> maxBackoff")
    case True
    have "2 * d * 1 \<le> 2 * d * 2 ^ n"
      using "2.prems" by (intro mult_left_mono) simp_all
    with True show ?thesis by (simp add: min_def mult.commute mult.left_commute)
  next
    case False
    then show ?thesis using "2.IH" "2.prems" by (simp add: mult.commute mult.left_commute)
  qed
qed

lemma backoffDelay_closed:
  "1 \<le> n \<Longrightarrow> backoffDelay n = min (250 * Millisecond * 2 ^ nat (n - 1)) (8 * Second)"
  by (simp add: backoffDelay_def backoff_loop_closed lockout_consts)

lemma backoffDelay_bounds: "0 \<le> backoffDelay n \<and> backoffDelay n \<le> maxBackoff"
  by (cases "n \<le> 0") (simp_all add: backoffDelay_def backoff_loop_closed lockout_consts)

subsection \<open>The records a tracker can hold\<close>

text \<open>
  In every stored record the count is positive, and a deadline is set exactly when the
  count has reached the threshold.
\<close>

definition rec_ok :: "failureRecord \<Rightarrow> bool" where
  "rec_ok rec = (1 \<le> fr_failures rec \<and>
     (if fr_failures rec < lockoutFailureThreshold then fr_lockedUntil rec = 0
      else fr_firstFail rec + lockoutDuration \<le> fr_lockedUntil rec \<and>
           fr_lockedUntil rec \<le> fr_firstFail rec + lockoutWindow + lockoutDuration))"

definition lockout_inv :: "lockout \<Rightarrow> bool" where
  "lockout_inv l = (\<forall>email rec. l email = Some rec \<longrightarrow> rec_ok rec)"

lemma lockout_invD: "lockout_inv l \<Longrightarrow> l email = Some rec \<Longrightarrow> rec_ok rec"
  by (simp add: lockout_inv_def)

lemma lockout_inv_new: "lockout_inv newLockoutTracker"
  by (simp add: lockout_inv_def newLockoutTracker_def)

lemma lockout_inv_IsLocked:
  "lockout_inv l \<Longrightarrow> lockout_inv (snd (LockoutTracker_IsLocked now email l))"
  by (auto simp: LockoutTracker_IsLocked_def lockout_inv_def split: option.splits if_splits)

lemma lockout_inv_Reset: "lockout_inv l \<Longrightarrow> lockout_inv (LockoutTracker_Reset email l)"
  by (auto simp: LockoutTracker_Reset_def lockout_inv_def)

text \<open>The record a failure leaves behind.\<close>

definition next_rec :: "time \<Rightarrow> failureRecord option \<Rightarrow> failureRecord" where
  "next_rec now old =
     (case old of
        Some rec \<Rightarrow>
          if now - fr_firstFail rec > lockoutWindow
          then \<lparr>fr_failures = 1, fr_firstFail = now, fr_lockedUntil = 0\<rparr>
          else rec\<lparr>fr_failures := fr_failures rec + 1,
                   fr_lockedUntil := (if fr_failures rec + 1 \<ge> lockoutFailureThreshold
                     then now + lockoutDuration else fr_lockedUntil rec)\<rparr>
      | None \<Rightarrow> \<lparr>fr_failures = 1, fr_firstFail = now, fr_lockedUntil = 0\<rparr>)"

lemma RecordFailure_eq:
  "LockoutTracker_RecordFailure now email l =
     (backoffDelay (fr_failures (next_rec now (l email))), l(email \<mapsto> next_rec now (l email)))"
  by (cases "l email")
     (auto simp: LockoutTracker_RecordFailure_def next_rec_def Let_def lockout_consts)

lemma rec_ok_next:
  "(\<And>rec. old = Some rec \<Longrightarrow> rec_ok rec \<and> fr_firstFail rec \<le> now) \<Longrightarrow> rec_ok (next_rec now old)"
  by (auto simp: next_rec_def rec_ok_def lockout_consts split: option.split)

lemma lockout_inv_RecordFailure:
  assumes "lockout_inv l" and "\<And>rec. l email = Some rec \<Longrightarrow> fr_firstFail rec \<le> now"
  shows "lockout_inv (snd (LockoutTracker_RecordFailure now email l))"
proof -
  have "rec_ok (next_rec now (l email))"
    using assms by (intro rec_ok_next) (auto dest: lockout_invD)
  with assms(1) show ?thesis by (auto simp: RecordFailure_eq lockout_inv_def)
qed

subsection \<open>Runs of failures\<close>

fun record_all :: "time list \<Rightarrow> string \<Rightarrow> lockout \<Rightarrow> lockout" where
  "record_all [] email l = l"
| "record_all (now # ts) email l =
     record_all ts email (snd (LockoutTracker_RecordFailure now email l))"

lemma record_all_within_window:
  assumes "l email = Some rec" and "\<forall>t\<in>set ts. t - fr_firstFail rec \<le> lockoutWindow" and "ts \<noteq> []"
  shows "record_all ts email l email =
    Some (rec\<lparr>fr_failures := fr_failures rec + int (length ts),
              fr_lockedUntil := (if fr_failures rec + int (length ts) \<ge> lockoutFailureThreshold
                then last ts + lockoutDuration else fr_lockedUntil rec)\<rparr>)"
  using assms
proof (induction ts arbitrary: l rec)
  case Nil
  then show ?case by simp
next
  case (Cons now ts)
  let ?rec = "next_rec now (Some rec)"
  have first: "fr_firstFail ?rec = fr_firstFail rec" and n: "fr_failures ?rec = fr_failures rec + 1"
    using Cons.prems by (auto simp: next_rec_def)
  have stored: "snd (LockoutTracker_RecordFailure now email l) email = Some ?rec"
    using Cons.prems(1) by (simp add: RecordFailure_eq)
  show ?case
  proof (cases "ts = []")
    case True
    then show ?thesis using Cons.prems stored by (auto simp: next_rec_def)
  next
    case False
    then show ?thesis
      using Cons.IH [of "snd (LockoutTracker_RecordFailure now email l)" ?rec, OF stored] Cons.prems first n by (auto simp: next_rec_def)
  qed
qed

lemma record_all_fresh:
  assumes "l email = None" and "\<forall>t\<in>set ts. t - now \<le> lockoutWindow"
  shows "record_all (now # ts) email l email =
    Some \<lparr>fr_failures = 1 + int (length ts), fr_firstFail = now,
          fr_lockedUntil = (if 1 + int (length ts) \<ge> lockoutFailureThreshold
            then last ts + lockoutDuration else 0)\<rparr>"
proof -
  let ?rec = "\<lparr>fr_failures = 1, fr_firstFail = now, fr_lockedUntil = 0\<rparr>"
  have "snd (LockoutTracker_RecordFailure now email l) email = Some ?rec"
    using assms(1) by (simp add: RecordFailure_eq next_rec_def)
  then show ?thesis
    using record_all_within_window [of _ email ?rec ts] assms(2)
    by (cases "ts = []") (auto simp: lockout_consts)
qed

lemma IsLocked_stored:
  "l email = Some rec \<Longrightarrow> fst (LockoutTracker_IsLocked T email l) = (T < fr_lockedUntil rec)"
  by (simp add: LockoutTracker_IsLocked_def)

lemma RecordFailure_other:
  "e \<noteq> email \<Longrightarrow> snd (LockoutTracker_RecordFailure now email l) e = l e"
  by (simp add: RecordFailure_eq)

lemma IsLocked_other:
  "e \<noteq> email \<Longrightarrow> snd (LockoutTracker_IsLocked now email l) e = l e"
  by (auto simp: LockoutTracker_IsLocked_def split: option.splits)

subsection \<open>Properties\<close>

text \<open>
  C27: account lockout.  From a clean record, after failures at \<open>now\<close> and then at the times
  \<open>ts\<close>, all within 15 minutes of the first, the account is locked at time \<open>T\<close> exactly
  when at least five failures were recorded and \<open>T\<close> is less than 15 minutes after the last
  one.
\<close>

theorem lockout_after_threshold:
  assumes "l email = None" and "\<forall>t\<in>set ts. t - now \<le> 15 * Minute" and "0 \<le> T"
  shows "fst (LockoutTracker_IsLocked T email (record_all (now # ts) email l)) =
     (5 \<le> length (now # ts) \<and> T < last (now # ts) + 15 * Minute)"
proof -
  have "\<forall>t\<in>set ts. t - now \<le> lockoutWindow" using assms(2) by (simp add: lockoutWindow_def)
  from record_all_fresh [of l email, OF assms(1) this] show ?thesis
    using assms(3) by (auto simp: IsLocked_stored lockout_consts simp del: record_all.simps)
qed

theorem lockout_after_threshold_witness:
  "fst (LockoutTracker_IsLocked 100 ''a@b.c''
     (record_all [10, 20, 30, 40, 50] ''a@b.c'' newLockoutTracker))"
  using lockout_after_threshold [of newLockoutTracker "''a@b.c''" "[20, 30, 40, 50]" 10 100]
  by (simp add: newLockoutTracker_def)

text \<open>
  The lockout window is anchored at the first failure of a record, not sliding.  After one
  early failure, seven further failures inside 61 seconds straddle the end of the first
  failure's 15 minutes, and the account is not locked after them.
\<close>

theorem lockout_window_is_anchored:
  fixes b :: nat
  defines "late \<equiv> [int b + 14 * Minute, int b + 14 * Minute + 1, int b + 14 * Minute + 2,
     int b + 15 * Minute + 1, int b + 15 * Minute + 2, int b + 15 * Minute + 3,
     int b + 15 * Minute + 4]"
  shows "last late - hd late \<le> 61 * Second \<and> length late = 7 \<and>
     \<not> fst (LockoutTracker_IsLocked (last late) email
         (record_all (int b # late) email newLockoutTracker))"
  by (simp add: late_def newLockoutTracker_def RecordFailure_eq next_rec_def lockout_consts
      LockoutTracker_IsLocked_def)

text \<open>
  The backoff loop computes \<open>min (250 ms * 2 ^ (n - 1)) (8 s)\<close> after the \<open>n\<close>-th failure,
  and never leaves \<open>0 .. 8 s\<close>.
\<close>

theorem backoff_delay_value:
  "backoffDelay n = (if n \<le> 0 then 0 else min (250 * Millisecond * 2 ^ nat (n - 1)) (8 * Second)) \<and>
   0 \<le> backoffDelay n \<and> backoffDelay n \<le> 8 * Second"
  using backoffDelay_closed [of n] backoffDelay_bounds [of n]
  by (auto simp: maxBackoff_def backoffDelay_def)

text \<open>
  Every operation keeps the lockout records well formed: a positive count, a deadline
  exactly from the fifth failure on, and the deadline at most 30 minutes after the record's
  first failure.
\<close>

theorem lockout_inv_preserved:
  assumes "lockout_inv l" and "\<forall>rec \<in> ran l. fr_firstFail rec \<le> now"
  shows "lockout_inv (snd (LockoutTracker_RecordFailure now email l)) \<and>
     lockout_inv (snd (LockoutTracker_IsLocked now email l)) \<and>
     lockout_inv (LockoutTracker_Reset email l)"
  using assms
  by (auto intro!: lockout_inv_RecordFailure lockout_inv_IsLocked lockout_inv_Reset intro: ranI)

theorem lockout_inv_preserved_witness:
  "lockout_inv (snd (LockoutTracker_RecordFailure 7 ''a@b.c'' newLockoutTracker))"
  using lockout_inv_preserved [of newLockoutTracker 7 "''a@b.c''"] lockout_inv_new
  by (simp add: newLockoutTracker_def)

end
