(* ===== verification/World.thy ===== *)
theory World
  imports Http Crypto Database RateLimit Lockout
begin

text \<open>
  The state a running server works on, and the primitives its programs are built from.  The
  world holds the database, the in-memory state of \<open>auth.Manager\<close> and \<open>audit.Tracker\<close>, the
  log, the response being written, and everything the server reads from its environment: the
  clock, the random source, and for each round trip to the database what happens to it.

  Requests are served concurrently: between two database round trips of one request,
  others may run.  A round trip therefore first applies \<open>ev_others\<close>, the change other
  requests made since the last one, then executes one statement (statements are atomic).
  It may also fail before or after the statement took effect (connection loss, timeout,
  cancelled context, a server error that is not one of the schema's constraints).

  A program is a state transformer \<open>(world, 'a) state\<close>.  The last section is the proof
  method for invariants: a locale for reflexive and transitive relations on databases, whose
  lemmas lift such a relation through programs, whatever other requests do within it.
\<close>

subsection \<open>The state\<close>

record manager =
  m_loginIP :: rate_limiter
  m_loginAcct :: rate_limiter
  m_registerIP :: rate_limiter
  m_lockout :: lockout
  m_accessTTL :: duration
  m_refreshTTL :: duration

datatype trip = Served | Unsent string | Unacked string

record db_event =
  ev_others :: "db \<Rightarrow> db"
  ev_trip :: trip
  ev_now :: time
  ev_uuid :: uuid

datatype log_entry =
    LogInternal string err "string option"
  | LogDuplicate "string option"
  | LogAuditFailed string err
  | LogReady err "string option"
  | LogRequest "string option" string string nat int
  | LogPanic "string option" string string

record world =
  w_db :: db
  w_auth :: manager
  w_alerts :: tracker
  w_notices :: "notice list"
  w_log :: "log_entry list"
  w_resp :: response
  w_kdf :: nat                        \<comment> \<open>runs of the server-side Argon2id, for timing claims\<close>
  w_slept :: duration                 \<comment> \<open>total of \<open>time.Sleep\<close>\<close>
  w_clock :: "nat \<Rightarrow> time"
  w_events :: "nat \<Rightarrow> db_event"
  w_rng :: rng

type_synonym 'a prog = "(world, 'a) state"

abbreviation ret :: "'a \<Rightarrow> 'a prog" where
  "ret \<equiv> State_Monad.return"

text \<open>\<open>if err != nil { return ..., err }\<close> followed by the rest.\<close>

definition try_prog :: "(err + 'a) prog \<Rightarrow> (err \<Rightarrow> err) \<Rightarrow> ('a \<Rightarrow> (err + 'b) prog) \<Rightarrow> (err + 'b) prog" where
  "try_prog p wrap k = do {
     r \<leftarrow> p;
     case r of Inl e \<Rightarrow> ret (Inl (wrap e)) | Inr x \<Rightarrow> k x
   }"

subsection \<open>Primitives\<close>

definition time_Now :: "time prog" where
  "time_Now = State (\<lambda>w. (w_clock w 0, w\<lparr>w_clock := (\<lambda>i. w_clock w (Suc i))\<rparr>))"

definition time_Sleep :: "duration \<Rightarrow> unit prog" where
  "time_Sleep d = State (\<lambda>w. ((), w\<lparr>w_slept := w_slept w + d\<rparr>))"

definition lift_rng :: "(rng, 'a) state \<Rightarrow> 'a prog" where
  "lift_rng m = State (\<lambda>w. let (x, g) = run_state m (w_rng w) in (x, w\<lparr>w_rng := g\<rparr>))"

definition lift_auth :: "(manager \<Rightarrow> 'a \<times> manager) \<Rightarrow> 'a prog" where
  "lift_auth f = State (\<lambda>w. let (x, m) = f (w_auth w) in (x, w\<lparr>w_auth := m\<rparr>))"

definition lift_alerts :: "(tracker \<Rightarrow> notice list \<times> tracker) \<Rightarrow> unit prog" where
  "lift_alerts f = State (\<lambda>w. let (ns, t) = f (w_alerts w)
     in ((), w\<lparr>w_alerts := t, w_notices := w_notices w @ ns\<rparr>))"

definition log_it :: "log_entry \<Rightarrow> unit prog" where
  "log_it e = State (\<lambda>w. ((), w\<lparr>w_log := w_log w @ [e]\<rparr>))"

definition respond :: "(response \<Rightarrow> response) \<Rightarrow> unit prog" where
  "respond f = State (\<lambda>w. ((), w\<lparr>w_resp := f (w_resp w)\<rparr>))"

definition get_auth :: "(manager \<Rightarrow> 'a) \<Rightarrow> 'a prog" where
  "get_auth f = State (\<lambda>w. (f (w_auth w), w))"

text \<open>
  \<open>crypto.DeriveServerAuthHash\<close> as the server calls it; a call that gets past the checks
  costs one Argon2id run.
\<close>

definition server_hash :: "lib \<Rightarrow> bytes \<Rightarrow> bytes \<Rightarrow> (err + bytes) prog" where
  "server_hash l h salt = State (\<lambda>w.
     let r = DeriveServerAuthHash l h salt DefaultServerAuthParams
     in (r, w\<lparr>w_kdf := w_kdf w + (case r of Inl _ \<Rightarrow> 0 | Inr _ \<Rightarrow> 1)\<rparr>))"

definition next_event :: "world \<Rightarrow> world" where
  "next_event w = w\<lparr>w_events := (\<lambda>i. w_events w (Suc i)), w_db := ev_others (w_events w 0) (w_db w)\<rparr>"

text \<open>One statement, one round trip.\<close>

definition db_exec :: "'a stmt \<Rightarrow> (err + 'a) prog" where
  "db_exec s = State (\<lambda>w.
     let e = w_events w 0; w1 = next_event w; (r, d) = s (ev_now e) (ev_uuid e) (w_db w1)
     in case ev_trip e of
          Served \<Rightarrow> (r, w1\<lparr>w_db := d\<rparr>)
        | Unsent msg \<Rightarrow> (Inl (ErrDriver msg), w1)
        | Unacked msg \<Rightarrow> (Inl (ErrDriver msg), w1\<lparr>w_db := d\<rparr>))"

text \<open>
  A transaction: its statements run in order on a private copy of the tables, each with a
  round trip of its own, up to the first failure, whose error is labelled as the code labels
  it.  Changes of others count as made before \<open>BEGIN\<close> or after the end.  Only a commit that
  takes effect publishes the copy; on every other path the copy is dropped (the deferred
  \<open>Rollback\<close>).
\<close>

fun tx_stmts :: "(nat \<Rightarrow> db_event) \<Rightarrow> (string \<times> unit stmt) list \<Rightarrow> db \<Rightarrow>
    (err + unit) \<times> db \<times> (nat \<Rightarrow> db_event)" where
  "tx_stmts es [] d = (Inr (), d, es)"
| "tx_stmts es ((op, s) # ss) d =
     (let e = es 0; es' = (\<lambda>i. es (Suc i))
      in case ev_trip e of
           Served \<Rightarrow> (case s (ev_now e) (ev_uuid e) d of
               (Inl err, d') \<Rightarrow> (Inl (Wrap op err), d', es')
             | (Inr _, d') \<Rightarrow> tx_stmts es' ss d')
         | Unsent msg \<Rightarrow> (Inl (Wrap op (ErrDriver msg)), d, es')
         | Unacked msg \<Rightarrow> (Inl (Wrap op (ErrDriver msg)), d, es'))"

definition db_tx :: "(string \<times> unit stmt) list \<Rightarrow> (err + unit) prog" where
  "db_tx ss = State (\<lambda>w.
     let w1 = next_event w
     in case ev_trip (w_events w 0) of
          Unsent msg \<Rightarrow> (Inl (ErrDriver msg), w1)
        | Unacked msg \<Rightarrow> (Inl (ErrDriver msg), w1)
        | Served \<Rightarrow>
            (case tx_stmts (w_events w1) ss (w_db w1) of
               (Inl err, d, es) \<Rightarrow> (Inl err, w1\<lparr>w_events := es\<rparr>)
             | (Inr _, d, es) \<Rightarrow>
                 (let w2 = w1\<lparr>w_events := (\<lambda>i. es (Suc i))\<rparr>
                  in case ev_trip (es 0) of
                       Served \<Rightarrow> (Inr (), w2\<lparr>w_db := d\<rparr>)
                     | Unsent msg \<Rightarrow> (Inl (ErrDriver msg), w2)
                     | Unacked msg \<Rightarrow> (Inl (ErrDriver msg), w2\<lparr>w_db := d\<rparr>))))"

lemmas prim_defs = time_Now_def time_Sleep_def lift_rng_def lift_auth_def lift_alerts_def
  log_it_def respond_def get_auth_def server_hash_def

subsection \<open>Relations every program respects\<close>

text \<open>
  \<open>rely R w\<close>: what other requests do to the database lies in \<open>R\<close>.  \<open>within R p\<close>: then so does
  the whole run of \<open>p\<close>, which only consumes events of its environment.  The general forms
  restrict the identifiers the database may still issue to a set \<open>F\<close>.
\<close>

definition rely_ids :: "uuid set \<Rightarrow> (db \<Rightarrow> db \<Rightarrow> bool) \<Rightarrow> world \<Rightarrow> bool" where
  "rely_ids F R w = (\<forall>n. ev_uuid (w_events w n) \<in> F \<and> (\<forall>d. R d (ev_others (w_events w n) d)))"

definition stmt_within_ids :: "uuid set \<Rightarrow> (db \<Rightarrow> db \<Rightarrow> bool) \<Rightarrow> 'a stmt \<Rightarrow> bool" where
  "stmt_within_ids F R s = (\<forall>now d. \<forall>fresh \<in> F. R d (snd (s now fresh d)))"

definition within_ids :: "uuid set \<Rightarrow> (db \<Rightarrow> db \<Rightarrow> bool) \<Rightarrow> 'a prog \<Rightarrow> bool" where
  "within_ids F R p = (\<forall>w. rely_ids F R w \<longrightarrow>
     R (w_db w) (w_db (snd (run_state p w))) \<and>
     range (w_events (snd (run_state p w))) \<subseteq> range (w_events w))"

abbreviation rely :: "(db \<Rightarrow> db \<Rightarrow> bool) \<Rightarrow> world \<Rightarrow> bool" where
  "rely R \<equiv> rely_ids UNIV R"

abbreviation stmt_within :: "(db \<Rightarrow> db \<Rightarrow> bool) \<Rightarrow> 'a stmt \<Rightarrow> bool" where
  "stmt_within R \<equiv> stmt_within_ids UNIV R"

abbreviation within :: "(db \<Rightarrow> db \<Rightarrow> bool) \<Rightarrow> 'a prog \<Rightarrow> bool" where
  "within R \<equiv> within_ids UNIV R"

lemma rely_def: "rely R w = (\<forall>n d. R d (ev_others (w_events w n) d))"
  by (simp add: rely_ids_def)

lemma stmt_within_def: "stmt_within R s = (\<forall>now fresh d. R d (snd (s now fresh d)))"
  by (auto simp: stmt_within_ids_def)

lemmas within_def = within_ids_def [of UNIV]

lemma rely_range: "range (w_events w') \<subseteq> range (w_events w) \<Longrightarrow> rely_ids F R w \<Longrightarrow> rely_ids F R w'"
  unfolding rely_ids_def by (metis (no_types) rangeE rangeI subsetD)

lemma withinD:
  "within_ids F R p \<Longrightarrow> rely_ids F R w \<Longrightarrow> run_state p w = (x, w') \<Longrightarrow>
   R (w_db w) (w_db w') \<and> range (w_events w') \<subseteq> range (w_events w)"
  by (metis snd_conv within_ids_def)

lemma withinI:
  "(\<And>w x w'. rely_ids F R w \<Longrightarrow> run_state p w = (x, w') \<Longrightarrow>
      R (w_db w) (w_db w') \<and> range (w_events w') \<subseteq> range (w_events w)) \<Longrightarrow> within_ids F R p"
  by (metis prod.collapse within_ids_def)

locale db_relation =
  fixes F :: "uuid set" and R :: "db \<Rightarrow> db \<Rightarrow> bool"
  assumes R_refl: "R d d"
    and R_trans: "R d d' \<Longrightarrow> R d' d'' \<Longrightarrow> R d d''"
begin

lemma within_pure: "(\<And>w. w_db (snd (run_state p w)) = w_db w \<and> w_events (snd (run_state p w)) = w_events w)
    \<Longrightarrow> within_ids F R p"
  by (simp add: within_ids_def R_refl)

lemma within_return: "within_ids F R (State_Monad.return x)"
  by (rule within_pure) simp

lemma within_bind:
  assumes "within_ids F R p" and "\<And>x. within_ids F R (f x)"
  shows "within_ids F R (State_Monad.bind p f)"
proof (rule withinI)
  fix w y w' assume "rely_ids F R w" and run: "run_state (State_Monad.bind p f) w = (y, w')"
  obtain x w1 where p: "run_state p w = (x, w1)" by fastforce
  with run have "run_state (f x) w1 = (y, w')" by simp
  moreover have "R (w_db w) (w_db w1)" and ev: "range (w_events w1) \<subseteq> range (w_events w)"
    using withinD [OF assms(1) \<open>rely_ids F R w\<close> p] by auto
  moreover have "rely_ids F R w1" using ev \<open>rely_ids F R w\<close> by (rule rely_range)
  ultimately show "R (w_db w) (w_db w') \<and> range (w_events w') \<subseteq> range (w_events w)"
    using withinD [OF assms(2)] R_trans by (meson subset_trans)
qed

lemma within_if: "within_ids F R p \<Longrightarrow> within_ids F R q \<Longrightarrow> within_ids F R (if b then p else q)"
  by simp

lemma within_option: "within_ids F R p \<Longrightarrow> (\<And>x. within_ids F R (f x)) \<Longrightarrow> within_ids F R (case ov of None \<Rightarrow> p | Some x \<Rightarrow> f x)"
  by (cases ov) auto

lemma within_sum:
  "(\<And>e. within_ids F R (f e)) \<Longrightarrow> (\<And>x. within_ids F R (g x)) \<Longrightarrow> within_ids F R (case s of Inl e \<Rightarrow> f e | Inr x \<Rightarrow> g x)"
  by (cases s) auto

lemma within_prod: "(\<And>x y. within_ids F R (f x y)) \<Longrightarrow> within_ids F R (case p of (x, y) \<Rightarrow> f x y)"
  by (cases p) auto

lemma within_let: "(\<And>x. within_ids F R (f x)) \<Longrightarrow> within_ids F R (let x = a in f x)"
  by simp

lemma within_prims:
  "within_ids F R time_Now" "within_ids F R (time_Sleep dur)" "within_ids F R (lift_rng m)" "within_ids F R (lift_auth g)"
  "within_ids F R (lift_alerts k)" "within_ids F R (log_it e)" "within_ids F R (respond h)" "within_ids F R (get_auth q)"
  "within_ids F R (server_hash l hs salt)"
  by (rule within_pure, simp add: prim_defs Let_def split: prod.split)+

lemma next_within:
  "rely_ids F R w \<Longrightarrow> R (w_db w) (w_db (next_event w)) \<and> range (w_events (next_event w)) \<subseteq> range (w_events w)"
  by (auto simp: rely_ids_def next_event_def)

lemma within_exec: "stmt_within_ids F R s \<Longrightarrow> within_ids F R (db_exec s)"
proof (rule withinI)
  fix w x w' assume s: "stmt_within_ids F R s" and "rely_ids F R w" and run: "run_state (db_exec s) w = (x, w')"
  let ?e = "w_events w 0" and ?w1 = "next_event w"
  note n = next_within [OF \<open>rely_ids F R w\<close>]
  obtain r d where sd: "s (ev_now ?e) (ev_uuid ?e) (w_db ?w1) = (r, d)" by fastforce
  moreover have "ev_uuid ?e \<in> F" using \<open>rely_ids F R w\<close> by (simp add: rely_ids_def)
  ultimately have "R (w_db ?w1) d" using s by (metis snd_conv stmt_within_ids_def)
  then have "R (w_db w) d" using n R_trans by blast
  moreover have "w_db w' \<in> {d, w_db ?w1}" and "w_events w' = w_events ?w1"
    using run sd by (auto simp: db_exec_def Let_def split: trip.splits)
  ultimately show "R (w_db w) (w_db w') \<and> range (w_events w') \<subseteq> range (w_events w)"
    using n by auto
qed

lemma tx_stmts_within:
  "tx_stmts es ss d = (r, d', es') \<Longrightarrow> list_all (\<lambda>(op, s). stmt_within_ids F R s) ss \<Longrightarrow>
   (\<And>n. ev_uuid (es n) \<in> F) \<Longrightarrow>
   R d d' \<and> range es' \<subseteq> range es"
proof (induction es ss d arbitrary: r d' es' rule: tx_stmts.induct)
  case (1 es d)
  then show ?case by (simp add: R_refl)
next
  case (2 es op s ss d)
  have tail: "range (\<lambda>i. es (Suc i)) \<subseteq> range es" by auto
  show ?case
  proof (cases "ev_trip (es 0)")
    case Served
    obtain q d1 where s: "s (ev_now (es 0)) (ev_uuid (es 0)) d = (q, d1)" by fastforce
    have "stmt_within_ids F R s" using "2.prems"(2) by simp
    with s "2.prems"(3) have d1: "R d d1" by (metis snd_conv stmt_within_ids_def)
    show ?thesis
    proof (cases q)
      case (Inl e)
      then show ?thesis using "2.prems" Served s d1 tail by (auto simp: Let_def)
    next
      case (Inr u)
      then have "tx_stmts (\<lambda>i. es (Suc i)) ss d1 = (r, d', es')"
        using "2.prems"(1) Served s by (simp add: Let_def)
      then have "R d1 d' \<and> range es' \<subseteq> range (\<lambda>i. es (Suc i))"
        using "2.IH" [OF refl refl Served s [symmetric] Inr] "2.prems"(2,3) by simp
      then show ?thesis using R_trans [OF d1] tail by blast
    qed
  qed (use "2.prems" R_refl tail in \<open>auto simp: Let_def\<close>)
qed

lemma within_tx:
  assumes "list_all (\<lambda>(op, s). stmt_within_ids F R s) ss"
  shows "within_ids F R (db_tx ss)"
proof (rule withinI)
  fix w x w' assume "rely_ids F R w" and run: "run_state (db_tx ss) w = (x, w')"
  let ?w1 = "next_event w"
  note n = next_within [OF \<open>rely_ids F R w\<close>]
  obtain r d es where t: "tx_stmts (w_events ?w1) ss (w_db ?w1) = (r, d, es)"
    by (metis prod_cases3)
  have d: "R (w_db ?w1) d" "range es \<subseteq> range (w_events ?w1)"
    using tx_stmts_within [OF t assms] \<open>rely_ids F R w\<close> by (auto simp: rely_ids_def next_event_def)
  then have "R (w_db w) d" "range es \<subseteq> range (w_events w)" "range (\<lambda>i. es (Suc i)) \<subseteq> range (w_events w)"
    using n R_trans by (blast, blast, fast)
  moreover have "w_db w' \<in> {d, w_db ?w1}" and "w_events w' \<in> {w_events ?w1, es, (\<lambda>i. es (Suc i))}"
    using run t by (auto simp: db_tx_def Let_def split: trip.splits sum.splits)
  ultimately show "R (w_db w) (w_db w') \<and> range (w_events w') \<subseteq> range (w_events w)"
    using n by auto
qed

lemma within_try: "within_ids F R p \<Longrightarrow> (\<And>x. within_ids F R (k x)) \<Longrightarrow> within_ids F R (try_prog p f k)"
  unfolding try_prog_def by (intro within_bind within_sum within_return)

lemmas within_rules = within_return within_bind within_if within_option within_sum within_prod within_let
  within_prims within_try

end

end
