(* ===== verification/Queries.thy ===== *)
theory Queries
  imports World
begin

text \<open>
  \<open>internal/storage/sqlcgen\<close>: the methods of \<open>Queries\<close>.  Each runs its statement in one
  round trip; the ones that scan a whole row label scan errors (\<open>scanUser\<close>,
  \<open>scanVaultItem\<close>, \<open>scanSession\<close>).
\<close>

definition scanUser :: "User stmt \<Rightarrow> (err + User) prog" where
  "scanUser s = do { r \<leftarrow> db_exec s; ret (map_err (Wrap ''scan user'') r) }"

definition scanVaultItem :: "item_row stmt \<Rightarrow> (err + item_row) prog" where
  "scanVaultItem s = do { r \<leftarrow> db_exec s; ret (map_err (Wrap ''scan vault item'') r) }"

definition scanSession :: "Session stmt \<Rightarrow> (err + Session) prog" where
  "scanSession s = do { r \<leftarrow> db_exec s; ret (map_err (Wrap ''scan session'') r) }"

definition Queries_GetUserByID :: "uuid \<Rightarrow> (err + User) prog" where
  "Queries_GetUserByID uid = scanUser (getUserByID uid)"

definition Queries_GetUserByEmail :: "string \<Rightarrow> (err + User) prog" where
  "Queries_GetUserByEmail email = scanUser (getUserByEmail email)"

definition Queries_CreateUser ::
  "string \<Rightarrow> json \<Rightarrow> bytes \<Rightarrow> bytes \<Rightarrow> string \<Rightarrow> (err + User) prog" where
  "Queries_CreateUser email kdf h salt psk = scanUser (createUser email kdf h salt psk)"

definition Queries_UpdateUserProtectedKey :: "uuid \<Rightarrow> string \<Rightarrow> (err + User) prog" where
  "Queries_UpdateUserProtectedKey uid psk = scanUser (updateUserProtectedKey uid psk)"

definition Queries_UpdateUserAuthCredentials ::
  "uuid \<Rightarrow> bytes \<Rightarrow> bytes \<Rightarrow> json \<Rightarrow> string \<Rightarrow> (err + User) prog" where
  "Queries_UpdateUserAuthCredentials uid h salt kdf psk =
     scanUser (updateUserAuthCredentials uid h salt kdf psk)"

definition Queries_DeleteUser :: "uuid \<Rightarrow> (err + nat) prog" where
  "Queries_DeleteUser uid = db_exec (deleteUser uid)"

definition Queries_EnableUserTOTP :: "uuid \<Rightarrow> string option \<Rightarrow> (err + nat) prog" where
  "Queries_EnableUserTOTP uid secret = db_exec (enableUserTOTP uid secret)"

definition Queries_DisableUserTOTP :: "uuid \<Rightarrow> (err + nat) prog" where
  "Queries_DisableUserTOTP uid = db_exec (disableUserTOTP uid)"

definition Queries_GetUserTOTPStatus :: "uuid \<Rightarrow> (err + bool \<times> string option) prog" where
  "Queries_GetUserTOTPStatus uid = db_exec (getUserTOTPStatus uid)"

definition Queries_CreateItem :: "uuid \<Rightarrow> string \<Rightarrow> string \<Rightarrow> (err + item_row) prog" where
  "Queries_CreateItem uid ciphertext itemType = scanVaultItem (createItem uid ciphertext itemType)"

definition Queries_GetItem :: "uuid \<Rightarrow> uuid \<Rightarrow> (err + item_row) prog" where
  "Queries_GetItem iid uid = scanVaultItem (getItem iid uid)"

definition Queries_ListItems :: "uuid \<Rightarrow> (err + item_row list) prog" where
  "Queries_ListItems uid = db_exec (listItems uid)"

definition Queries_UpdateItem ::
  "uuid \<Rightarrow> uuid \<Rightarrow> int32 \<Rightarrow> string \<Rightarrow> string option \<Rightarrow> (err + item_row) prog" where
  "Queries_UpdateItem iid uid revision ciphertext itemType =
     scanVaultItem (updateItem iid uid revision ciphertext itemType)"

definition Queries_ItemExists :: "uuid \<Rightarrow> uuid \<Rightarrow> (err + int) prog" where
  "Queries_ItemExists iid uid = db_exec (itemExists iid uid)"

definition Queries_DeleteItem :: "uuid \<Rightarrow> uuid \<Rightarrow> (err + nat) prog" where
  "Queries_DeleteItem iid uid = db_exec (deleteItem iid uid)"

definition Queries_CreateSessionPair ::
  "uuid \<Rightarrow> bytes \<Rightarrow> time \<Rightarrow> bytes \<Rightarrow> time \<Rightarrow> (err + Session) prog" where
  "Queries_CreateSessionPair uid ah aexp rh rexp = scanSession (createSessionPair uid ah aexp rh rexp)"

definition Queries_GetSessionByAccessHash :: "bytes \<Rightarrow> (err + Session) prog" where
  "Queries_GetSessionByAccessHash h = scanSession (getSessionByAccessHash h)"

definition Queries_GetSessionByRefreshHash :: "bytes \<Rightarrow> (err + Session) prog" where
  "Queries_GetSessionByRefreshHash h = scanSession (getSessionByRefreshHash h)"

definition Queries_RotateSessionTokens ::
  "uuid \<Rightarrow> bytes \<Rightarrow> time \<Rightarrow> bytes \<Rightarrow> time \<Rightarrow> (err + Session) prog" where
  "Queries_RotateSessionTokens sid ah aexp rh rexp =
     scanSession (rotateSessionTokens sid ah aexp rh rexp)"

definition Queries_DeleteSessionByAccessHash :: "bytes \<Rightarrow> (err + unit) prog" where
  "Queries_DeleteSessionByAccessHash h = db_exec (deleteSessionByAccessHash h)"

definition Queries_DeleteSessionByRefreshHash :: "bytes \<Rightarrow> (err + unit) prog" where
  "Queries_DeleteSessionByRefreshHash h = db_exec (deleteSessionByRefreshHash h)"

definition Queries_DeleteAllSessionsForUser :: "uuid \<Rightarrow> (err + unit) prog" where
  "Queries_DeleteAllSessionsForUser uid = db_exec (deleteAllSessionsForUser uid)"

definition Queries_DeleteRecoveryCodesForUser :: "uuid \<Rightarrow> (err + unit) prog" where
  "Queries_DeleteRecoveryCodesForUser uid = db_exec (deleteRecoveryCodesForUser uid)"

definition Queries_ListUnusedRecoveryCodes :: "uuid \<Rightarrow> (err + (uuid \<times> bytes) list) prog" where
  "Queries_ListUnusedRecoveryCodes uid = db_exec (listUnusedRecoveryCodes uid)"

definition Queries_MarkRecoveryCodeUsed :: "uuid \<Rightarrow> (err + nat) prog" where
  "Queries_MarkRecoveryCodeUsed cid = db_exec (markRecoveryCodeUsed cid)"

definition Queries_CreateMFAChallenge :: "uuid \<Rightarrow> bytes \<Rightarrow> time \<Rightarrow> (err + unit) prog" where
  "Queries_CreateMFAChallenge uid h expires = db_exec (createMFAChallenge uid h expires)"

definition Queries_ConsumeMFAChallenge :: "bytes \<Rightarrow> (err + uuid) prog" where
  "Queries_ConsumeMFAChallenge h = db_exec (consumeMFAChallenge h)"

definition Queries_CleanupExpiredMFAChallenges :: "(err + unit) prog" where
  "Queries_CleanupExpiredMFAChallenges = db_exec cleanupExpiredMFAChallenges"

definition Queries_AppendAuditEvent ::
  "uuid option \<Rightarrow> string \<Rightarrow> string option \<Rightarrow> string option \<Rightarrow> uuid option \<Rightarrow> json \<Rightarrow>
   (err + uuid \<times> time) prog" where
  "Queries_AppendAuditEvent uid ty ip ua resource meta =
     db_exec (appendAuditEvent uid ty ip ua resource meta)"

definition Queries_ListAuditEventsByUser ::
  "uuid \<Rightarrow> uuid option \<Rightarrow> int32 \<Rightarrow> (err + audit_row list) prog" where
  "Queries_ListAuditEventsByUser uid cursor lim = db_exec (listAuditEventsByUser uid cursor lim)"

definition Queries_CountRecentLoginFailures :: "uuid \<Rightarrow> (err + nat) prog" where
  "Queries_CountRecentLoginFailures uid = db_exec (countRecentLoginFailures uid)"

definition Queries_RecordDeviceHash :: "uuid \<Rightarrow> bytes \<Rightarrow> (err + uuid) prog" where
  "Queries_RecordDeviceHash uid h = db_exec (recordDeviceHash uid h)"

lemmas scan_defs = scanUser_def scanVaultItem_def scanSession_def

lemmas queries_defs = Queries_GetUserByID_def Queries_GetUserByEmail_def Queries_CreateUser_def
  Queries_UpdateUserProtectedKey_def Queries_UpdateUserAuthCredentials_def
  Queries_DeleteUser_def Queries_EnableUserTOTP_def Queries_DisableUserTOTP_def
  Queries_GetUserTOTPStatus_def Queries_CreateItem_def Queries_GetItem_def
  Queries_ListItems_def Queries_UpdateItem_def Queries_ItemExists_def Queries_DeleteItem_def
  Queries_CreateSessionPair_def Queries_GetSessionByAccessHash_def
  Queries_GetSessionByRefreshHash_def Queries_RotateSessionTokens_def
  Queries_DeleteSessionByAccessHash_def Queries_DeleteSessionByRefreshHash_def
  Queries_DeleteAllSessionsForUser_def Queries_DeleteRecoveryCodesForUser_def
  Queries_ListUnusedRecoveryCodes_def Queries_MarkRecoveryCodeUsed_def
  Queries_CreateMFAChallenge_def Queries_ConsumeMFAChallenge_def
  Queries_CleanupExpiredMFAChallenges_def Queries_AppendAuditEvent_def
  Queries_ListAuditEventsByUser_def Queries_CountRecentLoginFailures_def
  Queries_RecordDeviceHash_def

end
