(* ===== verification/Storage.thy ===== *)
theory Storage
  imports Queries
begin

text \<open>
  \<open>internal/storage\<close>: the repositories the handlers call.  They convert rows, label
  errors, turn "no rows" into \<open>ErrNotFound\<close>, and add the optimistic-concurrency protocol of
  \<open>ItemsRepo.Update\<close> and the consumption of recovery codes.  \<open>storage.User\<close> and
  \<open>storage.Session\<close> have the fields of the \<open>sqlcgen\<close> rows, so those records serve for both.
\<close>

subsection \<open>Row conversions (\<open>convert.go\<close>)\<close>

record VaultItem =
  v_id :: uuid
  v_user :: uuid
  v_ciphertext :: string
  v_type :: string
  v_revision :: int
  v_updated :: time

record AuditEvent =
  ae_id :: uuid
  ae_user :: "uuid option"
  ae_type :: string
  ae_ip :: "string option"
  ae_ua :: string
  ae_resource :: "uuid option"
  ae_meta :: json
  ae_created :: time

definition userFromRow :: "User \<Rightarrow> User" where
  "userFromRow u = \<lparr>u_id = u_id u, u_email = u_email u, u_kdf = u_kdf u,
     u_auth_hash = u_auth_hash u, u_auth_salt = u_auth_salt u, u_psk = u_psk u,
     u_totp_enabled = u_totp_enabled u, u_ptotp = u_ptotp u, u_created = u_created u\<rparr>"

definition itemFromRow :: "item_row \<Rightarrow> VaultItem" where
  "itemFromRow i = \<lparr>v_id = i_id i, v_user = i_user i, v_ciphertext = i_ciphertext i,
     v_type = i_type i, v_revision = sint (i_revision i), v_updated = i_updated i\<rparr>"

definition sessionFromRow :: "Session \<Rightarrow> Session" where
  "sessionFromRow s = \<lparr>s_id = s_id s, s_user = s_user s, s_access = s_access s,
     s_access_exp = s_access_exp s, s_refresh = s_refresh s, s_refresh_exp = s_refresh_exp s,
     s_created = s_created s\<rparr>"

definition derefString :: "string option \<Rightarrow> string" where
  "derefString s = (case s of None \<Rightarrow> [] | Some x \<Rightarrow> x)"

definition auditFromRow :: "lib \<Rightarrow> audit_row \<Rightarrow> AuditEvent" where
  "auditFromRow l e = \<lparr>ae_id = au_id e, ae_user = au_user e, ae_type = au_type e,
     ae_ip = (case au_ip e of None \<Rightarrow> None
       | Some ip \<Rightarrow> if ip = [] then None else net_ParseIP l ip),
     ae_ua = derefString (au_ua e), ae_resource = au_resource e, ae_meta = au_meta e,
     ae_created = au_created e\<rparr>"

text \<open>\<open>None\<close> is an empty \<open>json.RawMessage\<close>.\<close>

definition emptyMetadata :: "json option \<Rightarrow> json" where
  "emptyMetadata m = (case m of None \<Rightarrow> JObj [] | Some j \<Rightarrow> j)"

definition auditLimit :: "int \<Rightarrow> int32" where
  "auditLimit lim = (if lim \<le> 0 \<or> lim > 100 then 50 else of_int lim)"

definition revisionAsInt32 :: "int \<Rightarrow> err + int32" where
  "revisionAsInt32 r =
     (if r < 0 \<or> r > 2147483647 then Inl (ErrText ''revision out of range'') else Inr (of_int r))"

lemma userFromRow_id [simp]: "userFromRow u = u"
  by (simp add: userFromRow_def)

lemma sessionFromRow_id [simp]: "sessionFromRow s = s"
  by (simp add: sessionFromRow_def)

subsection \<open>\<open>UsersRepo\<close>\<close>

definition UsersRepo_GetByID :: "uuid \<Rightarrow> (err + User) prog" where
  "UsersRepo_GetByID uid =
     try_prog (Queries_GetUserByID uid) (\<lambda>e. mapNotFound (Wrap ''get user by id'' e))
       (\<lambda>u. ret (Inr (userFromRow u)))"

definition UsersRepo_GetByEmail :: "string \<Rightarrow> (err + User) prog" where
  "UsersRepo_GetByEmail email =
     try_prog (Queries_GetUserByEmail email) (\<lambda>e. mapNotFound (Wrap ''get user by email'' e))
       (\<lambda>u. ret (Inr (userFromRow u)))"

definition UsersRepo_Create ::
  "string \<Rightarrow> json \<Rightarrow> bytes \<Rightarrow> bytes \<Rightarrow> string \<Rightarrow> (err + User) prog" where
  "UsersRepo_Create email kdf h salt psk =
     try_prog (Queries_CreateUser email kdf h salt psk) (Wrap ''create user'')
       (\<lambda>u. ret (Inr (userFromRow u)))"

definition UsersRepo_UpdateProtectedKey :: "uuid \<Rightarrow> string \<Rightarrow> (err + User) prog" where
  "UsersRepo_UpdateProtectedKey uid newKey =
     try_prog (Queries_UpdateUserProtectedKey uid newKey)
       (\<lambda>e. mapNotFound (Wrap ''update protected key'' e)) (\<lambda>u. ret (Inr (userFromRow u)))"

definition UsersRepo_UpdateAuthCredentials ::
  "uuid \<Rightarrow> bytes \<Rightarrow> bytes \<Rightarrow> json \<Rightarrow> string \<Rightarrow> (err + User) prog" where
  "UsersRepo_UpdateAuthCredentials uid newHash newSalt newKdf newKey =
     try_prog (Queries_UpdateUserAuthCredentials uid newHash newSalt newKdf newKey)
       (\<lambda>e. mapNotFound (Wrap ''update auth credentials'' e)) (\<lambda>u. ret (Inr (userFromRow u)))"

definition UsersRepo_DeleteUser :: "uuid \<Rightarrow> (err + unit) prog" where
  "UsersRepo_DeleteUser uid =
     try_prog (Queries_DeleteUser uid) (Wrap ''delete user'')
       (\<lambda>n. ret (if n = 0 then Inl ErrNotFound else Inr ()))"

subsection \<open>\<open>ItemsRepo\<close>\<close>

definition ItemsRepo_Create :: "uuid \<Rightarrow> string \<Rightarrow> string \<Rightarrow> (err + VaultItem) prog" where
  "ItemsRepo_Create uid ciphertext itemType =
     try_prog (Queries_CreateItem uid ciphertext itemType) (Wrap ''create item'')
       (\<lambda>i. ret (Inr (itemFromRow i)))"

definition ItemsRepo_Get :: "uuid \<Rightarrow> uuid \<Rightarrow> (err + VaultItem) prog" where
  "ItemsRepo_Get iid uid =
     try_prog (Queries_GetItem iid uid) (\<lambda>e. mapNotFound (Wrap ''get item'' e))
       (\<lambda>i. ret (Inr (itemFromRow i)))"

definition ItemsRepo_List :: "uuid \<Rightarrow> (err + VaultItem list) prog" where
  "ItemsRepo_List uid =
     try_prog (Queries_ListItems uid) (Wrap ''list items'') (\<lambda>rows. ret (Inr (map itemFromRow rows)))"

definition ItemsRepo_itemExists :: "uuid \<Rightarrow> uuid \<Rightarrow> (err + bool) prog" where
  "ItemsRepo_itemExists iid uid = do {
     r \<leftarrow> Queries_ItemExists iid uid;
     ret (case r of
         Inl e \<Rightarrow> if mapNotFound e = ErrNotFound then Inr False else Inl e
       | Inr _ \<Rightarrow> Inr True)
   }"

definition ItemsRepo_Update ::
  "uuid \<Rightarrow> uuid \<Rightarrow> int \<Rightarrow> string \<Rightarrow> string \<Rightarrow> (err + VaultItem) prog" where
  "ItemsRepo_Update iid uid currentRevision newCiphertext newItemType =
     (let itemTypeArg = (if newItemType \<noteq> [] then Some newItemType else None)
      in case revisionAsInt32 currentRevision of
           Inl e \<Rightarrow> ret (Inl e)
         | Inr n \<Rightarrow> do {
             r \<leftarrow> Queries_UpdateItem iid uid n newCiphertext itemTypeArg;
             case r of
               Inr item \<Rightarrow> ret (Inr (itemFromRow item))
             | Inl e \<Rightarrow>
                 if errors_Is e ErrNoRows
                 then try_prog (ItemsRepo_itemExists iid uid) (Wrap ''update item existence check'')
                        (\<lambda>present. ret (Inl (if present then ErrConflict else ErrNotFound)))
                 else ret (Inl (Wrap ''update item'' e))
           })"

definition ItemsRepo_Delete :: "uuid \<Rightarrow> uuid \<Rightarrow> (err + unit) prog" where
  "ItemsRepo_Delete iid uid =
     try_prog (Queries_DeleteItem iid uid) (Wrap ''delete item'')
       (\<lambda>n. ret (if n = 0 then Inl ErrNotFound else Inr ()))"

subsection \<open>\<open>SessionsRepo\<close>\<close>

definition SessionsRepo_CreatePair ::
  "uuid \<Rightarrow> bytes \<Rightarrow> time \<Rightarrow> bytes \<Rightarrow> time \<Rightarrow> (err + Session) prog" where
  "SessionsRepo_CreatePair uid ah aexp rh rexp =
     try_prog (Queries_CreateSessionPair uid ah aexp rh rexp) (Wrap ''create session pair'')
       (\<lambda>s. ret (Inr (sessionFromRow s)))"

definition SessionsRepo_GetByAccessHash :: "bytes \<Rightarrow> (err + Session) prog" where
  "SessionsRepo_GetByAccessHash h =
     try_prog (Queries_GetSessionByAccessHash h)
       (\<lambda>e. mapNotFound (Wrap ''get session by access hash'' e)) (\<lambda>s. ret (Inr (sessionFromRow s)))"

definition SessionsRepo_GetByRefreshHash :: "bytes \<Rightarrow> (err + Session) prog" where
  "SessionsRepo_GetByRefreshHash h =
     try_prog (Queries_GetSessionByRefreshHash h)
       (\<lambda>e. mapNotFound (Wrap ''get session by refresh hash'' e)) (\<lambda>s. ret (Inr (sessionFromRow s)))"

definition SessionsRepo_RotateTokens ::
  "uuid \<Rightarrow> bytes \<Rightarrow> time \<Rightarrow> bytes \<Rightarrow> time \<Rightarrow> (err + Session) prog" where
  "SessionsRepo_RotateTokens sid ah aexp rh rexp =
     try_prog (Queries_RotateSessionTokens sid ah aexp rh rexp) (Wrap ''rotate session tokens'')
       (\<lambda>s. ret (Inr (sessionFromRow s)))"

definition SessionsRepo_DeleteByAccessHash :: "bytes \<Rightarrow> (err + unit) prog" where
  "SessionsRepo_DeleteByAccessHash h =
     try_prog (Queries_DeleteSessionByAccessHash h) (Wrap ''delete session by access hash'')
       (\<lambda>u. ret (Inr u))"

definition SessionsRepo_DeleteByRefreshHash :: "bytes \<Rightarrow> (err + unit) prog" where
  "SessionsRepo_DeleteByRefreshHash h =
     try_prog (Queries_DeleteSessionByRefreshHash h) (Wrap ''delete session by refresh hash'')
       (\<lambda>u. ret (Inr u))"

definition SessionsRepo_DeleteAllForUser :: "uuid \<Rightarrow> (err + unit) prog" where
  "SessionsRepo_DeleteAllForUser uid =
     try_prog (Queries_DeleteAllSessionsForUser uid) (Wrap ''delete all sessions for user'')
       (\<lambda>u. ret (Inr u))"

subsection \<open>\<open>MFARepo\<close>\<close>

definition MFARepo_EnableTOTP :: "uuid \<Rightarrow> string \<Rightarrow> (err + unit) prog" where
  "MFARepo_EnableTOTP uid protectedSecret =
     try_prog (Queries_EnableUserTOTP uid (Some protectedSecret)) (Wrap ''enable totp'')
       (\<lambda>n. ret (if n = 0 then Inl ErrNotFound else Inr ()))"

definition MFARepo_DisableTOTP :: "uuid \<Rightarrow> (err + unit) prog" where
  "MFARepo_DisableTOTP uid =
     try_prog (Queries_DisableUserTOTP uid) (Wrap ''disable totp'')
       (\<lambda>n. if n = 0 then ret (Inl ErrNotFound) else Queries_DeleteRecoveryCodesForUser uid)"

definition MFARepo_GetTOTPStatus :: "uuid \<Rightarrow> (err + bool \<times> string option) prog" where
  "MFARepo_GetTOTPStatus uid =
     try_prog (Queries_GetUserTOTPStatus uid)
       (\<lambda>e. if mapNotFound e = ErrNotFound then ErrNotFound else Wrap ''get totp status'' e)
       (\<lambda>row. ret (Inr row))"

definition MFARepo_ReplaceRecoveryCodes :: "uuid \<Rightarrow> bytes list \<Rightarrow> (err + unit) prog" where
  "MFARepo_ReplaceRecoveryCodes uid hashes =
     db_tx ((''delete recovery codes'', deleteRecoveryCodesForUser uid) #
            map (\<lambda>h. (''insert recovery code'', insertRecoveryCode uid h)) hashes)"

text \<open>The loop over the unused codes, which stops at the first one that matches.\<close>

fun consume_loop :: "(bytes \<Rightarrow> bool) \<Rightarrow> (uuid \<times> bytes) list \<Rightarrow> (err + bool) prog" where
  "consume_loop matches [] = ret (Inr False)"
| "consume_loop matches ((cid, h) # cs) =
     (if matches h
      then try_prog (Queries_MarkRecoveryCodeUsed cid) (\<lambda>e. e) (\<lambda>n. ret (Inr (0 < n)))
      else consume_loop matches cs)"

definition MFARepo_ConsumeRecoveryCode :: "uuid \<Rightarrow> (bytes \<Rightarrow> bool) \<Rightarrow> (err + bool) prog" where
  "MFARepo_ConsumeRecoveryCode uid matches =
     try_prog (Queries_ListUnusedRecoveryCodes uid) (Wrap ''list recovery codes'')
       (consume_loop matches)"

definition MFARepo_CreateChallenge :: "uuid \<Rightarrow> bytes \<Rightarrow> time \<Rightarrow> (err + unit) prog" where
  "MFARepo_CreateChallenge uid tokenHash expiresAt = Queries_CreateMFAChallenge uid tokenHash expiresAt"

definition MFARepo_ConsumeChallenge :: "bytes \<Rightarrow> (err + uuid) prog" where
  "MFARepo_ConsumeChallenge tokenHash =
     try_prog (Queries_ConsumeMFAChallenge tokenHash)
       (\<lambda>e. if mapNotFound e = ErrNotFound then ErrNotFound else Wrap ''consume mfa challenge'' e)
       (\<lambda>uid. ret (Inr uid))"

definition MFARepo_CleanupExpiredChallenges :: "(err + unit) prog" where
  "MFARepo_CleanupExpiredChallenges = Queries_CleanupExpiredMFAChallenges"

subsection \<open>\<open>AuditRepo\<close>\<close>

definition AuditRepo_Append ::
  "uuid option \<Rightarrow> string \<Rightarrow> string option \<Rightarrow> string \<Rightarrow> uuid option \<Rightarrow> json option \<Rightarrow>
   (err + AuditEvent) prog" where
  "AuditRepo_Append uid eventType ip userAgent resource metadata =
     (let ua = (if userAgent \<noteq> [] then Some userAgent else None)
      in try_prog (Queries_AppendAuditEvent uid eventType ip ua resource (emptyMetadata metadata))
           (Wrap ''append audit event'')
           (\<lambda>(aid, created). ret (Inr \<lparr>ae_id = aid, ae_user = uid, ae_type = eventType, ae_ip = ip,
              ae_ua = userAgent, ae_resource = resource, ae_meta = emptyMetadata metadata,
              ae_created = created\<rparr>)))"

definition AuditRepo_ListByUser ::
  "lib \<Rightarrow> uuid \<Rightarrow> uuid option \<Rightarrow> int \<Rightarrow> (err + AuditEvent list) prog" where
  "AuditRepo_ListByUser l uid cursor lim =
     try_prog (Queries_ListAuditEventsByUser uid cursor (auditLimit lim + 1))
       (Wrap ''list audit events'') (\<lambda>rows. ret (Inr (map (auditFromRow l) rows)))"

definition AuditRepo_CountRecentLoginFailures :: "uuid \<Rightarrow> (err + nat) prog" where
  "AuditRepo_CountRecentLoginFailures uid = Queries_CountRecentLoginFailures uid"

definition AuditRepo_RecordDeviceHash :: "uuid \<Rightarrow> bytes \<Rightarrow> (err + bool) prog" where
  "AuditRepo_RecordDeviceHash uid uaHash = do {
     r \<leftarrow> Queries_RecordDeviceHash uid uaHash;
     ret (case r of
         Inl e \<Rightarrow> if mapNotFound e = ErrNotFound then Inr False
                  else Inl (Wrap ''record device hash'' e)
       | Inr _ \<Rightarrow> Inr True)
   }"

text \<open>\<open>pool.Ping\<close>, for the readiness probe: a round trip without a statement.\<close>

definition Store_Ping :: "(err + unit) prog" where
  "Store_Ping = db_exec (\<lambda>now fresh d. (Inr (), d))"

lemmas users_repo_defs = UsersRepo_GetByID_def UsersRepo_GetByEmail_def UsersRepo_Create_def
  UsersRepo_UpdateProtectedKey_def UsersRepo_UpdateAuthCredentials_def UsersRepo_DeleteUser_def

lemmas items_repo_defs = ItemsRepo_Create_def ItemsRepo_Get_def ItemsRepo_List_def
  ItemsRepo_itemExists_def ItemsRepo_Update_def ItemsRepo_Delete_def

lemmas sessions_repo_defs = SessionsRepo_CreatePair_def SessionsRepo_GetByAccessHash_def
  SessionsRepo_GetByRefreshHash_def SessionsRepo_RotateTokens_def
  SessionsRepo_DeleteByAccessHash_def SessionsRepo_DeleteByRefreshHash_def
  SessionsRepo_DeleteAllForUser_def

lemmas mfa_repo_defs = MFARepo_EnableTOTP_def MFARepo_DisableTOTP_def MFARepo_GetTOTPStatus_def
  MFARepo_ReplaceRecoveryCodes_def MFARepo_ConsumeRecoveryCode_def MFARepo_CreateChallenge_def
  MFARepo_ConsumeChallenge_def MFARepo_CleanupExpiredChallenges_def

lemmas audit_repo_defs = AuditRepo_Append_def AuditRepo_ListByUser_def
  AuditRepo_CountRecentLoginFailures_def AuditRepo_RecordDeviceHash_def

end
