(* ===== verification/SessionManager.thy ===== *)
theory SessionManager
  imports Storage
begin

text \<open>
  \<open>internal/auth/session.go\<close>: \<open>Manager\<close>, which combines the rate limiters, the lockout
  tracker and the session repository.  The manager's in-memory state is \<open>w_auth\<close>; each method
  that consults a limiter or the tracker reads the clock once.
\<close>

definition rawTokenBytes :: nat where "rawTokenBytes = 32"
definition AccessCookieName :: string where "AccessCookieName = ''vault_access''"
definition RefreshCookieName :: string where "RefreshCookieName = ''vault_refresh''"
definition RefreshCookiePath :: string where "RefreshCookiePath = ''/api/auth/refresh''"

definition loginIPLimit :: int where "loginIPLimit = 10"
definition loginIPWindow :: duration where "loginIPWindow = 15 * Minute"
definition loginAccountLimit :: int where "loginAccountLimit = 5"
definition loginAccountWindow :: duration where "loginAccountWindow = 15 * Minute"
definition registerIPLimit :: int where "registerIPLimit = 5"
definition registerIPWindow :: duration where "registerIPWindow = Hour"

lemmas manager_consts = loginIPLimit_def loginIPWindow_def loginAccountLimit_def
  loginAccountWindow_def registerIPLimit_def registerIPWindow_def

definition NewManager :: "duration \<Rightarrow> duration \<Rightarrow> manager" where
  "NewManager accessTTL refreshTTL = \<lparr>
     m_loginIP = newRateLimiter loginIPLimit loginIPWindow,
     m_loginAcct = newRateLimiter loginAccountLimit loginAccountWindow,
     m_registerIP = newRateLimiter registerIPLimit registerIPWindow,
     m_lockout = newLockoutTracker, m_accessTTL = accessTTL, m_refreshTTL = refreshTTL\<rparr>"

subsection \<open>Limits and lockout\<close>

definition allow_with ::
  "(manager \<Rightarrow> rate_limiter) \<Rightarrow> ((rate_limiter \<Rightarrow> rate_limiter) \<Rightarrow> manager \<Rightarrow> manager) \<Rightarrow> string \<Rightarrow> bool prog" where
  "allow_with get upd key = do {
     now \<leftarrow> time_Now;
     lift_auth (\<lambda>m. let (ok, r) = RateLimiter_Allow now key (get m) in (ok, upd (\<lambda>_. r) m))
   }"

definition Manager_IsLoginLocked :: "string \<Rightarrow> bool prog" where
  "Manager_IsLoginLocked email = do {
     now \<leftarrow> time_Now;
     lift_auth (\<lambda>m. let (locked, t) = LockoutTracker_IsLocked now email (m_lockout m)
       in (locked, m\<lparr>m_lockout := t\<rparr>))
   }"

definition Manager_RecordLoginFailure :: "string \<Rightarrow> duration prog" where
  "Manager_RecordLoginFailure email = do {
     now \<leftarrow> time_Now;
     lift_auth (\<lambda>m. let (d, t) = LockoutTracker_RecordFailure now email (m_lockout m)
       in (d, m\<lparr>m_lockout := t\<rparr>))
   }"

definition Manager_CheckLoginLimit :: "string \<Rightarrow> string \<Rightarrow> bool prog" where
  "Manager_CheckLoginLimit ip email = do {
     ok \<leftarrow> allow_with m_loginIP m_loginIP_update ip;
     if ok then allow_with m_loginAcct m_loginAcct_update email else ret False
   }"

definition Manager_ResetLoginLimit :: "string \<Rightarrow> string \<Rightarrow> unit prog" where
  "Manager_ResetLoginLimit ip email =
     lift_auth (\<lambda>m. ((), m\<lparr>m_loginIP := RateLimiter_Reset ip (m_loginIP m),
        m_loginAcct := RateLimiter_Reset email (m_loginAcct m),
        m_lockout := LockoutTracker_Reset email (m_lockout m)\<rparr>))"

definition Manager_CheckRegisterLimit :: "string \<Rightarrow> bool prog" where
  "Manager_CheckRegisterLimit ip = allow_with m_registerIP m_registerIP_update ip"

subsection \<open>Tokens and sessions\<close>

definition generateToken :: "(err + string) prog" where
  "generateToken = do {
     r \<leftarrow> lift_rng (rand_Read rawTokenBytes);
     ret (map_ok hex_EncodeToString r)
   }"

definition hashToken :: "lib \<Rightarrow> string \<Rightarrow> bytes" where
  "hashToken l rawToken = sha256 l (to_bytes rawToken)"

definition Manager_CreateSessionPair :: "lib \<Rightarrow> uuid \<Rightarrow> (err + string \<times> string) prog" where
  "Manager_CreateSessionPair l uid =
     try_prog generateToken (Wrap ''generate access token'') (\<lambda>accessRaw.
     try_prog generateToken (Wrap ''generate refresh token'') (\<lambda>refreshRaw. do {
       now \<leftarrow> time_Now;
       m \<leftarrow> get_auth (\<lambda>m. m);
       try_prog (SessionsRepo_CreatePair uid (hashToken l accessRaw) (now + m_accessTTL m)
           (hashToken l refreshRaw) (now + m_refreshTTL m))
         (Wrap ''persist session'') (\<lambda>_. ret (Inr (accessRaw, refreshRaw)))
     }))"

definition Manager_ValidateAccess :: "lib \<Rightarrow> string \<Rightarrow> (err + Session) prog" where
  "Manager_ValidateAccess l accessRaw =
     try_prog (SessionsRepo_GetByAccessHash (hashToken l accessRaw))
       (\<lambda>e. if errors_Is e ErrNotFound then ErrSessionInvalid else Wrap ''look up session'' e)
       (\<lambda>sess. do {
          now \<leftarrow> time_Now;
          ret (if s_access_exp sess < now then Inl ErrSessionInvalid else Inr sess)
        })"

definition Manager_RefreshSession :: "lib \<Rightarrow> string \<Rightarrow> (err + string \<times> string) prog" where
  "Manager_RefreshSession l refreshRaw =
     try_prog (SessionsRepo_GetByRefreshHash (hashToken l refreshRaw))
       (\<lambda>e. if errors_Is e ErrNotFound then ErrSessionInvalid
            else Wrap ''look up refresh session'' e)
       (\<lambda>sess. do {
          now0 \<leftarrow> time_Now;
          if s_refresh_exp sess < now0 then ret (Inl ErrSessionInvalid)
          else
            try_prog generateToken (Wrap ''generate access token'') (\<lambda>newAccess.
            try_prog generateToken (Wrap ''generate refresh token'') (\<lambda>newRefresh. do {
              now \<leftarrow> time_Now;
              m \<leftarrow> get_auth (\<lambda>m. m);
              try_prog (SessionsRepo_RotateTokens (s_id sess) (hashToken l newAccess)
                  (now + m_accessTTL m) (hashToken l newRefresh) (now + m_refreshTTL m))
                (Wrap ''rotate session tokens'') (\<lambda>_. ret (Inr (newAccess, newRefresh)))
            }))
        })"

definition Manager_RevokeSession :: "lib \<Rightarrow> string \<Rightarrow> (err + unit) prog" where
  "Manager_RevokeSession l accessRaw =
     try_prog (SessionsRepo_DeleteByAccessHash (hashToken l accessRaw)) (Wrap ''revoke session'')
       (\<lambda>u. ret (Inr u))"

definition Manager_RevokeAllSessions :: "uuid \<Rightarrow> (err + unit) prog" where
  "Manager_RevokeAllSessions uid =
     try_prog (SessionsRepo_DeleteAllForUser uid) (Wrap ''revoke all sessions'') (\<lambda>u. ret (Inr u))"

lemmas limits_defs = allow_with_def Manager_IsLoginLocked_def Manager_RecordLoginFailure_def
  Manager_CheckLoginLimit_def Manager_ResetLoginLimit_def Manager_CheckRegisterLimit_def

lemmas manager_session_defs = Manager_CreateSessionPair_def Manager_ValidateAccess_def
  Manager_RefreshSession_def Manager_RevokeSession_def Manager_RevokeAllSessions_def
  generateToken_def

subsection \<open>A concrete world and request\<close>

text \<open>A freshly started server whose database always answers, for examples.\<close>

definition sample_event :: "nat \<Rightarrow> db_event" where
  "sample_event i = \<lparr>ev_others = (\<lambda>d. d), ev_trip = Served, ev_now = 1000 + int i,
     ev_uuid = UUID (of_nat (i + 100))\<rparr>"

definition sample_world :: "db \<Rightarrow> world" where
  "sample_world d = \<lparr>w_db = d, w_auth = NewManager (15 * Minute) (168 * Hour), w_alerts = NewTracker,
     w_notices = [], w_log = [], w_resp = fresh_response, w_kdf = 0, w_slept = 0,
     w_clock = (\<lambda>i. 1000 + int i), w_events = sample_event, w_rng = sample_rng\<rparr>"

definition sample_request :: "string \<Rightarrow> string \<Rightarrow> json \<Rightarrow> request" where
  "sample_request method path body = \<lparr>rq_method = method, rq_path = path, rq_remote = ''192.0.2.1:5000'',
     rq_header = (\<lambda>h. if h = ''X-Vault-CSRF'' then ''1'' else []), rq_cookies = [], rq_query = [],
     rq_body = Some (100, body), rq_limit = None, rq_path_id = [], cx_request_id = None,
     cx_user_agent = None, cx_user_id = None\<rparr>"

lemma sample_world_simps [simp]:
  "w_db (sample_world d) = d" "w_events (sample_world d) = sample_event"
  "w_clock (sample_world d) i = 1000 + int i" "w_rng (sample_world d) = sample_rng"
  "w_auth (sample_world d) = NewManager (15 * Minute) (168 * Hour)"
  "w_resp (sample_world d) = fresh_response" "w_kdf (sample_world d) = 0"
  "w_slept (sample_world d) = 0" "w_log (sample_world d) = []" "w_notices (sample_world d) = []"
  "w_alerts (sample_world d) = NewTracker"
  "ev_others (sample_event n) e = e" "ev_trip (sample_event n) = Served"
  "ev_now (sample_event n) = 1000 + int n" "ev_uuid (sample_event n) = UUID (of_nat (n + 100))"
  by (simp_all add: sample_world_def sample_event_def)

end
