(* ===== verification/Mfa.thy ===== *)
theory Mfa
  imports World
begin

text \<open>
  \<open>internal/mfa/totp.go\<close>: TOTP secrets and recovery codes.  The one-time-password algorithm
  is the external \<open>totp_Validate\<close>; the syntax check of the secret (Go's \<open>encoding/base32\<close>,
  with and without padding), the generation of the codes and their normalised hashes are
  written out.  The lemmas show that a generated code verifies however it is typed, and that
  nothing else does as long as SHA-256 does not collide.
\<close>

subsection \<open>\<open>base32\<close> acceptance\<close>

definition b32_char :: "char \<Rightarrow> bool" where
  "b32_char c = (c \<in> set ''ABCDEFGHIJKLMNOPQRSTUVWXYZ234567'')"

text \<open>
  Whether \<open>DecodeString\<close> accepts: eight characters at a time; a short last group needs its
  padding when the encoding has one.  An encoding without padding has the pad character
  \<open>byte(-1)\<close>.
\<close>

function b32_ok :: "char \<Rightarrow> bool \<Rightarrow> string \<Rightarrow> bool" where
  "b32_ok pc padded s =
     (if s = [] then True
      else let j = length (takeWhile b32_char (take 8 s))
           in if j = 8 then b32_ok pc padded (drop 8 s)
              else case drop j s of
                     [] \<Rightarrow> \<not> padded
                   | c # src \<Rightarrow> c = pc \<and> 2 \<le> j \<and> length src < 8 \<and> 7 \<le> length src + j \<and>
                       list_all (\<lambda>x. x = pc) (take (7 - j) src) \<and> j \<notin> {1, 3, 6})"
  by pat_completeness auto
termination
  by (relation "measure (\<lambda>(pc, padded, s). length s)") auto

declare b32_ok.simps [simp del]

definition base32_accepts :: "char \<Rightarrow> bool \<Rightarrow> string \<Rightarrow> bool" where
  "base32_accepts pc padded s = b32_ok pc padded (filter not_newline s)"

subsection \<open>TOTP\<close>

definition GenerateTOTPSecret :: "lib \<Rightarrow> string \<Rightarrow> string \<Rightarrow> (rng, err + string \<times> string) state" where
  "GenerateTOTPSecret l issuer accountName = do {
     r \<leftarrow> rand_Read 20;
     State_Monad.return (case r of
         Inl e \<Rightarrow> Inl (Wrap ''generate totp key'' e)
       | Inr bs \<Rightarrow> (case totp_Generate l issuer accountName bs of
             None \<Rightarrow> Inl (Wrap ''generate totp key'' (ErrText ''totp''))
           | Some (secret, url) \<Rightarrow> Inr (secret, url)))
   }"

definition totp_checkable :: "lib \<Rightarrow> string \<Rightarrow> string \<Rightarrow> bool" where
  "totp_checkable l secret code = (secret \<noteq> [] \<and> code \<noteq> [] \<and>
     (base32_accepts CHR ''='' True secret \<or> base32_accepts CHR 0xFF False secret))"

definition ValidateTOTP :: "lib \<Rightarrow> string \<Rightarrow> string \<Rightarrow> bool prog" where
  "ValidateTOTP l secret code =
     (let secret = TrimSpace l (ToUpper l secret); code = TrimSpace l code
      in if \<not> totp_checkable l secret code then ret False
         else do { now \<leftarrow> time_Now; ret (totp_Validate l now code secret) })"

subsection \<open>Recovery codes\<close>

definition recoveryCodeCount :: nat where "recoveryCodeCount = 10"

definition randomRecoveryCode :: "lib \<Rightarrow> (rng, err + string) state" where
  "randomRecoveryCode l = do {
     r \<leftarrow> rand_Read 4;
     State_Monad.return (map_ok (\<lambda>b. let raw = ToUpper l (hex_EncodeToString b)
        in take 4 raw @ ''-'' @ drop 4 raw) r)
   }"

definition HashRecoveryCode :: "lib \<Rightarrow> string \<Rightarrow> bytes" where
  "HashRecoveryCode l code =
     sha256 l (to_bytes (ToUpper l (filter (\<lambda>c. c \<noteq> CHR ''-'') (TrimSpace l code))))"

definition VerifyRecoveryCode :: "lib \<Rightarrow> string \<Rightarrow> bytes \<Rightarrow> bool" where
  "VerifyRecoveryCode l code storedHash =
     (ConstantTimeCompare (HashRecoveryCode l code) storedHash = 1)"

fun recovery_loop :: "lib \<Rightarrow> nat \<Rightarrow> (rng, err + string list \<times> bytes list) state" where
  "recovery_loop l 0 = State_Monad.return (Inr ([], []))"
| "recovery_loop l (Suc n) = do {
     c \<leftarrow> randomRecoveryCode l;
     case c of
       Inl e \<Rightarrow> State_Monad.return (Inl e)
     | Inr c \<Rightarrow> do {
         rest \<leftarrow> recovery_loop l n;
         State_Monad.return (map_ok (\<lambda>(codes, hashes). (c # codes, HashRecoveryCode l c # hashes)) rest)
       }
   }"

definition GenerateRecoveryCodes :: "lib \<Rightarrow> (rng, err + string list \<times> bytes list) state" where
  "GenerateRecoveryCodes l = recovery_loop l recoveryCodeCount"

subsection \<open>Normal form of a code\<close>

definition code_norm :: "lib \<Rightarrow> string \<Rightarrow> string" where
  "code_norm l code = ToUpper l (filter (\<lambda>c. c \<noteq> CHR ''-'') (TrimSpace l code))"

lemma Verify_iff: "VerifyRecoveryCode l code h \<longleftrightarrow> HashRecoveryCode l code = h"
  by (simp add: VerifyRecoveryCode_def ConstantTimeCompare_eq)

lemma Hash_norm: "HashRecoveryCode l code = sha256 l (to_bytes (code_norm l code))"
  by (simp add: HashRecoveryCode_def code_norm_def)

lemma filter_not_space: "\<forall>c \<in> set s. \<not> ascii_space c \<Longrightarrow> ascii_trim s = s"
proof -
  assume a: "\<forall>c \<in> set s. \<not> ascii_space c"
  then have "dropWhile ascii_space s = s" "dropWhile ascii_space (rev s) = rev s"
    by (auto intro!: dropWhile_hd_not simp: hd_rev)
  then show ?thesis by (simp add: ascii_trim_def)
qed

text \<open>The text of a code for given random bytes.\<close>

definition code_of :: "lib \<Rightarrow> bytes \<Rightarrow> string" where
  "code_of l b = (let raw = ToUpper l (hex_EncodeToString b) in take 4 raw @ ''-'' @ drop 4 raw)"

lemma hex_plain: "c \<in> set (hex_EncodeToString b) \<Longrightarrow>
   of_char c < (128 :: nat) \<and> \<not> ascii_space c \<and> \<not> ascii_space (ascii_upper c) \<and>
   c \<noteq> CHR ''-'' \<and> ascii_upper c \<noteq> CHR ''-'' \<and> ascii_lower c = c"
proof -
  assume "c \<in> set (hex_EncodeToString b)"
  then have "c \<in> set hex_digits" using set_hex by blast
  moreover have "list_all (\<lambda>c. of_char c < (128 :: nat) \<and> \<not> ascii_space c \<and>
      \<not> ascii_space (ascii_upper c) \<and> c \<noteq> CHR ''-'' \<and> ascii_upper c \<noteq> CHR ''-'' \<and> ascii_lower c = c)
      hex_digits"
    by code_simp
  ultimately show ?thesis by (simp add: list_all_iff)
qed

lemma ascii_hex [simp]: "ascii (hex_EncodeToString b)"
  using hex_plain by (auto simp: ascii_def list_all_iff)

lemma code_of_eq:
  "code_of l b = (let raw = map ascii_upper (hex_EncodeToString b) in take 4 raw @ ''-'' @ drop 4 raw)"
  by (simp add: code_of_def ToUpper_ascii)

lemma code_of_chars: "ascii (code_of l b) \<and> (\<forall>c \<in> set (code_of l b). \<not> ascii_space c)"
proof -
  have raw: "c \<in> set (map ascii_upper (hex_EncodeToString b))" if "c \<in> set (code_of l b)" "c \<noteq> CHR ''-''" for c
    using that by (auto simp: code_of_eq Let_def dest: in_set_takeD in_set_dropD)
  have dash: "of_char CHR ''-'' < (128 :: nat)" "\<not> ascii_space CHR ''-''" by code_simp+
  have "of_char c < (128 :: nat) \<and> \<not> ascii_space c" if "c \<in> set (code_of l b)" for c
  proof (cases "c = CHR ''-''")
    case True
    then show ?thesis using dash by simp
  next
    case False
    with raw [OF that] obtain x where x: "x \<in> set (hex_EncodeToString b)" "c = ascii_upper x" by auto
    moreover have "ascii (map ascii_upper (hex_EncodeToString b))" by simp
    ultimately have "of_char c < (128 :: nat)" by (auto simp: ascii_def list_all_iff)
    then show ?thesis using hex_plain x by blast
  qed
  then show ?thesis by (simp add: ascii_def list_all_iff)
qed

lemma ascii_filter: "ascii s \<Longrightarrow> ascii (filter P s)"
  by (auto simp: ascii_def list_all_iff)

lemma code_norm_ascii:
  "ascii s \<Longrightarrow> code_norm l s = map ascii_upper (filter (\<lambda>c. c \<noteq> CHR ''-'') (ascii_trim s))"
  by (simp add: code_norm_def TrimSpace_ascii ToUpper_ascii ascii_filter ascii_ascii_trim)

lemma dash_lower: "ascii_lower c = CHR ''-'' \<longleftrightarrow> c = CHR ''-''"
proof
  assume "ascii_lower c = CHR ''-''"
  then have "of_char (ascii_lower c) = (45 :: nat)" by simp
  then have "of_char c = (of_char CHR ''-'' :: nat)"
    by (auto simp: of_char_ascii_lower Let_def split: if_splits)
  then show "c = CHR ''-''" by (simp only: of_char_eq_iff)
qed (simp, code_simp)

text \<open>Typing variants of a code that the normal form ignores.\<close>

lemma code_norm_variants:
  assumes "ascii s" and "\<forall>c \<in> set s. \<not> ascii_space c" and "\<forall>c \<in> set u \<union> set v. ascii_space c"
  shows "code_norm l (u @ s @ v) = code_norm l s \<and>
     code_norm l (u @ map ascii_lower s @ v) = code_norm l s \<and>
     code_norm l (filter (\<lambda>c. c \<noteq> CHR ''-'') s) = code_norm l s"
proof -
  have a: "ascii u" "ascii v" using assms(3) ascii_spaces by simp_all
  have t: "ascii_trim s = s" "ascii_trim (map ascii_lower s) = map ascii_lower s"
    "ascii_trim (filter (\<lambda>c. c \<noteq> CHR ''-'') s) = filter (\<lambda>c. c \<noteq> CHR ''-'') s"
    using assms(2) by (auto intro!: filter_not_space)
  have "filter (\<lambda>c. c \<noteq> CHR ''-'') (map ascii_lower s) = map ascii_lower (filter (\<lambda>c. c \<noteq> CHR ''-'') s)"
    by (simp add: filter_map comp_def dash_lower)
  then show ?thesis
    using assms a t by (simp add: code_norm_ascii ascii_trim_padding ascii_filter comp_def)
qed

lemma code_norm_code_of: "code_norm l (code_of l b) = map ascii_upper (hex_EncodeToString b)"
proof -
  let ?raw = "map ascii_upper (hex_EncodeToString b)"
  have "\<forall>c \<in> set ?raw. c \<noteq> CHR ''-''" using hex_plain by auto
  then have "filter (\<lambda>c. c \<noteq> CHR ''-'') (take 4 ?raw) = take 4 ?raw"
    "filter (\<lambda>c. c \<noteq> CHR ''-'') (drop 4 ?raw) = drop 4 ?raw"
    by (meson filter_True in_set_takeD in_set_dropD)+
  then have "filter (\<lambda>c. c \<noteq> CHR ''-'') (code_of l b) = ?raw"
    by (simp add: code_of_eq Let_def)
  moreover have "ascii_trim (code_of l b) = code_of l b"
    using code_of_chars by (intro filter_not_space) auto
  ultimately show ?thesis
    using code_of_chars by (simp add: code_norm_ascii comp_def)
qed

lemma code_of_shape: "length b = 4 \<Longrightarrow> length (code_of l b) = 9 \<and> code_of l b ! 4 = CHR ''-''"
  by (simp add: code_of_eq Let_def nth_append)

subsection \<open>What \<open>GenerateRecoveryCodes\<close> returns\<close>

lemma randomRecoveryCode_Inr:
  "run_state (randomRecoveryCode l) g = (Inr c, g') \<Longrightarrow> \<exists>b. length b = 4 \<and> c = code_of l b"
proof -
  assume run: "run_state (randomRecoveryCode l) g = (Inr c, g')"
  obtain r g1 where r: "run_state (rand_Read 4) g = (r, g1)" by fastforce
  show ?thesis
  proof (cases r)
    case (Inl e)
    then show ?thesis using run r by (simp add: randomRecoveryCode_def)
  next
    case (Inr b)
    then have "length b = 4" using r rand_Read_Inr by blast
    then show ?thesis using run r Inr by (auto simp: randomRecoveryCode_def code_of_def)
  qed
qed

lemma recovery_loop_Inr:
  "run_state (recovery_loop l n) g = (Inr (codes, hashes), g') \<Longrightarrow>
   length codes = n \<and> hashes = map (HashRecoveryCode l) codes \<and>
   (\<forall>c \<in> set codes. \<exists>b. length b = 4 \<and> c = code_of l b)"
proof (induction n arbitrary: g codes hashes g')
  case 0
  then show ?case by simp
next
  case (Suc n)
  obtain c g1 where c: "run_state (randomRecoveryCode l) g = (c, g1)" by fastforce
  obtain rest g2 where rest: "run_state (recovery_loop l n) g1 = (rest, g2)" by fastforce
  from Suc.prems c rest obtain c' cs hs where "c = Inr c'" "rest = Inr (cs, hs)"
    "codes = c' # cs" "hashes = HashRecoveryCode l c' # hs"
    by (auto split: sum.splits prod.splits simp: map_ok_def)
  with Suc.IH [of g1 cs hs g2] rest c randomRecoveryCode_Inr show ?case by auto
qed

lemma GenerateRecoveryCodes_Inr:
  assumes "run_state (GenerateRecoveryCodes l) g = (Inr (codes, hashes), g')"
  shows "length codes = 10" and "hashes = map (HashRecoveryCode l) codes"
    and "c \<in> set codes \<Longrightarrow> \<exists>b. length b = 4 \<and> c = code_of l b"
  using recovery_loop_Inr [of l recoveryCodeCount g codes hashes g'] assms
  by (auto simp: GenerateRecoveryCodes_def recoveryCodeCount_def)

subsection \<open>Properties\<close>

text \<open>
  C35: recovery codes.  A successful generation gives ten codes of the form XXXX-XXXX, each
  with its hash; a code verifies against its hash as displayed, in lower case, without the
  dash and with white space around it; and, absent SHA-256 collisions, an input verifies
  against the hash of a code only if its normal form is the code's.
\<close>

theorem recovery_codes_verify:
  assumes run: "run_state (GenerateRecoveryCodes l) g = (Inr (codes, hashes), g')"
    and i: "i < 10" and pad: "\<forall>c \<in> set u \<union> set v. ascii_space c"
    and sha: "sha_injective_on l {to_bytes (code_norm l x), to_bytes (code_norm l (codes ! i))}"
  shows "length codes = 10 \<and> length hashes = 10 \<and>
     length (codes ! i) = 9 \<and> codes ! i ! 4 = CHR ''-'' \<and>
     VerifyRecoveryCode l (u @ (codes ! i) @ v) (hashes ! i) \<and>
     VerifyRecoveryCode l (u @ map ascii_lower (codes ! i) @ v) (hashes ! i) \<and>
     VerifyRecoveryCode l (filter (\<lambda>c. c \<noteq> CHR ''-'') (codes ! i)) (hashes ! i) \<and>
     (VerifyRecoveryCode l x (hashes ! i) \<longleftrightarrow> code_norm l x = code_norm l (codes ! i))"
proof -
  note gen = GenerateRecoveryCodes_Inr [OF run]
  have "codes ! i \<in> set codes" using gen(1) i by simp
  then obtain b where b: "length b = 4" "codes ! i = code_of l b" using gen(3) by blast
  have h: "hashes ! i = sha256 l (to_bytes (code_norm l (codes ! i)))"
    using gen(1,2) i by (simp add: Hash_norm)
  have "(sha256 l (to_bytes (code_norm l x)) = sha256 l (to_bytes (code_norm l (codes ! i)))) =
      (code_norm l x = code_norm l (codes ! i))" (is "?lhs = ?rhs")
  proof
    assume ?lhs
    from sha_injectiveD [OF sha this] show ?rhs by (rule inj_to_bytes)
  qed simp
  moreover have "code_norm l (u @ (codes ! i) @ v) = code_norm l (codes ! i) \<and>
      code_norm l (u @ map ascii_lower (codes ! i) @ v) = code_norm l (codes ! i) \<and>
      code_norm l (filter (\<lambda>c. c \<noteq> CHR ''-'') (codes ! i)) = code_norm l (codes ! i)"
    using code_of_chars [of l b] by (intro code_norm_variants pad) (simp_all add: b)
  moreover have "length (codes ! i) = 9 \<and> codes ! i ! 4 = CHR ''-''"
    using code_of_shape [OF b(1), of l] by (simp add: b)
  moreover have "length hashes = 10" using gen(1,2) by simp
  ultimately show ?thesis
    using gen(1) unfolding Verify_iff h by (simp add: Hash_norm)
qed

theorem recovery_codes_verify_witness:
  "\<exists>codes hashes g'. run_state (GenerateRecoveryCodes sample_lib) sample_rng = (Inr (codes, hashes), g') \<and>
     codes ! 2 = ''0809-0A0B'' \<and> VerifyRecoveryCode sample_lib '' 0809-0a0b '' (hashes ! 2)"
proof -
  have "map_ok (\<lambda>r. fst r ! 2) (fst (run_state (GenerateRecoveryCodes sample_lib) sample_rng)) =
      Inr ''0809-0A0B''"
    by code_simp
  then obtain codes hashes g' where
    run: "run_state (GenerateRecoveryCodes sample_lib) sample_rng = (Inr (codes, hashes), g')"
    and c: "codes ! 2 = ''0809-0A0B''"
    by (cases "run_state (GenerateRecoveryCodes sample_lib) sample_rng"; cases "fst (run_state (GenerateRecoveryCodes sample_lib) sample_rng)") auto
  have sp: "\<forall>c \<in> set '' '' \<union> set '' ''. ascii_space c" by code_simp
  have "code_norm sample_lib (codes ! 2) = code_norm sample_lib (codes ! 2)" by simp
  then have "sha_injective_on sample_lib {to_bytes (code_norm sample_lib (codes ! 2)),
      to_bytes (code_norm sample_lib (codes ! 2))}"
    by (simp add: sha_injective_on_def)
  note recovery_codes_verify [OF run _ sp this]
  moreover have "map ascii_lower ''0809-0A0B'' = ''0809-0a0b''" by code_simp
  ultimately have "VerifyRecoveryCode sample_lib '' 0809-0a0b '' (hashes ! 2)"
    using c by simp
  with run c show ?thesis by blast
qed

end
