(* ===== verification/Api.thy ===== *)
theory Api
  imports SessionManager Mfa
begin

text \<open>
  What the handlers of \<open>internal/api\<close> share: the request types of \<open>gen/api.gen.go\<close> and their
  decoding, JSON responses, cookies (\<open>cookies.go\<close>), query parameters (\<open>helpers.go\<close>), and
  audit recording (\<open>audit.go\<close>).  Handlers are programs that write to the response
  \<open>w_resp\<close>; \<open>return\<close> after a write is the end of a branch.
\<close>

subsection \<open>Responses\<close>

definition writeJSON :: "nat \<Rightarrow> json \<Rightarrow> unit prog" where
  "writeJSON status v = respond (rs_json status v)"

definition WriteHeader :: "nat \<Rightarrow> unit prog" where
  "WriteHeader code = respond (rs_write_header code)"

definition gen_Error :: "string \<Rightarrow> json" where
  "gen_Error msg = JObj [(''error'', JStr msg)]"

definition logInternalError :: "request \<Rightarrow> string \<Rightarrow> err \<Rightarrow> unit prog" where
  "logInternalError r op e = log_it (LogInternal op e (cx_request_id r))"

text \<open>The log-and-answer-500 branch the handlers repeat.\<close>

definition fail500 :: "request \<Rightarrow> string \<Rightarrow> err \<Rightarrow> string \<Rightarrow> unit prog" where
  "fail500 r op e msg = do { logInternalError r op e; writeJSON 500 (gen_Error msg) }"

abbreviation internal :: string where "internal \<equiv> ''internal server error''"

text \<open>\<open>int(d.Seconds())\<close>: truncation towards zero.\<close>

definition max_age :: "duration \<Rightarrow> int" where
  "max_age d = sgn d * (\<bar>d\<bar> div Second)"

definition auth_cookie :: "string \<Rightarrow> string \<Rightarrow> string \<Rightarrow> int \<Rightarrow> cookie" where
  "auth_cookie name val path age = \<lparr>ck_name = name, ck_value = val, ck_path = path,
     ck_max_age = age, ck_http_only = True, ck_secure = True, ck_same_site = SameSiteStrict\<rparr>"

definition setAuthCookies :: "string \<Rightarrow> string \<Rightarrow> duration \<Rightarrow> duration \<Rightarrow> unit prog" where
  "setAuthCookies accessRaw refreshRaw accessTTL refreshTTL = do {
     respond (rs_set_cookie (auth_cookie AccessCookieName accessRaw ''/'' (max_age accessTTL)));
     respond (rs_set_cookie (auth_cookie RefreshCookieName refreshRaw RefreshCookiePath (max_age refreshTTL)))
   }"

definition clearAuthCookies :: "unit prog" where
  "clearAuthCookies = do {
     respond (rs_set_cookie (auth_cookie AccessCookieName [] ''/'' (- 1)));
     respond (rs_set_cookie (auth_cookie RefreshCookieName [] RefreshCookiePath (- 1)))
   }"

subsection \<open>Decoding requests\<close>

definition decodeJSON :: "lib \<Rightarrow> 'a fields \<Rightarrow> 'a \<Rightarrow> request \<Rightarrow> 'a option" where
  "decodeJSON l fs zero r =
     (case rq_body r of
        None \<Rightarrow> None
      | Some (offset, j) \<Rightarrow>
          if (case rq_limit r of None \<Rightarrow> False | Some n \<Rightarrow> n < offset) then None
          else decode_struct l True fs j zero)"

abbreviation bad_body :: string where "bad_body \<equiv> ''invalid request body''"

text \<open>\<open>None\<close> is a nil error.\<close>

definition validateCiphertext :: "string \<Rightarrow> string option" where
  "validateCiphertext ct =
     (if ct = [] then Some ''ciphertext must not be empty''
      else if base64_decode ct = None
      then Some ''ciphertext must be valid base64 (standard, padded)''
      else None)"

definition decode_auth_hash :: "string \<Rightarrow> bytes option" where
  "decode_auth_hash s =
     (case base64_decode s of None \<Rightarrow> None | Some b \<Rightarrow> if length b = 0 then None else Some b)"

definition NewItemItemType_Valid :: "string \<Rightarrow> bool" where
  "NewItemItemType_Valid t = (t = ''card'' \<or> t = ''identity'' \<or> t = ''login'' \<or> t = ''note'')"

definition UpdateItemItemType_Valid :: "string \<Rightarrow> bool" where
  "UpdateItemItemType_Valid t = (t = ''card'' \<or> t = ''identity'' \<or> t = ''login'' \<or> t = ''note'')"

record RegisterRequest =
  rr_auth_hash :: string
  rr_email :: string
  rr_kdf :: gen_KDFParams
  rr_psk :: string

definition zero_RegisterRequest :: RegisterRequest where
  "zero_RegisterRequest = \<lparr>rr_auth_hash = [], rr_email = [], rr_kdf = zero_gen_KDFParams, rr_psk = []\<rparr>"

definition RegisterRequest_fields :: "lib \<Rightarrow> RegisterRequest fields" where
  "RegisterRequest_fields l =
     [(''auth_hash'', dec_string (\<lambda>s q. q\<lparr>rr_auth_hash := s\<rparr>)),
      (''email'', dec_custom (email_Unmarshal l) (\<lambda>s q. q\<lparr>rr_email := s\<rparr>)),
      (''kdf_params'', dec_nested l True gen_KDFParams_fields rr_kdf (\<lambda>k q. q\<lparr>rr_kdf := k\<rparr>)),
      (''protected_symmetric_key'', dec_string (\<lambda>s q. q\<lparr>rr_psk := s\<rparr>))]"

record LoginRequest =
  lr_auth_hash :: string
  lr_email :: string

definition zero_LoginRequest :: LoginRequest where
  "zero_LoginRequest = \<lparr>lr_auth_hash = [], lr_email = []\<rparr>"

definition LoginRequest_fields :: "lib \<Rightarrow> LoginRequest fields" where
  "LoginRequest_fields l =
     [(''auth_hash'', dec_string (\<lambda>s q. q\<lparr>lr_auth_hash := s\<rparr>)),
      (''email'', dec_custom (email_Unmarshal l) (\<lambda>s q. q\<lparr>lr_email := s\<rparr>))]"

record LoginMfaRequest =
  lm_token :: string
  lm_recovery :: "string option"
  lm_code :: "string option"
  lm_secret :: "string option"

definition zero_LoginMfaRequest :: LoginMfaRequest where
  "zero_LoginMfaRequest = \<lparr>lm_token = [], lm_recovery = None, lm_code = None, lm_secret = None\<rparr>"

definition LoginMfaRequest_fields :: "LoginMfaRequest fields" where
  "LoginMfaRequest_fields =
     [(''mfa_token'', dec_string (\<lambda>s q. q\<lparr>lm_token := s\<rparr>)),
      (''recovery_code'', dec_string_ptr (\<lambda>s q. q\<lparr>lm_recovery := s\<rparr>)),
      (''totp_code'', dec_string_ptr (\<lambda>s q. q\<lparr>lm_code := s\<rparr>)),
      (''totp_secret'', dec_string_ptr (\<lambda>s q. q\<lparr>lm_secret := s\<rparr>))]"

record Enroll2faRequest =
  en_ptotp :: string
  en_code :: string
  en_secret :: string

definition zero_Enroll2faRequest :: Enroll2faRequest where
  "zero_Enroll2faRequest = \<lparr>en_ptotp = [], en_code = [], en_secret = []\<rparr>"

definition Enroll2faRequest_fields :: "Enroll2faRequest fields" where
  "Enroll2faRequest_fields =
     [(''protected_totp_secret'', dec_string (\<lambda>s q. q\<lparr>en_ptotp := s\<rparr>)),
      (''totp_code'', dec_string (\<lambda>s q. q\<lparr>en_code := s\<rparr>)),
      (''totp_secret'', dec_string (\<lambda>s q. q\<lparr>en_secret := s\<rparr>))]"

record Disable2faRequest =
  di_recovery :: "string option"
  di_code :: "string option"
  di_secret :: "string option"

definition zero_Disable2faRequest :: Disable2faRequest where
  "zero_Disable2faRequest = \<lparr>di_recovery = None, di_code = None, di_secret = None\<rparr>"

definition Disable2faRequest_fields :: "Disable2faRequest fields" where
  "Disable2faRequest_fields =
     [(''recovery_code'', dec_string_ptr (\<lambda>s q. q\<lparr>di_recovery := s\<rparr>)),
      (''totp_code'', dec_string_ptr (\<lambda>s q. q\<lparr>di_code := s\<rparr>)),
      (''totp_secret'', dec_string_ptr (\<lambda>s q. q\<lparr>di_secret := s\<rparr>))]"

record RegenerateRequest =
  rg_code :: string
  rg_secret :: string

definition zero_RegenerateRequest :: RegenerateRequest where
  "zero_RegenerateRequest = \<lparr>rg_code = [], rg_secret = []\<rparr>"

definition RegenerateRequest_fields :: "RegenerateRequest fields" where
  "RegenerateRequest_fields =
     [(''totp_code'', dec_string (\<lambda>s q. q\<lparr>rg_code := s\<rparr>)),
      (''totp_secret'', dec_string (\<lambda>s q. q\<lparr>rg_secret := s\<rparr>))]"

record NewItem =
  ni_ciphertext :: string
  ni_type :: string

definition zero_NewItem :: NewItem where
  "zero_NewItem = \<lparr>ni_ciphertext = [], ni_type = []\<rparr>"

definition NewItem_fields :: "NewItem fields" where
  "NewItem_fields =
     [(''ciphertext'', dec_string (\<lambda>s q. q\<lparr>ni_ciphertext := s\<rparr>)),
      (''item_type'', dec_string (\<lambda>s q. q\<lparr>ni_type := s\<rparr>))]"

record UpdateItemRequest =
  ui_ciphertext :: string
  ui_revision :: int
  ui_type :: "string option"

definition zero_UpdateItemRequest :: UpdateItemRequest where
  "zero_UpdateItemRequest = \<lparr>ui_ciphertext = [], ui_revision = 0, ui_type = None\<rparr>"

definition UpdateItemRequest_fields :: "UpdateItemRequest fields" where
  "UpdateItemRequest_fields =
     [(''ciphertext'', dec_string (\<lambda>s q. q\<lparr>ui_ciphertext := s\<rparr>)),
      (''current_revision'', dec_go_int (\<lambda>n q. q\<lparr>ui_revision := n\<rparr>)),
      (''item_type'', dec_string_ptr (\<lambda>s q. q\<lparr>ui_type := s\<rparr>))]"

record UpdateKeyRequest =
  uk_auth_hash :: string
  uk_kdf :: gen_KDFParams
  uk_psk :: string

definition zero_UpdateKeyRequest :: UpdateKeyRequest where
  "zero_UpdateKeyRequest = \<lparr>uk_auth_hash = [], uk_kdf = zero_gen_KDFParams, uk_psk = []\<rparr>"

definition UpdateKeyRequest_fields :: "lib \<Rightarrow> UpdateKeyRequest fields" where
  "UpdateKeyRequest_fields l =
     [(''auth_hash'', dec_string (\<lambda>s q. q\<lparr>uk_auth_hash := s\<rparr>)),
      (''kdf_params'', dec_nested l True gen_KDFParams_fields uk_kdf (\<lambda>k q. q\<lparr>uk_kdf := k\<rparr>)),
      (''protected_symmetric_key'', dec_string (\<lambda>s q. q\<lparr>uk_psk := s\<rparr>))]"

subsection \<open>Response types\<close>

text \<open>
  \<open>uuid.String\<close>.  A time stamp is printed as RFC 3339 text, which no code under \<open>src/\<close> reads
  back; the model keeps its number.
\<close>

definition uuid_String :: "uuid \<Rightarrow> string" where
  "uuid_String u =
     (let h = hex_EncodeToString (map (\<lambda>i. of_nat (unat (uuid_bits u) div 256 ^ (15 - i))) [0..<16])
      in take 8 h @ ''-'' @ take 4 (drop 8 h) @ ''-'' @ take 4 (drop 12 h) @ ''-'' @
         take 4 (drop 16 h) @ ''-'' @ drop 20 h)"

definition json_uuid :: "uuid \<Rightarrow> json" where "json_uuid u = JStr (uuid_String u)"
definition json_time :: "time \<Rightarrow> json" where "json_time t = JNum t"

text \<open>A pointer field with \<open>omitempty\<close>.\<close>

definition opt_field :: "string \<Rightarrow> ('a \<Rightarrow> json) \<Rightarrow> 'a option \<Rightarrow> (string \<times> json) list" where
  "opt_field k f x = (case x of None \<Rightarrow> [] | Some v \<Rightarrow> [(k, f v)])"

definition storageItemToGen :: "VaultItem \<Rightarrow> json" where
  "storageItemToGen it = JObj [(''ciphertext'', JStr (v_ciphertext it)), (''id'', json_uuid (v_id it)),
     (''item_type'', JStr (v_type it)), (''revision'', JNum (v_revision it)),
     (''updated_at'', json_time (v_updated it))]"

definition LoginResponse ::
  "gen_KDFParams \<Rightarrow> bool option \<Rightarrow> string option \<Rightarrow> string \<Rightarrow> string option \<Rightarrow> json" where
  "LoginResponse kdf mfaRequired mfaToken psk ptotp = JObj (
     (''kdf_params'', gen_KDFParams_json kdf) # opt_field ''mfa_required'' JBool mfaRequired @
     opt_field ''mfa_token'' JStr mfaToken @ (''protected_symmetric_key'', JStr psk) #
     opt_field ''protected_totp_secret'' JStr ptotp)"

definition SyncResponse ::
  "json list \<Rightarrow> gen_KDFParams \<Rightarrow> string \<Rightarrow> string option \<Rightarrow> bool \<Rightarrow> json" where
  "SyncResponse its kdf psk ptotp totp = JObj (
     [(''items'', JArr its), (''kdf_params'', gen_KDFParams_json kdf),
      (''protected_symmetric_key'', JStr psk)] @
     opt_field ''protected_totp_secret'' JStr ptotp @ [(''totp_enabled'', JBool totp)])"

definition RecoveryCodesResponse :: "string list \<Rightarrow> json" where
  "RecoveryCodesResponse codes = JObj [(''recovery_codes'', JArr (map JStr codes))]"

subsection \<open>Query parameters\<close>

fun parse_int_loop :: "string \<Rightarrow> 64 word \<Rightarrow> 64 word option" where
  "parse_int_loop [] n = Some n"
| "parse_int_loop (c # cs) n =
     (if of_char c < (48 :: nat) \<or> of_char c > (57 :: nat) then None
      else parse_int_loop cs (n * 10 + of_nat (of_char c - 48)))"

definition parseIntParam :: "string \<Rightarrow> int option" where
  "parseIntParam s = map_option sint (parse_int_loop s 0)"

subsection \<open>Audit events\<close>

definition EventLoginSuccess :: string where "EventLoginSuccess = ''login_success''"
definition EventLoginFailure :: string where "EventLoginFailure = ''login_failure''"
definition EventMFARequired :: string where "EventMFARequired = ''mfa_required''"
definition EventMFASuccess :: string where "EventMFASuccess = ''mfa_success''"
definition EventMFAFailure :: string where "EventMFAFailure = ''mfa_failure''"
definition EventLogout :: string where "EventLogout = ''logout''"
definition EventRegister :: string where "EventRegister = ''register''"
definition EventUserDelete :: string where "EventUserDelete = ''user_delete''"
definition EventKeyRotation :: string where "EventKeyRotation = ''key_rotation''"
definition EventItemCreate :: string where "EventItemCreate = ''item_create''"
definition EventItemUpdate :: string where "EventItemUpdate = ''item_update''"
definition EventItemDelete :: string where "EventItemDelete = ''item_delete''"
definition Event2FAEnroll :: string where "Event2FAEnroll = ''2fa_enroll''"
definition Event2FADisable :: string where "Event2FADisable = ''2fa_disable''"
definition EventRecoveryRegen :: string where "EventRecoveryRegen = ''recovery_codes_regen''"

lemmas event_defs = EventLoginSuccess_def EventLoginFailure_def EventMFARequired_def
  EventMFASuccess_def EventMFAFailure_def EventLogout_def EventRegister_def EventUserDelete_def
  EventKeyRotation_def EventItemCreate_def EventItemUpdate_def EventItemDelete_def
  Event2FAEnroll_def Event2FADisable_def EventRecoveryRegen_def

definition userAgentFromCtx :: "request \<Rightarrow> string" where
  "userAgentFromCtx r = (case cx_user_agent r of None \<Rightarrow> [] | Some ua \<Rightarrow> ua)"

text \<open>A nil \<open>meta\<close> is marshalled as \<open>null\<close>, which is not an empty message.\<close>

definition recordEvent ::
  "lib \<Rightarrow> request \<Rightarrow> uuid option \<Rightarrow> string \<Rightarrow> uuid option \<Rightarrow> json \<Rightarrow> unit prog" where
  "recordEvent l r userID eventType resourceID meta =
     (let ua = userAgentFromCtx r in do {
        res \<leftarrow> AuditRepo_Append userID eventType (net_ParseIP l (clientIP r)) ua resourceID (Some meta);
        (case res of Inl e \<Rightarrow> log_it (LogAuditFailed eventType e) | Inr _ \<Rightarrow> ret ());
        case userID of
          None \<Rightarrow> ret ()
        | Some uid \<Rightarrow> do {
            (if eventType = EventLoginFailure
             then do {
               now1 \<leftarrow> time_Now;
               now2 \<leftarrow> time_Now;
               lift_alerts (Tracker_RecordLoginFailure now1 now2 uid (clientIP r))
             } else ret ());
            (if eventType = EventLoginSuccess
             then do {
               lift_alerts (\<lambda>t. ([], Tracker_ResetFailures uid t));
               let h = HashUserAgent (sha256 l) ua;
               if h \<noteq> []
               then do {
                 isNew \<leftarrow> AuditRepo_RecordDeviceHash uid h;
                 if isNew = Inr True then lift_alerts (\<lambda>t. ([NewDevice uid ua], t)) else ret ()
               } else ret ()
             } else ret ())
          }
      })"

end
