(* ===== verification/Handlers.thy ===== *)
theory Handlers
  imports Api
begin

text \<open>
  \<open>internal/api/handlers.go\<close> and \<open>handlers_phase5.go\<close>: one program per handler, with the
  checks, early returns, effects and audit events of the source in their order.
\<close>

datatype outcome = Done | Panicked string

definition mfaChallengeTTL :: duration where "mfaChallengeTTL = 5 * Minute"

definition defaultGenKDFParams :: gen_KDFParams where
  "defaultGenKDFParams = (let p = DefaultKDFParams in
     \<lparr>kp_iterations = uint (kdf_Iterations p), kp_memory_kib = uint (kdf_MemoryKiB p),
      kp_parallelism = uint (kdf_Parallelism p), kp_type = kdf_Type p,
      kp_version = uint (kdf_Version p)\<rparr>)"

text \<open>\<open>json.Unmarshal(user.KDFParams, ...)\<close> as a fallible step.\<close>

definition user_kdf :: "lib \<Rightarrow> User \<Rightarrow> err + gen_KDFParams" where
  "user_kdf l u = (case gen_KDFParams_Unmarshal l (u_kdf u) of
     None \<Rightarrow> Inl (ErrText ''json: cannot unmarshal'') | Some k \<Rightarrow> Inr k)"

text \<open>\<open>salt, _ := crypto.NewServerSalt()\<close> and one discarded derivation: the dummy work.\<close>

definition dummy_work :: "lib \<Rightarrow> bytes \<Rightarrow> unit prog" where
  "dummy_work l h = do {
     salt \<leftarrow> lift_rng NewServerSalt;
     server_hash l h (case salt of Inl _ \<Rightarrow> [] | Inr s \<Rightarrow> s);
     ret ()
   }"

subsection \<open>Registration and login\<close>

definition PostRegister :: "lib \<Rightarrow> request \<Rightarrow> unit prog" where
  "PostRegister l r = do {
     ok \<leftarrow> Manager_CheckRegisterLimit (clientIP r);
     if \<not> ok then writeJSON 429 (gen_Error ''too many registration attempts; try again later'')
     else case decodeJSON l (RegisterRequest_fields l) zero_RegisterRequest r of
       None \<Rightarrow> writeJSON 400 (gen_Error bad_body)
     | Some body \<Rightarrow>
        (let email = NormalizeEmail l (rr_email body) in
         if email = [] then writeJSON 400 (gen_Error ''email must not be empty'')
         else case decode_auth_hash (rr_auth_hash body) of
           None \<Rightarrow> writeJSON 400 (gen_Error ''auth_hash must be valid base64'')
         | Some authHash \<Rightarrow>
            (case validateCiphertext (rr_psk body) of
               Some msg \<Rightarrow> writeJSON 400 (gen_Error (''protected_symmetric_key: '' @ msg))
             | None \<Rightarrow> do {
                 salt \<leftarrow> lift_rng NewServerSalt;
                 case salt of
                   Inl e \<Rightarrow> fail500 r ''register: new salt'' e internal
                 | Inr salt \<Rightarrow> do {
                     h \<leftarrow> server_hash l authHash salt;
                     case h of
                       Inl e \<Rightarrow> fail500 r ''register: derive server hash'' e internal
                     | Inr serverHash \<Rightarrow> do {
                         res \<leftarrow> UsersRepo_Create email (gen_KDFParams_json (rr_kdf body)) serverHash salt
                                  (rr_psk body);
                         case res of
                           Inl e \<Rightarrow>
                             if errors_AsPg e = Some ''23505''
                             then do { log_it (LogDuplicate (cx_request_id r)); WriteHeader 201 }
                             else fail500 r ''register: create user'' e internal
                         | Inr _ \<Rightarrow> do {
                             WriteHeader 201;
                             recordEvent l r None EventRegister None (JObj [(''outcome'', JStr ''created'')])
                           }
                       }
                   }
               }))
   }"

definition GetLoginKdfParams :: "lib \<Rightarrow> request \<Rightarrow> string \<Rightarrow> unit prog" where
  "GetLoginKdfParams l r rawEmail =
     (let email = NormalizeEmail l rawEmail in
      if email = [] then writeJSON 400 (gen_Error ''email must not be empty'')
      else do {
        res \<leftarrow> UsersRepo_GetByEmail email;
        case res of
          Inl e \<Rightarrow>
            if errors_Is e ErrNotFound
            then do {
              dummy_work l (replicate 32 0);
              writeJSON 200 (JObj [(''kdf_params'', gen_KDFParams_json defaultGenKDFParams)])
            }
            else fail500 r ''login kdf-params: get user'' e internal
        | Inr user \<Rightarrow>
            (case user_kdf l user of
               Inl e \<Rightarrow> fail500 r ''login kdf-params: unmarshal kdf_params'' e internal
             | Inr kdf \<Rightarrow> writeJSON 200 (JObj [(''kdf_params'', gen_KDFParams_json kdf)]))
      })"

definition getLoginKdfParams :: "lib \<Rightarrow> request \<Rightarrow> unit prog" where
  "getLoginKdfParams l r =
     (let email = Query_Get ''email'' r in
      if email = [] then writeJSON 400 (gen_Error ''email query parameter is required'')
      else GetLoginKdfParams l r email)"

definition authGenerateToken :: "(err + string) prog" where
  "authGenerateToken = do {
     r \<leftarrow> lift_rng (rand_Read 32);
     ret (map_ok hex_EncodeToString r)
   }"

definition createMFAToken :: "lib \<Rightarrow> uuid \<Rightarrow> (err + string) prog" where
  "createMFAToken l uid =
     try_prog authGenerateToken (\<lambda>e. e) (\<lambda>raw. do {
       now \<leftarrow> time_Now;
       try_prog (MFARepo_CreateChallenge uid (sha256 l (to_bytes raw)) (now + mfaChallengeTTL)) (\<lambda>e. e)
         (\<lambda>_. ret (Inr raw))
     })"

definition validateMFAToken :: "lib \<Rightarrow> string \<Rightarrow> (err + uuid) prog" where
  "validateMFAToken l token = MFARepo_ConsumeChallenge (sha256 l (to_bytes token))"

definition completeLogin :: "lib \<Rightarrow> request \<Rightarrow> User \<Rightarrow> unit prog" where
  "completeLogin l r user = do {
     pair \<leftarrow> Manager_CreateSessionPair l (u_id user);
     case pair of
       Inl e \<Rightarrow> fail500 r ''login: create session'' e internal
     | Inr (accessRaw, refreshRaw) \<Rightarrow> do {
         m \<leftarrow> get_auth (\<lambda>m. m);
         setAuthCookies accessRaw refreshRaw (m_accessTTL m) (m_refreshTTL m);
         case user_kdf l user of
           Inl e \<Rightarrow> fail500 r ''login: unmarshal kdf_params'' e internal
         | Inr kdf \<Rightarrow> do {
             writeJSON 200 (LoginResponse kdf None None (u_psk user) None);
             recordEvent l r (Some (u_id user)) EventLoginSuccess None JNull
           }
       }
   }"

text \<open>The branch of a wrong password or an unknown account: count, back off, 401.\<close>

definition reject_login :: "string \<Rightarrow> unit prog" where
  "reject_login email = do {
     d \<leftarrow> Manager_RecordLoginFailure email;
     (if 0 < d then time_Sleep d else ret ());
     writeJSON 401 (gen_Error ''invalid credentials'')
   }"

text \<open>The answer to a correct password on an account with 2FA.\<close>

definition challenge_login :: "lib \<Rightarrow> request \<Rightarrow> User \<Rightarrow> unit prog" where
  "challenge_login l r user = do {
     token \<leftarrow> createMFAToken l (u_id user);
     case token of
       Inl e \<Rightarrow> fail500 r ''login: mfa challenge'' e internal
     | Inr token \<Rightarrow> do {
         recordEvent l r (Some (u_id user)) EventMFARequired None JNull;
         case user_kdf l user of
           Inl e \<Rightarrow> fail500 r ''login: unmarshal kdf_params'' e internal
         | Inr kdf \<Rightarrow>
             writeJSON 200 (LoginResponse kdf (Some True) (Some token) (u_psk user)
               (Some (derefString (u_ptotp user))))
       }
   }"

text \<open>The rest of \<open>PostLogin\<close> once the account has been found.\<close>

definition login_known :: "lib \<Rightarrow> request \<Rightarrow> string \<Rightarrow> bytes \<Rightarrow> User \<Rightarrow> unit prog" where
  "login_known l r email clientAuthHash user = do {
     cand \<leftarrow> server_hash l clientAuthHash (u_auth_salt user);
     case cand of
       Inl e \<Rightarrow> fail500 r ''login: derive candidate hash'' e internal
     | Inr candidate \<Rightarrow>
         if ConstantTimeCompare candidate (u_auth_hash user) \<noteq> 1
         then do {
           recordEvent l r (Some (u_id user)) EventLoginFailure None
             (JObj [(''reason'', JStr ''invalid_credentials'')]);
           reject_login email
         }
         else do {
           Manager_ResetLoginLimit (clientIP r) email;
           if u_totp_enabled user then challenge_login l r user
           else completeLogin l r user
         }
   }"

definition PostLogin :: "lib \<Rightarrow> request \<Rightarrow> unit prog" where
  "PostLogin l r =
     (case decodeJSON l (LoginRequest_fields l) zero_LoginRequest r of
        None \<Rightarrow> writeJSON 400 (gen_Error bad_body)
      | Some body \<Rightarrow>
         (let email = NormalizeEmail l (lr_email body) in do {
            locked \<leftarrow> Manager_IsLoginLocked email;
            blocked \<leftarrow> (if locked then ret True
              else do { ok \<leftarrow> Manager_CheckLoginLimit (clientIP r) email; ret (\<not> ok) });
            if blocked then writeJSON 429 (gen_Error ''too many login attempts; try again later'')
            else case decode_auth_hash (lr_auth_hash body) of
              None \<Rightarrow> writeJSON 400 (gen_Error ''auth_hash must be valid base64'')
            | Some clientAuthHash \<Rightarrow> do {
                res \<leftarrow> UsersRepo_GetByEmail email;
                case res of
                  Inl e \<Rightarrow>
                    if errors_Is e ErrNotFound
                    then do { dummy_work l clientAuthHash; reject_login email }
                    else fail500 r ''login: get user'' e internal
                | Inr user \<Rightarrow> login_known l r email clientAuthHash user
              }
          }))"

text \<open>The second factor of \<open>PostLoginMfa\<close>: \<open>None\<close> when neither factor is given.\<close>

definition check_second_factor ::
  "lib \<Rightarrow> uuid \<Rightarrow> LoginMfaRequest \<Rightarrow> (err + bool) prog option" where
  "check_second_factor l uid body =
     (case lm_recovery body of
        Some (c # cs) \<Rightarrow> Some (MFARepo_ConsumeRecoveryCode uid (VerifyRecoveryCode l (c # cs)))
      | _ \<Rightarrow> (case (lm_code body, lm_secret body) of
                (Some code, Some secret) \<Rightarrow> Some (do { ok \<leftarrow> ValidateTOTP l secret code; ret (Inr ok) })
              | _ \<Rightarrow> None))"

definition PostLoginMfa :: "lib \<Rightarrow> request \<Rightarrow> unit prog" where
  "PostLoginMfa l r =
     (case decodeJSON l LoginMfaRequest_fields zero_LoginMfaRequest r of
        None \<Rightarrow> writeJSON 400 (gen_Error bad_body)
      | Some body \<Rightarrow>
         if lm_token body = [] then writeJSON 400 (gen_Error ''mfa_token is required'')
         else do {
           who \<leftarrow> validateMFAToken l (lm_token body);
           case who of
             Inl e \<Rightarrow>
               if errors_Is e ErrNotFound
               then writeJSON 401 (gen_Error ''invalid or expired MFA challenge'')
               else fail500 r ''login mfa: validate token'' e internal
           | Inr uid \<Rightarrow>
              (case check_second_factor l uid body of
                 None \<Rightarrow> writeJSON 400 (gen_Error ''totp_code and totp_secret or recovery_code required'')
               | Some check \<Rightarrow> do {
                   res \<leftarrow> check;
                   case res of
                     Inl e \<Rightarrow> fail500 r ''login mfa: recovery code'' e internal
                   | Inr verified \<Rightarrow>
                       if \<not> verified
                       then do {
                         recordEvent l r (Some uid) EventMFAFailure None JNull;
                         writeJSON 401 (gen_Error ''invalid MFA code'')
                       }
                       else do {
                         user \<leftarrow> UsersRepo_GetByID uid;
                         case user of
                           Inl e \<Rightarrow> fail500 r ''login mfa: get user'' e internal
                         | Inr user \<Rightarrow> do {
                             completeLogin l r user;
                             recordEvent l r (Some uid) EventMFASuccess None JNull
                           }
                       }
                 })
         })"

definition PostAuthRefresh :: "lib \<Rightarrow> request \<Rightarrow> unit prog" where
  "PostAuthRefresh l r =
     (case Cookie RefreshCookieName r of
        None \<Rightarrow> writeJSON 401 (gen_Error ''authentication required'')
      | Some value \<Rightarrow>
         if value = [] then writeJSON 401 (gen_Error ''authentication required'')
         else do {
           res \<leftarrow> Manager_RefreshSession l value;
           case res of
             Inl e \<Rightarrow>
               if errors_Is e ErrSessionInvalid
               then do { clearAuthCookies; writeJSON 401 (gen_Error ''authentication required'') }
               else fail500 r ''auth refresh'' e internal
           | Inr (newAccess, newRefresh) \<Rightarrow> do {
               m \<leftarrow> get_auth (\<lambda>m. m);
               setAuthCookies newAccess newRefresh (m_accessTTL m) (m_refreshTTL m);
               WriteHeader 204
             }
         })"

subsection \<open>Sessions and account\<close>

abbreviation auth_required :: json where "auth_required \<equiv> gen_Error ''authentication required''"

definition PostLogout :: "lib \<Rightarrow> request \<Rightarrow> unit prog" where
  "PostLogout l r =
     (let uid = (case cx_user_id r of None \<Rightarrow> uuid_Nil | Some u \<Rightarrow> u) in do {
        (case Cookie AccessCookieName r of
           None \<Rightarrow> ret ()
         | Some value \<Rightarrow> do {
             res \<leftarrow> Manager_RevokeSession l value;
             case res of Inl e \<Rightarrow> logInternalError r ''logout: revoke session'' e | Inr _ \<Rightarrow> ret ()
           });
        clearAuthCookies;
        (if uid \<noteq> uuid_Nil then recordEvent l r (Some uid) EventLogout None JNull else ret ());
        WriteHeader 204
      })"

definition DeleteUser :: "lib \<Rightarrow> request \<Rightarrow> unit prog" where
  "DeleteUser l r =
     (case cx_user_id r of
        None \<Rightarrow> writeJSON 401 auth_required
      | Some uid \<Rightarrow> do {
          res \<leftarrow> Manager_RevokeAllSessions uid;
          (case res of Inl e \<Rightarrow> logInternalError r ''delete user: revoke sessions'' e | Inr _ \<Rightarrow> ret ());
          del \<leftarrow> UsersRepo_DeleteUser uid;
          case (case del of Inl e \<Rightarrow> if errors_Is e ErrNotFound then None else Some e | Inr _ \<Rightarrow> None) of
            Some e \<Rightarrow> fail500 r ''delete user'' e ''failed to delete account''
          | None \<Rightarrow> do {
              clearAuthCookies;
              recordEvent l r (Some uid) EventUserDelete None JNull;
              WriteHeader 204
            }
        })"

definition PutUserKey :: "lib \<Rightarrow> request \<Rightarrow> unit prog" where
  "PutUserKey l r =
     (case cx_user_id r of
        None \<Rightarrow> writeJSON 401 auth_required
      | Some uid \<Rightarrow>
     (case decodeJSON l (UpdateKeyRequest_fields l) zero_UpdateKeyRequest r of
        None \<Rightarrow> writeJSON 400 (gen_Error bad_body)
      | Some body \<Rightarrow>
     (case decode_auth_hash (uk_auth_hash body) of
        None \<Rightarrow> writeJSON 400 (gen_Error ''auth_hash must be valid base64'')
      | Some newAuthHash \<Rightarrow>
     (case validateCiphertext (uk_psk body) of
        Some msg \<Rightarrow> writeJSON 400 (gen_Error (''protected_symmetric_key: '' @ msg))
      | None \<Rightarrow> do {
          salt \<leftarrow> lift_rng NewServerSalt;
          case salt of
            Inl e \<Rightarrow> fail500 r ''key rotation: new salt'' e internal
          | Inr newSalt \<Rightarrow> do {
              h \<leftarrow> server_hash l newAuthHash newSalt;
              case h of
                Inl e \<Rightarrow> fail500 r ''key rotation: derive hash'' e internal
              | Inr newServerHash \<Rightarrow> do {
                  res \<leftarrow> UsersRepo_UpdateAuthCredentials uid newServerHash newSalt
                           (gen_KDFParams_json (uk_kdf body)) (uk_psk body);
                  case res of
                    Inl e \<Rightarrow> fail500 r ''key rotation: update credentials'' e
                               ''failed to update credentials''
                  | Inr _ \<Rightarrow> do {
                      recordEvent l r (Some uid) EventKeyRotation None JNull;
                      WriteHeader 200
                    }
                }
            }
        }))))"

subsection \<open>Two-factor authentication\<close>

text \<open>Generate codes, store their hashes; the two error branches of both callers, which log the
  failing step under the given names.\<close>

definition issue_recovery_codes :: "lib \<Rightarrow> uuid \<Rightarrow> string \<Rightarrow> string \<Rightarrow> (string \<times> err + string list) prog" where
  "issue_recovery_codes l uid genOp storeOp = do {
     gen \<leftarrow> lift_rng (GenerateRecoveryCodes l);
     case gen of
       Inl e \<Rightarrow> ret (Inl (genOp, e))
     | Inr (codes, hashes) \<Rightarrow> do {
         res \<leftarrow> MFARepo_ReplaceRecoveryCodes uid hashes;
         ret (case res of Inl e \<Rightarrow> Inl (storeOp, e) | Inr _ \<Rightarrow> Inr codes)
       }
   }"

definition PostUser2faEnroll :: "lib \<Rightarrow> request \<Rightarrow> unit prog" where
  "PostUser2faEnroll l r =
     (case cx_user_id r of
        None \<Rightarrow> writeJSON 401 auth_required
      | Some uid \<Rightarrow>
     (case decodeJSON l Enroll2faRequest_fields zero_Enroll2faRequest r of
        None \<Rightarrow> writeJSON 400 (gen_Error bad_body)
      | Some body \<Rightarrow>
     (case validateCiphertext (en_ptotp body) of
        Some msg \<Rightarrow> writeJSON 400 (gen_Error (''protected_totp_secret: '' @ msg))
      | None \<Rightarrow> do {
          ok \<leftarrow> ValidateTOTP l (en_secret body) (en_code body);
          if \<not> ok then writeJSON 400 (gen_Error ''invalid TOTP code'')
          else do {
            status \<leftarrow> MFARepo_GetTOTPStatus uid;
            case status of
              Inl e \<Rightarrow> fail500 r ''2fa enroll: status'' e internal
            | Inr (enabled, _) \<Rightarrow>
                if enabled then writeJSON 400 (gen_Error ''2FA is already enabled'')
                else do {
                  res \<leftarrow> MFARepo_EnableTOTP uid (en_ptotp body);
                  case res of
                    Inl e \<Rightarrow> fail500 r ''2fa enroll'' e ''failed to enable 2FA''
                  | Inr _ \<Rightarrow> do {
                      issued \<leftarrow> issue_recovery_codes l uid ''2fa enroll: recovery codes'' ''2fa enroll: store recovery'';
                      case issued of
                        Inl (op, e) \<Rightarrow> fail500 r op e internal
                      | Inr codes \<Rightarrow> do {
                          recordEvent l r (Some uid) Event2FAEnroll None JNull;
                          writeJSON 200 (RecoveryCodesResponse codes)
                        }
                    }
                }
          }
        })))"

definition verify2FACredential :: "lib \<Rightarrow> uuid \<Rightarrow> Disable2faRequest \<Rightarrow> bool prog" where
  "verify2FACredential l uid body =
     (case di_recovery body of
        Some (c # cs) \<Rightarrow> do {
          res \<leftarrow> MFARepo_ConsumeRecoveryCode uid (VerifyRecoveryCode l (c # cs));
          ret (case res of Inl _ \<Rightarrow> False | Inr ok \<Rightarrow> ok)
        }
      | _ \<Rightarrow> (case (di_code body, di_secret body) of
                (Some code, Some secret) \<Rightarrow> ValidateTOTP l secret code
              | _ \<Rightarrow> ret False))"

definition DeleteUser2fa :: "lib \<Rightarrow> request \<Rightarrow> unit prog" where
  "DeleteUser2fa l r =
     (case cx_user_id r of
        None \<Rightarrow> writeJSON 401 auth_required
      | Some uid \<Rightarrow>
     (case decodeJSON l Disable2faRequest_fields zero_Disable2faRequest r of
        None \<Rightarrow> writeJSON 400 (gen_Error bad_body)
      | Some body \<Rightarrow> do {
          ok \<leftarrow> verify2FACredential l uid body;
          if \<not> ok then writeJSON 401 (gen_Error ''invalid verification code'')
          else do {
            res \<leftarrow> MFARepo_DisableTOTP uid;
            case res of
              Inl e \<Rightarrow> fail500 r ''2fa disable'' e ''failed to disable 2FA''
            | Inr _ \<Rightarrow> do {
                recordEvent l r (Some uid) Event2FADisable None JNull;
                WriteHeader 204
              }
          }
        }))"

definition PostUser2faRecoveryCodes :: "lib \<Rightarrow> request \<Rightarrow> unit prog" where
  "PostUser2faRecoveryCodes l r =
     (case cx_user_id r of
        None \<Rightarrow> writeJSON 401 auth_required
      | Some uid \<Rightarrow>
     (case decodeJSON l RegenerateRequest_fields zero_RegenerateRequest r of
        None \<Rightarrow> writeJSON 400 (gen_Error bad_body)
      | Some body \<Rightarrow> do {
          ok \<leftarrow> ValidateTOTP l (rg_secret body) (rg_code body);
          if \<not> ok then writeJSON 401 (gen_Error ''invalid TOTP code'')
          else do {
            issued \<leftarrow> issue_recovery_codes l uid ''recovery regen'' ''recovery regen: store'';
            case issued of
              Inl (op, e) \<Rightarrow> fail500 r op e internal
            | Inr codes \<Rightarrow> do {
                recordEvent l r (Some uid) EventRecoveryRegen None JNull;
                writeJSON 200 (RecoveryCodesResponse codes)
              }
          }
        }))"

subsection \<open>Activity\<close>

definition meta_json :: "json \<Rightarrow> json" where
  "meta_json m = (case m of JObj kvs \<Rightarrow> JObj kvs | _ \<Rightarrow> JNull)"

definition activity_event :: "AuditEvent \<Rightarrow> json" where
  "activity_event ev = JObj (
     [(''created_at'', json_time (ae_created ev)), (''event_type'', JStr (ae_type ev)),
      (''id'', json_uuid (ae_id ev))] @
     opt_field ''ip'' JStr (ae_ip ev) @ [(''metadata'', meta_json (ae_meta ev))] @
     opt_field ''resource_id'' json_uuid (ae_resource ev) @
     opt_field ''user_agent'' JStr (if ae_ua ev \<noteq> [] then Some (ae_ua ev) else None))"

text \<open>
  The page cut from the rows the repository returned, and the cursor to the next one.  With a
  negative limit the slice \<open>events[:limit]\<close> is out of range: None, and the handler panics.
\<close>

definition activity_page :: "int \<Rightarrow> AuditEvent list \<Rightarrow> (AuditEvent list \<times> uuid option) option" where
  "activity_page lim events =
     (let hasMore = lim < int (length events)
      in if hasMore \<and> lim < 0 then None
         else let page = (if hasMore then take (nat lim) events else events)
              in Some (page, if hasMore \<and> page \<noteq> [] then Some (ae_id (last page)) else None))"

definition GetActivity :: "lib \<Rightarrow> request \<Rightarrow> int option \<Rightarrow> uuid option \<Rightarrow> outcome prog" where
  "GetActivity l r limit_param cursor =
     (case cx_user_id r of
        None \<Rightarrow> do { writeJSON 401 auth_required; ret Done }
      | Some uid \<Rightarrow>
         (let lim = (case limit_param of None \<Rightarrow> 50 | Some n \<Rightarrow> n) in do {
            res \<leftarrow> AuditRepo_ListByUser l uid cursor lim;
            case res of
              Inl e \<Rightarrow> do { fail500 r ''activity list'' e ''failed to load activity''; ret Done }
            | Inr events \<Rightarrow>
               (case activity_page lim events of
                  None \<Rightarrow> ret (Panicked ''runtime error: slice bounds out of range'')
                | Some (page, next_cursor) \<Rightarrow> do {
                    writeJSON 200 (JObj ((''events'', JArr (map activity_event page)) #
                      opt_field ''next_cursor'' json_uuid next_cursor));
                    ret Done
                  })
          }))"

definition getActivity :: "lib \<Rightarrow> request \<Rightarrow> outcome prog" where
  "getActivity l r =
     (let q = Query_Get ''limit'' r;
          lim = (case (if q = [] then None else parseIntParam q) of
              Some n \<Rightarrow> if 0 < n then n else 50 | None \<Rightarrow> 50);
          c = Query_Get ''cursor'' r;
          cursor = (if c = [] then None else uuid_Parse l c)
      in GetActivity l r (Some lim) cursor)"

subsection \<open>Probes, items and sync\<close>

definition GetHealth :: "unit prog" where
  "GetHealth = writeJSON 200 (JObj [(''status'', JStr ''ok'')])"

definition GetReady :: "request \<Rightarrow> unit prog" where
  "GetReady r = do {
     res \<leftarrow> Store_Ping;
     case res of
       Inl e \<Rightarrow> do { log_it (LogReady e (cx_request_id r)); writeJSON 503 (gen_Error ''database unavailable'') }
     | Inr _ \<Rightarrow> writeJSON 200 (JObj [(''ready'', JBool True)])
   }"

definition ListItems :: "request \<Rightarrow> unit prog" where
  "ListItems r =
     (case cx_user_id r of
        None \<Rightarrow> writeJSON 403 auth_required
      | Some uid \<Rightarrow> do {
          res \<leftarrow> ItemsRepo_List uid;
          case res of
            Inl e \<Rightarrow> fail500 r ''list items'' e ''failed to list items''
          | Inr its \<Rightarrow> writeJSON 200 (JArr (map storageItemToGen its))
        })"

definition CreateItem :: "lib \<Rightarrow> request \<Rightarrow> unit prog" where
  "CreateItem l r =
     (case cx_user_id r of
        None \<Rightarrow> writeJSON 403 auth_required
      | Some uid \<Rightarrow>
     (case decodeJSON l NewItem_fields zero_NewItem r of
        None \<Rightarrow> writeJSON 400 (gen_Error bad_body)
      | Some body \<Rightarrow>
     (case validateCiphertext (ni_ciphertext body) of
        Some msg \<Rightarrow> writeJSON 400 (gen_Error msg)
      | None \<Rightarrow>
         if \<not> NewItemItemType_Valid (ni_type body) then writeJSON 400 (gen_Error ''invalid item_type'')
         else do {
           res \<leftarrow> ItemsRepo_Create uid (ni_ciphertext body) (ni_type body);
           case res of
             Inl e \<Rightarrow> fail500 r ''create item'' e ''failed to create item''
           | Inr item \<Rightarrow> do {
               recordEvent l r (Some uid) EventItemCreate (Some (v_id item))
                 (JObj [(''item_type'', JStr (ni_type body))]);
               writeJSON 201 (storageItemToGen item)
             }
         })))"

definition UpdateItem :: "lib \<Rightarrow> request \<Rightarrow> uuid \<Rightarrow> unit prog" where
  "UpdateItem l r iid =
     (case cx_user_id r of
        None \<Rightarrow> writeJSON 403 auth_required
      | Some uid \<Rightarrow>
     (case decodeJSON l UpdateItemRequest_fields zero_UpdateItemRequest r of
        None \<Rightarrow> writeJSON 400 (gen_Error bad_body)
      | Some body \<Rightarrow>
     (case validateCiphertext (ui_ciphertext body) of
        Some msg \<Rightarrow> writeJSON 400 (gen_Error msg)
      | None \<Rightarrow>
         if ui_revision body < 1 then writeJSON 400 (gen_Error ''current_revision must be >= 1'')
         else if (case ui_type body of None \<Rightarrow> False | Some t \<Rightarrow> \<not> UpdateItemItemType_Valid t)
         then writeJSON 400 (gen_Error ''invalid item_type'')
         else do {
           res \<leftarrow> ItemsRepo_Update iid uid (ui_revision body) (ui_ciphertext body)
                    (derefString (ui_type body));
           case res of
             Inl e \<Rightarrow>
               if errors_Is e ErrNotFound then writeJSON 404 (gen_Error ''item not found'')
               else if errors_Is e ErrConflict
               then writeJSON 409 (gen_Error ''revision conflict: fetch the latest version before retrying'')
               else fail500 r ''update item'' e ''failed to update item''
           | Inr item \<Rightarrow> do {
               recordEvent l r (Some uid) EventItemUpdate (Some (v_id item))
                 (JObj [(''revision'', JNum (v_revision item))]);
               writeJSON 200 (storageItemToGen item)
             }
         })))"

definition DeleteItem :: "lib \<Rightarrow> request \<Rightarrow> uuid \<Rightarrow> unit prog" where
  "DeleteItem l r iid =
     (case cx_user_id r of
        None \<Rightarrow> writeJSON 403 auth_required
      | Some uid \<Rightarrow> do {
          res \<leftarrow> ItemsRepo_Delete iid uid;
          case res of
            Inl e \<Rightarrow>
              if errors_Is e ErrNotFound then writeJSON 404 (gen_Error ''item not found'')
              else fail500 r ''delete item'' e ''failed to delete item''
          | Inr _ \<Rightarrow> do {
              recordEvent l r (Some uid) EventItemDelete (Some iid) JNull;
              WriteHeader 204
            }
        })"

definition GetSync :: "lib \<Rightarrow> request \<Rightarrow> unit prog" where
  "GetSync l r =
     (case cx_user_id r of
        None \<Rightarrow> writeJSON 403 auth_required
      | Some uid \<Rightarrow> do {
          res \<leftarrow> UsersRepo_GetByID uid;
          case res of
            Inl e \<Rightarrow>
              if errors_Is e ErrNotFound then writeJSON 403 (gen_Error ''user not found'')
              else fail500 r ''sync: get user'' e ''failed to load user''
          | Inr user \<Rightarrow> do {
              its \<leftarrow> ItemsRepo_List uid;
              case its of
                Inl e \<Rightarrow> fail500 r ''sync: list items'' e ''failed to load items''
              | Inr its \<Rightarrow>
                 (case user_kdf l user of
                    Inl e \<Rightarrow> fail500 r ''sync: unmarshal kdf_params'' e ''failed to load user params''
                  | Inr kdf \<Rightarrow> writeJSON 200 (SyncResponse (map storageItemToGen its) kdf (u_psk user)
                      (u_ptotp user) (u_totp_enabled user)))
            }
        })"

lemmas login_defs = PostRegister_def GetLoginKdfParams_def getLoginKdfParams_def
  authGenerateToken_def createMFAToken_def validateMFAToken_def completeLogin_def reject_login_def
  challenge_login_def login_known_def PostLogin_def PostLoginMfa_def PostAuthRefresh_def dummy_work_def

lemmas account_defs = PostLogout_def DeleteUser_def PutUserKey_def issue_recovery_codes_def
  PostUser2faEnroll_def verify2FACredential_def DeleteUser2fa_def PostUser2faRecoveryCodes_def
  GetActivity_def getActivity_def

lemmas item_handler_defs = GetHealth_def GetReady_def ListItems_def CreateItem_def UpdateItem_def
  DeleteItem_def GetSync_def

end
