(* ===== verification/Calm.thy ===== *)
theory Calm
  imports Handlers
begin

text \<open>
  Symbolic execution of programs when the database answers every round trip and no other
  request interferes: what each primitive and repository operation returns, and the world it
  leaves, as equations.  The equations are collected in \<open>run_simps\<close>.
\<close>

definition calm :: "world \<Rightarrow> bool" where
  "calm w = (\<forall>n. ev_trip (w_events w n) = Served \<and> (\<forall>d. ev_others (w_events w n) d = d))"

named_theorems run_simps "running programs in a calm world"

lemma calm_sample [simp]: "calm (sample_world d)"
  by (simp add: calm_def)

lemma calm_upd [simp]:
  "calm (w\<lparr>w_db := a1\<rparr>) = calm w" "calm (w\<lparr>w_auth := a2\<rparr>) = calm w"
  "calm (w\<lparr>w_alerts := a3\<rparr>) = calm w" "calm (w\<lparr>w_notices := a4\<rparr>) = calm w"
  "calm (w\<lparr>w_log := a5\<rparr>) = calm w" "calm (w\<lparr>w_resp := a6\<rparr>) = calm w"
  "calm (w\<lparr>w_kdf := a7\<rparr>) = calm w" "calm (w\<lparr>w_slept := a8\<rparr>) = calm w"
  "calm (w\<lparr>w_clock := a9\<rparr>) = calm w" "calm (w\<lparr>w_rng := a10\<rparr>) = calm w"
  by (simp_all add: calm_def)

lemma calm_events [simp]: "calm w0 \<Longrightarrow> calm (w\<lparr>w_events := (\<lambda>i. w_events w0 (f i))\<rparr>)"
  by (simp add: calm_def)

text \<open>The clock and the event stream after one use.\<close>

definition tick :: "world \<Rightarrow> world" where
  "tick w = w\<lparr>w_clock := (\<lambda>i. w_clock w (Suc i))\<rparr>"

definition sql_step :: "'a stmt \<Rightarrow> world \<Rightarrow> (err + 'a) \<times> world" where
  "sql_step s w =
     (let e = w_events w 0; (r, d) = s (ev_now e) (ev_uuid e) (w_db w)
      in (r, w\<lparr>w_events := (\<lambda>i. w_events w (Suc i)), w_db := d\<rparr>))"

lemma calm_tick [simp]: "calm (tick w) = calm w"
  by (simp add: tick_def)

lemma run_time_Now [run_simps]: "run_state time_Now w = (w_clock w 0, tick w)"
  by (simp add: time_Now_def tick_def)

lemma run_exec [run_simps]: "calm w \<Longrightarrow> run_state (db_exec s) w = sql_step s w"
  by (simp add: db_exec_def sql_step_def next_event_def calm_def Let_def split: prod.split)

text \<open>One served round trip, with what others did before it.\<close>

lemma run_exec_served:
  "ev_trip (w_events w 0) = Served \<Longrightarrow> run_state (db_exec s) w =
     (let e = w_events w 0; (r, d) = s (ev_now e) (ev_uuid e) (ev_others e (w_db w))
      in (r, w\<lparr>w_events := (\<lambda>i. w_events w (Suc i)), w_db := d\<rparr>))"
  by (simp add: db_exec_def next_event_def Let_def split: prod.split)

lemma run_try [run_simps]:
  "run_state (try_prog p wrap k) w =
     (case run_state p w of (Inl e, w') \<Rightarrow> (Inl (wrap e), w') | (Inr x, w') \<Rightarrow> run_state (k x) w')"
  by (auto simp: try_prog_def split: prod.split sum.split)

lemma run_prims [run_simps]:
  "run_state (respond f) w = ((), w\<lparr>w_resp := f (w_resp w)\<rparr>)"
  "run_state (log_it e) w = ((), w\<lparr>w_log := w_log w @ [e]\<rparr>)"
  "run_state (get_auth q) w = (q (w_auth w), w)"
  "run_state (time_Sleep dur) w = ((), w\<lparr>w_slept := w_slept w + dur\<rparr>)"
  by (simp_all add: prim_defs)

text \<open>Statements that only read.\<close>

lemma sql_step_read:
  "(\<And>now fresh d. s now fresh d = (f d, d)) \<Longrightarrow>
   sql_step s w = (f (w_db w), w\<lparr>w_events := (\<lambda>i. w_events w (Suc i))\<rparr>)"
  by (simp add: sql_step_def Let_def)

definition passed :: "world \<Rightarrow> world" where
  "passed w = w\<lparr>w_events := (\<lambda>i. w_events w (Suc i))\<rparr>"

lemma calm_passed [simp]: "calm w \<Longrightarrow> calm (passed w)"
  by (simp add: passed_def)

lemma passed_fields [simp]:
  "w_db (passed w) = w_db w" "w_auth (passed w) = w_auth w" "w_alerts (passed w) = w_alerts w"
  "w_resp (passed w) = w_resp w" "w_clock (passed w) = w_clock w" "w_rng (passed w) = w_rng w"
  "w_log (passed w) = w_log w" "w_kdf (passed w) = w_kdf w" "w_slept (passed w) = w_slept w"
  "w_notices (passed w) = w_notices w" "w_events (passed w) i = w_events w (Suc i)"
  by (simp_all add: passed_def)

lemma tick_fields [simp]:
  "w_db (tick w) = w_db w" "w_auth (tick w) = w_auth w" "w_alerts (tick w) = w_alerts w"
  "w_resp (tick w) = w_resp w" "w_events (tick w) = w_events w" "w_rng (tick w) = w_rng w"
  "w_log (tick w) = w_log w" "w_kdf (tick w) = w_kdf w" "w_slept (tick w) = w_slept w"
  "w_notices (tick w) = w_notices w" "w_clock (tick w) i = w_clock w (Suc i)"
  by (simp_all add: tick_def)

lemma run_GetByEmail [run_simps]:
  "calm w \<Longrightarrow> run_state (UsersRepo_GetByEmail email) w =
     (case find (\<lambda>u. u_email u = email) (users (w_db w)) of
        None \<Rightarrow> Inl ErrNotFound | Some u \<Rightarrow> Inr u, passed w)"
  by (simp add: UsersRepo_GetByEmail_def queries_defs scanUser_def run_simps
      sql_step_read [OF getUserByEmail_def] one_row_def mapNotFound_def passed_def split: option.split)

lemma run_GetByID [run_simps]:
  "calm w \<Longrightarrow> run_state (UsersRepo_GetByID uid) w =
     (case find (\<lambda>u. u_id u = uid) (users (w_db w)) of
        None \<Rightarrow> Inl ErrNotFound | Some u \<Rightarrow> Inr u, passed w)"
  by (simp add: UsersRepo_GetByID_def queries_defs scanUser_def run_simps
      sql_step_read [OF getUserByID_def] one_row_def mapNotFound_def passed_def split: option.split)

lemma run_GetByAccessHash [run_simps]:
  "calm w \<Longrightarrow> run_state (SessionsRepo_GetByAccessHash h) w =
     (case find (\<lambda>s. s_access s = h) (sessions (w_db w)) of
        None \<Rightarrow> Inl ErrNotFound | Some s \<Rightarrow> Inr s, passed w)"
  by (simp add: SessionsRepo_GetByAccessHash_def queries_defs scanSession_def run_simps
      sql_step_read [OF getSessionByAccessHash_def] one_row_def mapNotFound_def passed_def
      split: option.split)

lemma run_GetByRefreshHash [run_simps]:
  "calm w \<Longrightarrow> run_state (SessionsRepo_GetByRefreshHash h) w =
     (case find (\<lambda>s. s_refresh s = h) (sessions (w_db w)) of
        None \<Rightarrow> Inl ErrNotFound | Some s \<Rightarrow> Inr s, passed w)"
  by (simp add: SessionsRepo_GetByRefreshHash_def queries_defs scanSession_def run_simps
      sql_step_read [OF getSessionByRefreshHash_def] one_row_def mapNotFound_def passed_def
      split: option.split)

lemma run_ValidateAccess [run_simps]:
  "calm w \<Longrightarrow> run_state (Manager_ValidateAccess l tok) w =
     (case find (\<lambda>s. s_access s = hashToken l tok) (sessions (w_db w)) of
        None \<Rightarrow> (Inl ErrSessionInvalid, passed w)
      | Some s \<Rightarrow> (if s_access_exp s < w_clock w 0 then Inl ErrSessionInvalid else Inr s,
          tick (passed w)))"
  by (simp add: Manager_ValidateAccess_def run_simps split: option.split)

text \<open>Tokens: 32 random bytes in hex.\<close>

definition rand_ok :: "world \<Rightarrow> bool" where
  "rand_ok w = (\<forall>i. \<not> rng_fail (w_rng w) i)"

definition token_at :: "world \<Rightarrow> nat \<Rightarrow> string" where
  "token_at w i = hex_EncodeToString (map (\<lambda>j. rng_bytes (w_rng w) (i + j)) [0..<32])"

definition drawn :: "nat \<Rightarrow> world \<Rightarrow> world" where
  "drawn n w = w\<lparr>w_rng := \<lparr>rng_bytes = (\<lambda>i. rng_bytes (w_rng w) (i + n)),
     rng_fail = (\<lambda>i. rng_fail (w_rng w) (Suc i))\<rparr>\<rparr>"

lemma drawn_fields [simp]:
  "w_db (drawn n w) = w_db w" "w_auth (drawn n w) = w_auth w" "w_alerts (drawn n w) = w_alerts w"
  "w_resp (drawn n w) = w_resp w" "w_events (drawn n w) = w_events w" "w_clock (drawn n w) = w_clock w"
  "w_log (drawn n w) = w_log w" "w_kdf (drawn n w) = w_kdf w" "w_slept (drawn n w) = w_slept w"
  "w_notices (drawn n w) = w_notices w" "calm (drawn n w) = calm w"
  by (simp_all add: drawn_def)

lemma rand_ok_simps [simp]:
  "rand_ok w \<Longrightarrow> rand_ok (drawn n w)" "rand_ok (tick w) = rand_ok w" "rand_ok (passed w) = rand_ok w"
  by (simp_all add: rand_ok_def drawn_def tick_def passed_def)

lemma token_at_simps [simp]:
  "token_at (drawn n w) i = token_at w (i + n)" "token_at (tick w) i = token_at w i"
  "token_at (passed w) i = token_at w i"
  by (simp_all add: token_at_def drawn_def tick_def passed_def add.commute add.left_commute)

lemma length_token [simp]: "length (token_at w i) = 64"
  by (simp add: token_at_def)

lemma run_rand [run_simps]:
  "rand_ok w \<Longrightarrow> run_state (lift_rng (rand_Read n)) w = (Inr (map (rng_bytes (w_rng w)) [0..<n]), drawn n w)"
  by (simp add: lift_rng_def rand_Read_run rand_ok_def drawn_def)

lemma run_generateToken [run_simps]:
  "rand_ok w \<Longrightarrow> run_state generateToken w = (Inr (token_at w 0), drawn 32 w)"
  by (simp add: generateToken_def run_simps rawTokenBytes_def token_at_def)

lemma rand_ok_upd [simp]:
  "rand_ok (w\<lparr>w_db := a1\<rparr>) = rand_ok w" "rand_ok (w\<lparr>w_auth := a2\<rparr>) = rand_ok w"
  "rand_ok (w\<lparr>w_alerts := a3\<rparr>) = rand_ok w" "rand_ok (w\<lparr>w_notices := a4\<rparr>) = rand_ok w"
  "rand_ok (w\<lparr>w_log := a5\<rparr>) = rand_ok w" "rand_ok (w\<lparr>w_resp := a6\<rparr>) = rand_ok w"
  "rand_ok (w\<lparr>w_kdf := a7\<rparr>) = rand_ok w" "rand_ok (w\<lparr>w_slept := a8\<rparr>) = rand_ok w"
  "rand_ok (w\<lparr>w_clock := a9\<rparr>) = rand_ok w" "rand_ok (w\<lparr>w_events := a10\<rparr>) = rand_ok w"
  by (simp_all add: rand_ok_def)

lemma run_lift_auth [run_simps]:
  "run_state (lift_auth f) w = (fst (f (w_auth w)), w\<lparr>w_auth := snd (f (w_auth w))\<rparr>)"
  by (simp add: lift_auth_def Let_def split: prod.split)

lemma run_lift_alerts [run_simps]:
  "run_state (lift_alerts f) w =
     ((), w\<lparr>w_alerts := snd (f (w_alerts w)), w_notices := w_notices w @ fst (f (w_alerts w))\<rparr>)"
  by (simp add: lift_alerts_def Let_def split: prod.split)


lemma run_lift_rng:
  "run_state (lift_rng m) w = (fst (run_state m (w_rng w)), w\<lparr>w_rng := snd (run_state m (w_rng w))\<rparr>)"
  by (simp add: lift_rng_def Let_def split: prod.split)

subsection \<open>Recording events\<close>

text \<open>The database after an event was appended, and whether that failed.\<close>

definition audit_of ::
  "lib \<Rightarrow> request \<Rightarrow> uuid option \<Rightarrow> string \<Rightarrow> uuid option \<Rightarrow> json \<Rightarrow> world \<Rightarrow> (err + uuid \<times> time) \<times> db" where
  "audit_of l r u ty res m w =
     appendAuditEvent u ty (net_ParseIP l (clientIP r))
       (if userAgentFromCtx r \<noteq> [] then Some (userAgentFromCtx r) else None) res (emptyMetadata (Some m))
       (ev_now (w_events w 0)) (ev_uuid (w_events w 0)) (w_db w)"

lemma run_Append:
  "calm w \<Longrightarrow> run_state (AuditRepo_Append u ty (net_ParseIP l (clientIP r)) (userAgentFromCtx r) res (Some m)) w =
     (case audit_of l r u ty res m w of (q, d) \<Rightarrow>
       (case q of Inl e \<Rightarrow> Inl (Wrap ''append audit event'' e)
        | Inr (aid, created) \<Rightarrow> Inr \<lparr>ae_id = aid, ae_user = u, ae_type = ty,
            ae_ip = net_ParseIP l (clientIP r), ae_ua = userAgentFromCtx r, ae_resource = res,
            ae_meta = emptyMetadata (Some m), ae_created = created\<rparr>, (passed w)\<lparr>w_db := d\<rparr>))"
  by (auto simp: AuditRepo_Append_def queries_defs run_simps sql_step_def audit_of_def passed_def Let_def
      split: prod.split sum.split)

text \<open>What recording any event but a login result does.\<close>

definition recorded ::
  "lib \<Rightarrow> request \<Rightarrow> uuid option \<Rightarrow> string \<Rightarrow> uuid option \<Rightarrow> json \<Rightarrow> world \<Rightarrow> world" where
  "recorded l r u ty res m w =
     (case audit_of l r u ty res m w of
        (Inl e, d) \<Rightarrow> (passed w)\<lparr>w_db := d,
          w_log := w_log w @ [LogAuditFailed ty (Wrap ''append audit event'' e)]\<rparr>
      | (Inr _, d) \<Rightarrow> (passed w)\<lparr>w_db := d\<rparr>)"

lemma run_recordEvent [run_simps]:
  assumes "calm w" and "ty \<noteq> EventLoginFailure" and "ty \<noteq> EventLoginSuccess"
  shows "run_state (recordEvent l r u ty res m) w = ((), recorded l r u ty res m w)"
  using assms
  by (auto simp: recordEvent_def Let_def run_Append run_simps recorded_def split: prod.split sum.split option.split)

lemma run_recordEvent_failure:
  assumes "calm w"
  shows "run_state (recordEvent l r (Some uid) EventLoginFailure res m) w =
    (let v = recorded l r (Some uid) EventLoginFailure res m w;
         (ns, tr) = Tracker_RecordLoginFailure (w_clock w 0) (w_clock w 1) uid (clientIP r) (w_alerts w)
     in ((), (tick (tick v))\<lparr>w_alerts := tr, w_notices := w_notices w @ ns\<rparr>))"
  using assms
  by (auto simp: recordEvent_def Let_def run_Append run_simps recorded_def EventLoginFailure_def
      EventLoginSuccess_def split: prod.split sum.split)

lemma recorded_fields [simp]:
  "w_auth (recorded l r u ty res m w) = w_auth w" "w_alerts (recorded l r u ty res m w) = w_alerts w"
  "w_resp (recorded l r u ty res m w) = w_resp w" "w_clock (recorded l r u ty res m w) = w_clock w"
  "w_rng (recorded l r u ty res m w) = w_rng w" "w_kdf (recorded l r u ty res m w) = w_kdf w"
  "w_slept (recorded l r u ty res m w) = w_slept w" "w_notices (recorded l r u ty res m w) = w_notices w"
  "calm w \<Longrightarrow> calm (recorded l r u ty res m w)" "rand_ok (recorded l r u ty res m w) = rand_ok w"
  by (auto simp: recorded_def rand_ok_def split: prod.split sum.split)

lemma recorded_db: "w_db (recorded l r u ty res m w) = snd (audit_of l r u ty res m w)"
  by (auto simp: recorded_def split: prod.split sum.split)

end
