(* ===== verification/Middleware.thy ===== *)
theory Middleware
  imports Handlers
begin

text \<open>
  \<open>internal/api/middleware.go\<close>.  A served handler ends normally or panics; a middleware is a
  function on handlers.  Context values are request fields, so \<open>r.WithContext\<close> is a record
  update.  \<open>statusWriter\<close> reports the first status written, which is the response's status.
\<close>

type_synonym handler = "request \<Rightarrow> outcome prog"
type_synonym middleware = "handler \<Rightarrow> handler"

definition plain :: "(request \<Rightarrow> unit prog) \<Rightarrow> handler" where
  "plain f r = do { f r; ret Done }"

definition maxBodyBytes :: nat where "maxBodyBytes = 1048576"

text \<open>The loop wraps from the last middleware to the first.\<close>

definition chain :: "handler \<Rightarrow> middleware list \<Rightarrow> handler" where
  "chain h mws = foldr (\<lambda>mw acc. mw acc) mws h"

definition captureUserAgent :: middleware where
  "captureUserAgent next r = next (r\<lparr>cx_user_agent := Some (rq_header r ''User-Agent'')\<rparr>)"

definition newRequestID :: "lib \<Rightarrow> string prog" where
  "newRequestID l = do {
     b \<leftarrow> lift_rng (rand_Read 16);
     case b of
       Inl _ \<Rightarrow> do { now \<leftarrow> time_Now; ret (time_Format l now) }
     | Inr bs \<Rightarrow> ret (hex_EncodeToString bs)
   }"

definition requestID :: "lib \<Rightarrow> middleware" where
  "requestID l next r = do {
     rid \<leftarrow> newRequestID l;
     respond (rs_set ''X-Request-ID'' rid);
     next (r\<lparr>cx_request_id := Some rid\<rparr>)
   }"

definition recoverPanic :: middleware where
  "recoverPanic next r = do {
     out \<leftarrow> next r;
     case out of
       Done \<Rightarrow> ret Done
     | Panicked msg \<Rightarrow> do {
         log_it (LogPanic (cx_request_id r) msg (rq_path r));
         writeJSON 500 (gen_Error internal);
         ret Done
       }
   }"

definition limitBody :: middleware where
  "limitBody next r = next (r\<lparr>rq_limit := Some maxBodyBytes\<rparr>)"

definition get_status :: "nat prog" where
  "get_status = State (\<lambda>w. (rs_status (w_resp w), w))"

definition logRequests :: middleware where
  "logRequests next r = do {
     start \<leftarrow> time_Now;
     out \<leftarrow> next r;
     case out of
       Panicked msg \<Rightarrow> ret (Panicked msg)
     | Done \<Rightarrow> do {
         status \<leftarrow> get_status;
         now \<leftarrow> time_Now;
         log_it (LogRequest (cx_request_id r) (rq_method r) (rq_path r) status
           ((now - start) div Millisecond));
         ret Done
       }
   }"

definition sessionAuth :: "lib \<Rightarrow> middleware" where
  "sessionAuth l next r =
     (case Cookie AccessCookieName r of
        None \<Rightarrow> do { writeJSON 401 auth_required; ret Done }
      | Some value \<Rightarrow> do {
          res \<leftarrow> Manager_ValidateAccess l value;
          case res of
            Inl e \<Rightarrow>
              if errors_Is e ErrSessionInvalid
              then do { writeJSON 401 auth_required; ret Done }
              else do { writeJSON 500 (gen_Error internal); ret Done }
          | Inr sess \<Rightarrow> next (r\<lparr>cx_user_id := Some (s_user sess)\<rparr>)
        })"

definition csp :: string where
  "csp = ''default-src 'none'; script-src 'self' 'wasm-unsafe-eval'; style-src 'self'; '' @
     ''connect-src 'self' https://api.pwnedpasswords.com; img-src 'self' data:; form-action 'self'; '' @
     ''frame-ancestors 'none'; base-uri 'self'' @ [CHR 0x27]"

definition securityHeaders :: middleware where
  "securityHeaders next r = do {
     respond (rs_set ''Strict-Transport-Security'' ''max-age=63072000; includeSubDomains; preload'');
     respond (rs_set ''X-Content-Type-Options'' ''nosniff'');
     respond (rs_set ''X-Frame-Options'' ''DENY'');
     respond (rs_set ''Referrer-Policy'' ''strict-origin-when-cross-origin'');
     respond (rs_set ''Content-Security-Policy'' csp);
     respond (rs_set ''Permissions-Policy'' ''camera=(), microphone=(), geolocation=()'');
     next r
   }"

definition cors :: "string \<Rightarrow> middleware" where
  "cors allowedOrigin next r = do {
     respond (rs_set ''Access-Control-Allow-Origin'' allowedOrigin);
     respond (rs_set ''Access-Control-Allow-Credentials'' ''true'');
     respond (rs_set ''Vary'' ''Origin'');
     if rq_method r = ''OPTIONS''
     then do {
       respond (rs_set ''Access-Control-Allow-Methods'' ''GET, POST, PUT, DELETE, OPTIONS'');
       respond (rs_set ''Access-Control-Allow-Headers'' ''Content-Type, X-Vault-CSRF'');
       respond (rs_set ''Access-Control-Max-Age'' ''86400'');
       WriteHeader 204;
       ret Done
     }
     else next r
   }"

definition requireCSRF :: middleware where
  "requireCSRF next r =
     (if rq_method r \<in> {''GET'', ''HEAD'', ''OPTIONS''} then next r
      else if rq_header r ''X-Vault-CSRF'' \<noteq> ''1''
      then do { writeJSON 403 (gen_Error ''CSRF check failed''); ret Done }
      else next r)"

end
