(* ===== verification/Effects.thy ===== *)
theory Effects
  imports Router
begin

text \<open>
  What the server does to the database, proved once for every relation.  The locale
  \<open>store_relation\<close> is the interface between handlers and statements: a relation on
  databases that every SQL statement respects, where statements that write the data of one
  user may only be used for users in \<open>own\<close>.  Inside it, every repository operation,
  manager method and handler is shown to respect the relation; at the end the whole router.
  The interpretations are in theory \<open>Guarantees\<close>.
\<close>

lemma within_option':
  "(ov = None \<Longrightarrow> within_ids F R p) \<Longrightarrow> (\<And>x. ov = Some x \<Longrightarrow> within_ids F R (f x)) \<Longrightarrow>
   within_ids F R (case ov of None \<Rightarrow> p | Some x \<Rightarrow> f x)"
  by (cases ov) auto

lemma within_list:
  "within_ids F R p \<Longrightarrow> (\<And>x xs. within_ids F R (f x xs)) \<Longrightarrow> within_ids F R (case l of [] \<Rightarrow> p | x # xs \<Rightarrow> f x xs)"
  by (cases l) auto

lemma within_outcome:
  "within_ids F R p \<Longrightarrow> (\<And>m. within_ids F R (f m)) \<Longrightarrow> within_ids F R (case out of Done \<Rightarrow> p | Panicked m \<Rightarrow> f m)"
  by (cases out) auto

lemma first_match_mem: "first_match r rts = Some (pid, rt) \<Longrightarrow> rt \<in> set rts"
  by (induction r rts rule: first_match.induct) (auto split: option.splits)

definition handler_within_ids :: "uuid set \<Rightarrow> (db \<Rightarrow> db \<Rightarrow> bool) \<Rightarrow> handler \<Rightarrow> bool" where
  "handler_within_ids F R h = (\<forall>r. within_ids F R (h r))"

locale store_relation = db_relation +
  fixes own :: "uuid \<Rightarrow> bool"
  assumes create_user: "stmt_within_ids F R (createUser email kdf h salt psk)"
    and update_key: "own u \<Longrightarrow> stmt_within_ids F R (updateUserProtectedKey u psk)"
    and update_credentials: "own u \<Longrightarrow> stmt_within_ids F R (updateUserAuthCredentials u h salt kdf psk)"
    and delete_user: "own u \<Longrightarrow> stmt_within_ids F R (deleteUser u)"
    and enable_totp: "own u \<Longrightarrow> stmt_within_ids F R (enableUserTOTP u secret)"
    and disable_totp: "own u \<Longrightarrow> stmt_within_ids F R (disableUserTOTP u)"
    and create_item: "own u \<Longrightarrow> stmt_within_ids F R (createItem u c t)"
    and update_item: "own u \<Longrightarrow> stmt_within_ids F R (updateItem iid u n c t')"
    and delete_item: "own u \<Longrightarrow> stmt_within_ids F R (deleteItem iid u)"
    and create_session: "stmt_within_ids F R (createSessionPair u ah ae rh re)"
    and rotate_session: "stmt_within_ids F R (rotateSessionTokens sid ah ae rh re)"
    and delete_by_access: "stmt_within_ids F R (deleteSessionByAccessHash ah)"
    and delete_by_refresh: "stmt_within_ids F R (deleteSessionByRefreshHash rh)"
    and delete_sessions: "own u \<Longrightarrow> stmt_within_ids F R (deleteAllSessionsForUser u)"
    and delete_codes: "own u \<Longrightarrow> stmt_within_ids F R (deleteRecoveryCodesForUser u)"
    and insert_code: "own u \<Longrightarrow> stmt_within_ids F R (insertRecoveryCode u h)"
    and mark_code: "stmt_within_ids F R (markRecoveryCodeUsed cid)"
    and create_challenge: "stmt_within_ids F R (createMFAChallenge u h exp)"
    and consume_challenge: "stmt_within_ids F R (consumeMFAChallenge h)"
    and cleanup_challenges: "stmt_within_ids F R cleanupExpiredMFAChallenges"
    and append_event: "stmt_within_ids F R (appendAuditEvent uo ty ip ua res meta)"
    and record_device: "stmt_within_ids F R (recordDeviceHash u h)"
begin

lemma read_within: "(\<And>now fresh d. snd (s now fresh d) = d) \<Longrightarrow> stmt_within_ids F R s"
  by (simp add: stmt_within_ids_def R_refl)

lemma reads:
  "stmt_within_ids F R (getUserByID u)" "stmt_within_ids F R (getUserByEmail email)"
  "stmt_within_ids F R (getUserTOTPStatus u)" "stmt_within_ids F R (getItem iid u)"
  "stmt_within_ids F R (listItems u)" "stmt_within_ids F R (itemExists iid u)"
  "stmt_within_ids F R (getSessionByAccessHash h)" "stmt_within_ids F R (getSessionByRefreshHash h)"
  "stmt_within_ids F R (listUnusedRecoveryCodes u)" "stmt_within_ids F R (listAuditEventsByUser u cursor n)"
  "stmt_within_ids F R (countRecentLoginFailures u)" "stmt_within_ids F R (\<lambda>now fresh d. (x, d))"
  by (rule read_within,
      simp add: getUserByID_def getUserByEmail_def getUserTOTPStatus_def getItem_def listItems_def
        itemExists_def getSessionByAccessHash_def getSessionByRefreshHash_def
        listUnusedRecoveryCodes_def listAuditEventsByUser_def countRecentLoginFailures_def)+

lemmas statements = reads create_user update_key update_credentials delete_user enable_totp
  disable_totp create_item update_item delete_item create_session rotate_session delete_by_access
  delete_by_refresh delete_sessions delete_codes insert_code mark_code create_challenge
  consume_challenge cleanup_challenges append_event record_device

lemma scan_within:
  "stmt_within_ids F R s \<Longrightarrow> within_ids F R (scanUser s)" "stmt_within_ids F R q \<Longrightarrow> within_ids F R (scanVaultItem q)"
  "stmt_within_ids F R t \<Longrightarrow> within_ids F R (scanSession t)"
  unfolding scan_defs by (intro within_bind within_return within_exec; assumption)+

lemmas steps = within_bind within_return within_if within_option' within_sum within_prod within_let
  within_list within_outcome within_prims within_try scan_within within_exec within_tx

lemma users_repo:
  "within_ids F R (UsersRepo_GetByID u)" "within_ids F R (UsersRepo_GetByEmail email)"
  "within_ids F R (UsersRepo_Create email kdf h salt psk)"
  "own u \<Longrightarrow> within_ids F R (UsersRepo_UpdateProtectedKey u psk)"
  "own u \<Longrightarrow> within_ids F R (UsersRepo_UpdateAuthCredentials u h salt kdf psk)"
  "own u \<Longrightarrow> within_ids F R (UsersRepo_DeleteUser u)"
  unfolding users_repo_defs queries_defs by (intro steps statements; assumption)+

lemma items_repo:
  "own u \<Longrightarrow> within_ids F R (ItemsRepo_Create u c t)" "within_ids F R (ItemsRepo_Get iid u)"
  "within_ids F R (ItemsRepo_List u)" "within_ids F R (ItemsRepo_itemExists iid u)"
  "own u \<Longrightarrow> within_ids F R (ItemsRepo_Update iid u n c ty)" "own u \<Longrightarrow> within_ids F R (ItemsRepo_Delete iid u)"
  unfolding items_repo_defs queries_defs by (intro steps statements; assumption)+

lemma sessions_repo:
  "within_ids F R (SessionsRepo_CreatePair u ah ae rh re)" "within_ids F R (SessionsRepo_GetByAccessHash h)"
  "within_ids F R (SessionsRepo_GetByRefreshHash h)" "within_ids F R (SessionsRepo_RotateTokens sid ah ae rh re)"
  "within_ids F R (SessionsRepo_DeleteByAccessHash h)" "within_ids F R (SessionsRepo_DeleteByRefreshHash h)"
  "own u \<Longrightarrow> within_ids F R (SessionsRepo_DeleteAllForUser u)"
  unfolding sessions_repo_defs queries_defs by (intro steps statements; assumption)+

lemma consume_loop_within: "within_ids F R (consume_loop m cs)"
  by (induction m cs rule: consume_loop.induct)
     (simp_all add: queries_defs within_try within_exec mark_code within_return)

lemma replace_codes_within: "own u \<Longrightarrow> within_ids F R (MFARepo_ReplaceRecoveryCodes u hs)"
  unfolding MFARepo_ReplaceRecoveryCodes_def
  by (rule within_tx) (simp add: delete_codes insert_code list_all_iff)

lemma mfa_repo:
  "own u \<Longrightarrow> within_ids F R (MFARepo_EnableTOTP u s)" "own u \<Longrightarrow> within_ids F R (MFARepo_DisableTOTP u)"
  "within_ids F R (MFARepo_GetTOTPStatus u)" "within_ids F R (MFARepo_ConsumeRecoveryCode u m)"
  "within_ids F R (MFARepo_CreateChallenge u h exp)" "within_ids F R (MFARepo_ConsumeChallenge h)"
  "within_ids F R MFARepo_CleanupExpiredChallenges"
  unfolding mfa_repo_defs queries_defs
  by (intro steps statements consume_loop_within; assumption)+

lemma audit_repo:
  "within_ids F R (AuditRepo_Append uo ty ip ua res m)" "within_ids F R (AuditRepo_ListByUser l u cursor n)"
  "within_ids F R (AuditRepo_CountRecentLoginFailures u)" "within_ids F R (AuditRepo_RecordDeviceHash u h)"
  unfolding audit_repo_defs queries_defs by (intro steps statements; assumption)+

lemmas repos = users_repo items_repo sessions_repo replace_codes_within mfa_repo audit_repo

lemma manager_within:
  "within_ids F R (Manager_IsLoginLocked email)" "within_ids F R (Manager_RecordLoginFailure email)"
  "within_ids F R (Manager_CheckLoginLimit ip email)" "within_ids F R (Manager_ResetLoginLimit ip email)"
  "within_ids F R (Manager_CheckRegisterLimit ip)" "within_ids F R (Manager_CreateSessionPair l u)"
  "within_ids F R (Manager_ValidateAccess l tok)" "within_ids F R (Manager_RefreshSession l tok)"
  "within_ids F R (Manager_RevokeSession l tok)" "own u \<Longrightarrow> within_ids F R (Manager_RevokeAllSessions u)"
  unfolding limits_defs manager_session_defs by (intro steps repos; assumption)+

subsection \<open>Handlers\<close>

lemma api_within:
  "within_ids F R (writeJSON code v)" "within_ids F R (WriteHeader code)" "within_ids F R (logInternalError r op e)"
  "within_ids F R (fail500 r op e msg)" "within_ids F R (setAuthCookies a b ta tb)" "within_ids F R clearAuthCookies"
  "within_ids F R (ValidateTOTP l s c)" "within_ids F R (recordEvent l r uo ty res meta)"
  unfolding writeJSON_def WriteHeader_def logInternalError_def fail500_def setAuthCookies_def
    clearAuthCookies_def ValidateTOTP_def recordEvent_def
  by (intro steps repos)+

lemma login_steps:
  "within_ids F R (dummy_work l h)" "within_ids F R (reject_login email)" "within_ids F R authGenerateToken"
  "within_ids F R (createMFAToken l u)" "within_ids F R (validateMFAToken l tok)"
  "within_ids F R (completeLogin l r user)"
  unfolding dummy_work_def reject_login_def authGenerateToken_def createMFAToken_def
    validateMFAToken_def completeLogin_def
  by (intro steps repos manager_within api_within)+

lemma challenge_login_within: "within_ids F R (challenge_login l r user)"
  unfolding challenge_login_def by (intro steps login_steps api_within)

lemma login_known_within: "within_ids F R (login_known l r email h user)"
  unfolding login_known_def by (intro steps manager_within login_steps challenge_login_within api_within)

lemma PostRegister_within: "within_ids F R (PostRegister l r)"
  unfolding PostRegister_def by (intro steps repos manager_within api_within)

lemma getLoginKdfParams_within: "within_ids F R (getLoginKdfParams l r)"
  unfolding getLoginKdfParams_def GetLoginKdfParams_def by (intro steps repos login_steps api_within)

lemma PostLogin_within: "within_ids F R (PostLogin l r)"
  unfolding PostLogin_def
  by (intro steps repos manager_within login_steps login_known_within api_within)

lemma second_factor_within: "check_second_factor l u body = Some p \<Longrightarrow> within_ids F R p"
  by (auto simp: check_second_factor_def intro!: steps repos api_within
      split: option.splits list.splits prod.splits)

lemma PostLoginMfa_within: "within_ids F R (PostLoginMfa l r)"
  unfolding PostLoginMfa_def
  by (intro steps repos login_steps api_within second_factor_within; assumption)

lemma PostAuthRefresh_within: "within_ids F R (PostAuthRefresh l r)"
  unfolding PostAuthRefresh_def by (intro steps manager_within api_within)

lemmas open_handlers = PostRegister_within getLoginKdfParams_within PostLogin_within
  PostLoginMfa_within PostAuthRefresh_within

text \<open>The handlers behind \<open>sessionAuth\<close> write only data of the user in the context.\<close>

definition ctx_own :: "request \<Rightarrow> bool" where
  "ctx_own r = (\<forall>u. cx_user_id r = Some u \<longrightarrow> own u)"

lemma ctx_ownD: "ctx_own r \<Longrightarrow> cx_user_id r = Some u \<Longrightarrow> own u"
  by (simp add: ctx_own_def)

lemma verify2FA_within: "within_ids F R (verify2FACredential l u body)"
  unfolding verify2FACredential_def by (intro steps repos api_within)

lemma issue_codes_within: "own u \<Longrightarrow> within_ids F R (issue_recovery_codes l u a b)"
  unfolding issue_recovery_codes_def by (intro steps repos; assumption)

lemmas handler_steps = steps repos manager_within api_within login_steps verify2FA_within
  issue_codes_within

lemma account_handlers:
  "ctx_own r \<Longrightarrow> within_ids F R (PostLogout l r)" "ctx_own r \<Longrightarrow> within_ids F R (DeleteUser l r)"
  "ctx_own r \<Longrightarrow> within_ids F R (PutUserKey l r)" "ctx_own r \<Longrightarrow> within_ids F R (PostUser2faEnroll l r)"
  "ctx_own r \<Longrightarrow> within_ids F R (DeleteUser2fa l r)"
  "ctx_own r \<Longrightarrow> within_ids F R (PostUser2faRecoveryCodes l r)"
  "ctx_own r \<Longrightarrow> within_ids F R (getActivity l r)"
  unfolding PostLogout_def DeleteUser_def PutUserKey_def PostUser2faEnroll_def DeleteUser2fa_def
    PostUser2faRecoveryCodes_def getActivity_def GetActivity_def
  by (intro handler_steps; (erule (1) ctx_ownD)?)+

lemma item_handlers:
  "within_ids F R GetHealth" "within_ids F R (GetReady r)" "ctx_own r \<Longrightarrow> within_ids F R (ListItems r)"
  "ctx_own r \<Longrightarrow> within_ids F R (CreateItem l r)" "ctx_own r \<Longrightarrow> within_ids F R (UpdateItem l r iid)"
  "ctx_own r \<Longrightarrow> within_ids F R (DeleteItem l r iid)" "ctx_own r \<Longrightarrow> within_ids F R (GetSync l r)"
  unfolding item_handler_defs Store_Ping_def
  by (intro handler_steps statements; (erule (1) ctx_ownD)?)+

text \<open>A handler that never looks at the user in the context, behind any middlewares but
  \<open>sessionAuth\<close>.\<close>

lemma middlewares_within:
  assumes h: "\<And>r. within_ids F R (h r)"
  shows "handler_within_ids F R (captureUserAgent h)" "handler_within_ids F R (requestID l h)"
    "handler_within_ids F R (recoverPanic h)" "handler_within_ids F R (limitBody h)"
    "handler_within_ids F R (logRequests h)" "handler_within_ids F R (securityHeaders h)"
    "handler_within_ids F R (cors origin h)" "handler_within_ids F R (requireCSRF h)"
proof -
  have st: "within_ids F R get_status" by (rule within_pure) (simp add: get_status_def)
  show "handler_within_ids F R (captureUserAgent h)" "handler_within_ids F R (requestID l h)"
    "handler_within_ids F R (recoverPanic h)" "handler_within_ids F R (limitBody h)"
    "handler_within_ids F R (logRequests h)" "handler_within_ids F R (securityHeaders h)"
    "handler_within_ids F R (cors origin h)" "handler_within_ids F R (requireCSRF h)"
    unfolding handler_within_ids_def captureUserAgent_def requestID_def newRequestID_def
      recoverPanic_def limitBody_def logRequests_def securityHeaders_def cors_def requireCSRF_def
    by (intro allI h steps st api_within)+
qed

lemma handler_withinD: "handler_within_ids F R h \<Longrightarrow> within_ids F R (h r)"
  by (simp add: handler_within_ids_def)

end

text \<open>Where every user's data may be written, the relation covers the whole server.\<close>

locale store_relation_all = store_relation +
  assumes own_all: "own u"
begin

lemma sessionAuth_within:
  assumes h: "\<And>r. within_ids F R (h r)"
  shows "handler_within_ids F R (sessionAuth l h)"
  unfolding handler_within_ids_def sessionAuth_def by (intro allI h steps manager_within api_within)

lemma plain_within: "(\<And>r. within_ids F R (f r)) \<Longrightarrow> handler_within_ids F R (plain f)"
  unfolding handler_within_ids_def plain_def by (intro allI steps)

lemma chain_within:
  "handler_within_ids F R h \<Longrightarrow> set mws \<subseteq> {requireCSRF, sessionAuth l} \<Longrightarrow> handler_within_ids F R (chain h mws)"
  by (induction mws)
     (auto simp: chain_def intro!: middlewares_within sessionAuth_within dest: handler_withinD)

lemma route_within:
  "(\<And>r. within_ids F R (f r)) \<Longrightarrow> set mws \<subseteq> {requireCSRF, sessionAuth l} \<Longrightarrow>
   handler_within_ids F R (rt_handler (route_of m p mws f))"
  by (simp add: route_of_def chain_within plain_within)

lemma route_for_within:
  "(\<And>r. within_ids F R (h r)) \<Longrightarrow> set mws \<subseteq> {requireCSRF, sessionAuth l} \<Longrightarrow>
   handler_within_ids F R (rt_handler (route_for m p mws h))"
  using chain_within [of h mws l] by (simp add: handler_within_ids_def)

lemma withItemID_within: "(\<And>i. within_ids F R (h r i)) \<Longrightarrow> within_ids F R (withItemID l h r)"
  unfolding withItemID_def by (intro steps api_within)

lemma serve_pages_within: "within_ids F R (serveSpec spec r)" "within_ids F R (serveSwaggerUI page r)"
  unfolding serveSpec_def serveSwaggerUI_def by (intro steps api_within)+

lemma routes_within: "rt \<in> set (routes l spec page) \<Longrightarrow> handler_within_ids F R (rt_handler rt)"
proof -
  have c: "ctx_own r" for r by (simp add: ctx_own_def own_all)
  have "\<forall>rt \<in> set (routes l spec page). handler_within_ids F R (rt_handler rt)"
    unfolding routes_def list.set ball_simps
    by (intro conjI route_within [where l = l] route_for_within [where l = l] open_handlers account_handlers item_handlers
        withItemID_within serve_pages_within c TrueI; simp)
  then show "rt \<in> set (routes l spec page) \<Longrightarrow> handler_within_ids F R (rt_handler rt)" by blast
qed

lemma mux_within:
  assumes "\<And>rt. rt \<in> set rts \<Longrightarrow> handler_within_ids F R (rt_handler rt)"
  shows "within_ids F R (mux rts r)"
proof -
  have "within_ids F R (rt_handler rt q)" if "first_match r rts = Some (pid, rt)" for pid rt q
    using assms first_match_mem [OF that] by (blast intro: handler_withinD)
  then have "within_ids F R (case first_match r rts of
      Some (pid, rt) \<Rightarrow> rt_handler rt (r\<lparr>rq_path_id := pid\<rparr>)
    | None \<Rightarrow> if path_known r rts then do { respond (rs_write_header 405); ret Done }
              else do { respond (rs_write_header 404); ret Done })"
    by (auto intro!: steps split: option.split)
  then show ?thesis
    unfolding mux_def by (intro within_if) (intro steps api_within, assumption)
qed

theorem serve_within: "within_ids F R (serve l spec page origin r)"
proof -
  have "handler_within_ids F R (NewRouter l spec page origin)"
    unfolding NewRouter_def chain_def foldr.simps comp_def id_def
    by (intro middlewares_within handler_withinD mux_within routes_within)
  then show ?thesis unfolding serve_def by (intro steps handler_withinD)
qed

end

end
