(* ===== verification/Frames.thy ===== *)
theory Frames
  imports Router
begin

text \<open>
  Relations between the world before and after a program.  \<open>world_frame\<close> is any reflexive and
  transitive one: its rules take it through sequencing and branching, so a program keeps it
  if its primitive steps do.  \<open>quiet_frame\<close> extends it by the elementary changes that leave
  the login limits alone, \<open>program_frame\<close> by the operations on those and lifts it to the route
  table; \<open>response_frame\<close> is a relation on the response
  alone, which is one; \<open>server_frame\<close> extends it to the middlewares and the served request.
\<close>

definition keeps :: "(world \<Rightarrow> world \<Rightarrow> bool) \<Rightarrow> 'a prog \<Rightarrow> bool" where
  "keeps T p = (\<forall>w. T w (snd (run_state p w)))"

lemma keepsD: "keeps T p \<Longrightarrow> run_state p w = (x, w') \<Longrightarrow> T w w'"
  by (metis keeps_def snd_conv)

text \<open>What each primitive leaves alone.\<close>

lemma prims_keep_db:
  "w_db (snd (run_state time_Now w)) = w_db w" "w_db (snd (run_state (time_Sleep d) w)) = w_db w"
  "w_db (snd (run_state (lift_rng m) w)) = w_db w" "w_db (snd (run_state (lift_auth g) w)) = w_db w"
  "w_db (snd (run_state (lift_alerts k) w)) = w_db w" "w_db (snd (run_state (log_it e) w)) = w_db w"
  "w_db (snd (run_state (respond f) w)) = w_db w" "w_db (snd (run_state (get_auth q) w)) = w_db w"
  "w_db (snd (run_state (server_hash l hs salt) w)) = w_db w"
  by (simp_all add: prim_defs Let_def split: prod.split)

lemma prims_keep_events:
  "w_events (snd (run_state time_Now w)) = w_events w" "w_events (snd (run_state (time_Sleep d) w)) = w_events w"
  "w_events (snd (run_state (lift_rng m) w)) = w_events w" "w_events (snd (run_state (lift_auth g) w)) = w_events w"
  "w_events (snd (run_state (lift_alerts k) w)) = w_events w" "w_events (snd (run_state (log_it e) w)) = w_events w"
  "w_events (snd (run_state (respond f) w)) = w_events w" "w_events (snd (run_state (get_auth q) w)) = w_events w"
  "w_events (snd (run_state (server_hash l hs salt) w)) = w_events w"
  by (simp_all add: prim_defs Let_def split: prod.split)

lemma prims_keep_resp:
  "w_resp (snd (run_state time_Now w)) = w_resp w" "w_resp (snd (run_state (time_Sleep d) w)) = w_resp w"
  "w_resp (snd (run_state (lift_rng m) w)) = w_resp w" "w_resp (snd (run_state (lift_auth g) w)) = w_resp w"
  "w_resp (snd (run_state (lift_alerts k) w)) = w_resp w" "w_resp (snd (run_state (log_it e) w)) = w_resp w"
  "w_resp (snd (run_state (get_auth q) w)) = w_resp w" "w_resp (snd (run_state (server_hash l hs salt) w)) = w_resp w"
  "w_resp (snd (run_state (db_exec s) w)) = w_resp w" "w_resp (snd (run_state (db_tx ss) w)) = w_resp w"
  by (simp_all add: prim_defs db_exec_def db_tx_def next_event_def Let_def split: prod.split trip.split sum.split)

lemmas prims_keep = prims_keep_db prims_keep_events prims_keep_resp

locale world_frame =
  fixes T :: "world \<Rightarrow> world \<Rightarrow> bool"
  assumes T_refl: "T w w"
    and T_trans: "T w w1 \<Longrightarrow> T w1 w2 \<Longrightarrow> T w w2"
begin

lemma keeps_bind:
  assumes "keeps T p" and "\<And>x. keeps T (f x)"
  shows "keeps T (State_Monad.bind p f)"
  unfolding keeps_def
proof
  fix w
  obtain x w1 where 1: "run_state p w = (x, w1)" by fastforce
  then show "T w (snd (run_state (State_Monad.bind p f) w))"
    using T_trans [OF keepsD [OF assms(1) 1]] assms(2) [of x] by (simp add: keeps_def)
qed

lemma keeps_return: "keeps T (State_Monad.return x)"
  by (simp add: keeps_def T_refl)

lemma keeps_if: "keeps T p \<Longrightarrow> keeps T q \<Longrightarrow> keeps T (if b then p else q)"
  by simp

lemma keeps_option: "keeps T p \<Longrightarrow> (\<And>x. ov = Some x \<Longrightarrow> keeps T (f x)) \<Longrightarrow> keeps T (case ov of None \<Rightarrow> p | Some x \<Rightarrow> f x)"
  by (cases ov) auto

lemma keeps_sum:
  "(\<And>e. keeps T (f e)) \<Longrightarrow> (\<And>x. keeps T (g x)) \<Longrightarrow> keeps T (case s of Inl e \<Rightarrow> f e | Inr x \<Rightarrow> g x)"
  by (cases s) auto

lemma keeps_prod: "(\<And>x y. p = (x, y) \<Longrightarrow> keeps T (f x y)) \<Longrightarrow> keeps T (case p of (x, y) \<Rightarrow> f x y)"
  by (cases p) auto

lemma keeps_list: "keeps T p \<Longrightarrow> (\<And>x xs. keeps T (f x xs)) \<Longrightarrow> keeps T (case ls of [] \<Rightarrow> p | x # xs \<Rightarrow> f x xs)"
  by (cases ls) auto

lemma keeps_let: "(\<And>x. keeps T (f x)) \<Longrightarrow> keeps T (let x = a in f x)"
  by simp

lemmas keeps_rules = keeps_bind keeps_return keeps_if keeps_option keeps_sum keeps_prod keeps_list keeps_let

end

lemma matched_route:
  "first_match r rts = Some (pid, rt) \<Longrightarrow> rt \<in> set rts \<and> route_match r rt = Some pid"
  by (induction rts) (auto split: option.splits)

subsection \<open>Relations every handler keeps\<close>

text \<open>
  \<open>quiet_frame\<close> names the elementary changes a handler makes to the world outside the login
  limits: a step of the clock, the random source, the log, the alerts, the database, and the
  four ways of writing a response.  A relation that keeps them is kept by the repositories,
  the session operations of the manager and the helpers of the handlers.
\<close>

locale quiet_frame = world_frame +
  assumes T_clock: "T w (w\<lparr>w_clock := (\<lambda>i. w_clock w (Suc i))\<rparr>)"
    and T_slept: "T w (w\<lparr>w_slept := dur\<rparr>)"
    and T_rng: "T w (w\<lparr>w_rng := g\<rparr>)"
    and T_alerts: "T w (w\<lparr>w_alerts := tr, w_notices := ns\<rparr>)"
    and T_log: "T w (w\<lparr>w_log := es\<rparr>)"
    and T_kdf: "T w (w\<lparr>w_kdf := n\<rparr>)"
    and T_events: "T w (w\<lparr>w_events := evs, w_db := d\<rparr>)"
    and T_type: "T w (w\<lparr>w_resp := rs_set ''Content-Type'' v (w_resp w)\<rparr>)"
    and T_docs: "T w (w\<lparr>w_resp := rs_set ''Content-Security-Policy'' docs_csp (w_resp w)\<rparr>)"
    and T_cookie: "T w (w\<lparr>w_resp := rs_set_cookie c (w_resp w)\<rparr>)"
    and T_status: "T w (w\<lparr>w_resp := rs_write_header code (w_resp w)\<rparr>)"
    and T_body: "T w (w\<lparr>w_resp := rs_write b (w_resp w)\<rparr>)"
begin

lemma prims:
  "keeps T time_Now" "keeps T (time_Sleep dr)" "keeps T (lift_rng m)" "keeps T (lift_alerts k)"
  "keeps T (log_it e)" "keeps T (get_auth q)" "keeps T (server_hash l hs salt)"
  by (simp_all add: keeps_def prim_defs Let_def T_refl T_clock T_slept T_rng T_alerts T_log T_kdf
      split: prod.split)

lemma trips: "keeps T (db_exec s)" "keeps T (db_tx ss)"
proof -
  have e: "T w (w\<lparr>w_events := evs, w_db := d\<rparr>)" "T w (w\<lparr>w_events := evs\<rparr>)"
      "T w (w\<lparr>w_db := d, w_events := evs\<rparr>)" for w d evs
    using T_events [of w d evs] T_events [of w "w_db w" evs] by (cases w; simp)+
  show "keeps T (db_exec s)" "keeps T (db_tx ss)"
    by (auto simp: keeps_def db_exec_def db_tx_def next_event_def Let_def e
        split: prod.split trip.split sum.split)
qed

lemma writes:
  "keeps T (writeJSON n j)" "keeps T (WriteHeader n)" "keeps T (respond (rs_write_header n))"
  "keeps T (respond (rs_write b))" "keeps T (respond (rs_set_cookie c))"
  "keeps T (respond (rs_set ''Content-Type'' v))"
  "keeps T (respond (rs_set ''Content-Security-Policy'' docs_csp))"
proof -
  have "T w (w\<lparr>w_resp := rs_json n j (w_resp w)\<rparr>)" for w
    using T_type [of w] T_status [of "w\<lparr>w_resp := rs\<rparr>" for rs] T_body [of "w\<lparr>w_resp := rs\<rparr>" for rs]
    by (simp add: rs_json_def) (blast intro: T_trans)
  then show "keeps T (writeJSON n j)" by (simp add: keeps_def writeJSON_def respond_def)
qed (simp_all add: keeps_def WriteHeader_def respond_def T_status T_body T_cookie T_type T_docs)

lemmas steps = keeps_rules prims trips writes

lemma consume_loop_keeps: "keeps T (consume_loop m cs)"
  by (induction cs) (auto simp: try_prog_def queries_defs intro!: steps)

lemma record_keeps: "keeps T (recordEvent l r u ty res meta)"
  unfolding recordEvent_def audit_repo_defs queries_defs try_prog_def by (intro steps)

lemma helpers_keep:
  "keeps T (fail500 r op e msg)" "keeps T (logInternalError r op e)"
  "keeps T (setAuthCookies a b ta tb)" "keeps T clearAuthCookies"
  "keeps T (ValidateTOTP l sc c)" "keeps T (dummy_work l h)"
  unfolding fail500_def logInternalError_def setAuthCookies_def clearAuthCookies_def ValidateTOTP_def
    dummy_work_def
  by (intro steps)+

lemmas more_steps = steps record_keeps helpers_keep consume_loop_keeps

lemma repos_keep:
  "keeps T (UsersRepo_GetByID u)" "keeps T (UsersRepo_GetByEmail e)"
  "keeps T (UsersRepo_Create e k h s psk)" "keeps T (UsersRepo_UpdateAuthCredentials u h s k psk)"
  "keeps T (UsersRepo_DeleteUser u)"
  "keeps T (ItemsRepo_Create u c ty)" "keeps T (ItemsRepo_List u)"
  "keeps T (ItemsRepo_Update i u n c ty)" "keeps T (ItemsRepo_Delete i u)"
  "keeps T (MFARepo_EnableTOTP u p)" "keeps T (MFARepo_DisableTOTP u)"
  "keeps T (MFARepo_GetTOTPStatus u)" "keeps T (MFARepo_ReplaceRecoveryCodes u hss)"
  "keeps T (MFARepo_ConsumeRecoveryCode u m)" "keeps T (MFARepo_ConsumeChallenge h)"
  "keeps T (MFARepo_CreateChallenge u h exp)" "keeps T (AuditRepo_ListByUser l u cursor lim)"
  unfolding users_repo_defs items_repo_defs mfa_repo_defs audit_repo_defs queries_defs scan_defs try_prog_def
  by (intro more_steps)+

lemma managers_keep:
  "keeps T (Manager_CreateSessionPair l u)" "keeps T (Manager_ValidateAccess l tok)"
  "keeps T (Manager_RefreshSession l tok)" "keeps T (Manager_RevokeSession l tok)"
  "keeps T (Manager_RevokeAllSessions u)"
  unfolding manager_session_defs sessions_repo_defs queries_defs scan_defs try_prog_def
  by (intro more_steps)+

lemma logins_keep:
  "keeps T (createMFAToken l u)" "keeps T (completeLogin l r user)"
  unfolding createMFAToken_def authGenerateToken_def completeLogin_def try_prog_def
  by (intro more_steps repos_keep managers_keep)+

lemma challenge_keeps: "keeps T (challenge_login l r user)"
  unfolding challenge_login_def by (intro more_steps logins_keep)

end

text \<open>
  \<open>program_frame\<close> adds the five operations of the session manager on its limits: a relation
  that keeps them too is kept by every handler and by the route table.
\<close>

locale program_frame = quiet_frame +
  assumes T_limits: "keeps T (Manager_IsLoginLocked email)" "keeps T (Manager_RecordLoginFailure email)"
      "keeps T (Manager_CheckLoginLimit ip email)" "keeps T (Manager_ResetLoginLimit ip email)"
      "keeps T (Manager_CheckRegisterLimit ip)"
begin

lemma reject_keeps: "keeps T (reject_login email)"
  unfolding reject_login_def by (intro more_steps T_limits)

lemmas all_steps = more_steps T_limits reject_keeps

lemma login_known_keeps: "keeps T (login_known l r e h user)"
  unfolding login_known_def by (intro all_steps challenge_keeps logins_keep)

lemma issue_keeps: "keeps T (issue_recovery_codes l u a b)"
  unfolding issue_recovery_codes_def by (intro all_steps repos_keep)

lemma second_factor_keeps: "check_second_factor l u body = Some p \<Longrightarrow> keeps T p"
  by (auto simp: check_second_factor_def intro!: all_steps repos_keep split: option.splits list.splits prod.splits)

lemma PostLoginMfa_keeps: "keeps T (PostLoginMfa l r)"
  unfolding PostLoginMfa_def validateMFAToken_def
  by (intro all_steps repos_keep logins_keep second_factor_keeps; assumption)

lemma handlers_keep:
  "keeps T (PostRegister l r)" "keeps T (getLoginKdfParams l r)" "keeps T (PostLogin l r)"
  "keeps T (PostAuthRefresh l r)" "keeps T (PostLogout l r)"
  "keeps T (DeleteUser l r)" "keeps T (PutUserKey l r)" "keeps T (PostUser2faEnroll l r)"
  "keeps T (DeleteUser2fa l r)" "keeps T (PostUser2faRecoveryCodes l r)"
  "keeps T (getActivity l r)" "keeps T GetHealth" "keeps T (GetReady r)"
  "keeps T (ListItems r)" "keeps T (CreateItem l r)" "keeps T (UpdateItem l r iid)"
  "keeps T (DeleteItem l r iid)" "keeps T (GetSync l r)"
  "keeps T (serveSpec spec r)" "keeps T (serveSwaggerUI page r)"
  unfolding PostRegister_def getLoginKdfParams_def GetLoginKdfParams_def PostLogin_def PostAuthRefresh_def
    PostLogout_def DeleteUser_def PutUserKey_def PostUser2faEnroll_def DeleteUser2fa_def verify2FACredential_def
    PostUser2faRecoveryCodes_def getActivity_def GetActivity_def item_handler_defs Store_Ping_def
    serveSpec_def serveSwaggerUI_def
  by (intro all_steps repos_keep managers_keep login_known_keeps issue_keeps)+

lemma withItemID_keeps: "(\<And>i. keeps T (h r i)) \<Longrightarrow> keeps T (withItemID l h r)"
  unfolding withItemID_def by (intro all_steps)

lemma plain_keeps: "keeps T (f r) \<Longrightarrow> keeps T (plain f r)"
  unfolding plain_def by (intro all_steps)

lemma guards_keep:
  "keeps T (h r) \<Longrightarrow> keeps T (requireCSRF h r)"
  "(\<And>q. keeps T (h q)) \<Longrightarrow> keeps T (sessionAuth l h r)"
  unfolding requireCSRF_def sessionAuth_def by (intro all_steps managers_keep; assumption)+

lemma routes_keep: "rt \<in> set (routes l spec page) \<Longrightarrow> keeps T (rt_handler rt r)"
  unfolding routes_def
  by (auto simp: route_of_def chain_def
      intro!: guards_keep plain_keeps handlers_keep PostLoginMfa_keeps withItemID_keeps)

lemma mux_keeps: "keeps T (mux (routes l spec page) r)"
  unfolding mux_def by (intro all_steps routes_keep) (auto dest: matched_route)

end

subsection \<open>Relations on the response\<close>

locale response_frame =
  fixes Q :: "response \<Rightarrow> response \<Rightarrow> bool"
  assumes Q_refl: "Q rs rs"
    and Q_trans: "Q rs rs1 \<Longrightarrow> Q rs1 rs2 \<Longrightarrow> Q rs rs2"
    and Q_type: "Q rs (rs_set ''Content-Type'' v rs)"
    and Q_docs: "Q rs (rs_set ''Content-Security-Policy'' docs_csp rs)"
    and Q_cookie: "Q rs (rs_set_cookie c rs)"
    and Q_status: "Q rs (rs_write_header n rs)"
    and Q_body: "Q rs (rs_write b rs)"

lemma limits_keep_resp:
  "w_resp (snd (run_state (Manager_IsLoginLocked email) w)) = w_resp w"
  "w_resp (snd (run_state (Manager_RecordLoginFailure email) w)) = w_resp w"
  "w_resp (snd (run_state (Manager_CheckLoginLimit ip email) w)) = w_resp w"
  "w_resp (snd (run_state (Manager_ResetLoginLimit ip email) w)) = w_resp w"
  "w_resp (snd (run_state (Manager_CheckRegisterLimit ip) w)) = w_resp w"
  by (simp_all add: limits_defs prim_defs Let_def split: prod.split)

sublocale response_frame \<subseteq> program_frame "\<lambda>w w'. Q (w_resp w) (w_resp w')"
  by unfold_locales
     (auto simp: keeps_def limits_keep_resp Q_refl intro: Q_trans Q_type Q_docs Q_cookie Q_status Q_body)

subsection \<open>Relations the whole server keeps\<close>

text \<open>A frame that does not look at the response is kept by the middlewares too.\<close>

locale server_frame = program_frame +
  assumes T_respond: "T w (w\<lparr>w_resp := rs\<rparr>)"
begin

lemma respond_keeps: "keeps T (respond f)"
  by (simp add: keeps_def respond_def T_respond)

lemma outcome_keeps:
  "keeps T p \<Longrightarrow> (\<And>m. keeps T (f m)) \<Longrightarrow> keeps T (case oc of Done \<Rightarrow> p | Panicked m \<Rightarrow> f m)"
  by (cases oc) auto

lemma wrappers_keep:
  "(\<And>q. keeps T (h q)) \<Longrightarrow> keeps T (recoverPanic h r)" "(\<And>q. keeps T (h q)) \<Longrightarrow> keeps T (logRequests h r)"
  "(\<And>q. keeps T (h q)) \<Longrightarrow> keeps T (securityHeaders h r)" "(\<And>q. keeps T (h q)) \<Longrightarrow> keeps T (cors origin h r)"
  "(\<And>q. keeps T (h q)) \<Longrightarrow> keeps T (limitBody h r)" "(\<And>q. keeps T (h q)) \<Longrightarrow> keeps T (captureUserAgent h r)"
  "(\<And>q. keeps T (h q)) \<Longrightarrow> keeps T (requestID l h r)"
proof -
  have st: "keeps T get_status" by (simp add: keeps_def get_status_def T_refl)
  assume h: "\<And>q. keeps T (h q)"
  show "keeps T (recoverPanic h r)" unfolding recoverPanic_def by (intro steps outcome_keeps h)
  show "keeps T (logRequests h r)" unfolding logRequests_def by (intro steps outcome_keeps st h)
  show "keeps T (securityHeaders h r)" unfolding securityHeaders_def by (intro keeps_bind respond_keeps h)
  show "keeps T (cors origin h r)" unfolding cors_def by (intro steps respond_keeps h)
  show "keeps T (limitBody h r)" unfolding limitBody_def by (rule h)
  show "keeps T (captureUserAgent h r)" unfolding captureUserAgent_def by (rule h)
  show "keeps T (requestID l h r)"
    unfolding requestID_def newRequestID_def by (intro steps respond_keeps h)
qed

lemma serve_keeps: "keeps T (serve l spec page origin r)"
  unfolding serve_def NewRouter_def chain_def
  by (simp, intro keeps_bind respond_keeps wrappers_keep mux_keeps)

end

end
