(* ===== verification/Guarantees.thy ===== *)
theory Guarantees
  imports Effects Frames
begin

text \<open>
  Interpretations of the handler/statement interface on the model's statements, and the
  guarantees of the whole server that follow: the invariant of the tables under any
  interleaving of requests, the audit log that only grows and keeps the users of its events as
  long as they exist, and the confinement of a request to the data of the user whose live
  session its access token names.
\<close>

subsection \<open>The table invariant\<close>

lemma inv_stmts:
  "stmt_within inv_step (createUser email kdf h salt psk)"
  "stmt_within inv_step (updateUserProtectedKey u psk)"
  "stmt_within inv_step (updateUserAuthCredentials u h salt kdf psk)"
  "stmt_within inv_step (deleteUser u)" "stmt_within inv_step (enableUserTOTP u secret)"
  "stmt_within inv_step (disableUserTOTP u)" "stmt_within inv_step (createItem u c t)"
  "stmt_within inv_step (updateItem iid u n c t')" "stmt_within inv_step (deleteItem iid u)"
  "stmt_within inv_step (createSessionPair u ah ae rh re)"
  "stmt_within inv_step (rotateSessionTokens sid ah ae rh re)"
  "stmt_within inv_step (deleteSessionByAccessHash ah)"
  "stmt_within inv_step (deleteSessionByRefreshHash rh)"
  "stmt_within inv_step (deleteAllSessionsForUser u)"
  "stmt_within inv_step (deleteRecoveryCodesForUser u)"
  "stmt_within inv_step (insertRecoveryCode u h)" "stmt_within inv_step (markRecoveryCodeUsed cid)"
  "stmt_within inv_step (createMFAChallenge u h exp)" "stmt_within inv_step (consumeMFAChallenge h)"
  "stmt_within inv_step cleanupExpiredMFAChallenges"
  "stmt_within inv_step (appendAuditEvent uo ty ip ua res meta)"
  "stmt_within inv_step (recordDeviceHash u h)"
  unfolding stmt_within_def
  by (intro allI createUser_inv createItem_inv updateItem_inv deleteItem_inv createSessionPair_inv
      rotateSessionTokens_inv insertRecoveryCode_inv markRecoveryCodeUsed_inv
      createMFAChallenge_inv appendAuditEvent_inv recordDeviceHash_inv;
      simp add: updateUserProtectedKey_def updateUserAuthCredentials_def deleteUser_def
        enableUserTOTP_def disableUserTOTP_def deleteSessionByAccessHash_def
        deleteSessionByRefreshHash_def deleteAllSessionsForUser_def deleteRecoveryCodesForUser_def
        consumeMFAChallenge_def cleanupExpiredMFAChallenges_def set_users_inv cascade_user_inv
        filter_sessions_inv filter_recovery_inv filter_challenges_inv Let_def)+

interpretation tables: store_relation_all UNIV inv_step "\<lambda>_. True"
  by unfold_locales (auto simp: inv_step_def intro!: inv_stmts)

subsection \<open>The audit log\<close>

text \<open>
  Events are never removed, reordered or changed, except that an event loses its user when
  that account no longer exists.  \<open>F\<close> holds the identifiers the database may still issue: an
  account with one of them might have come and gone in between.
\<close>

definition same_event :: "uuid set \<Rightarrow> db \<Rightarrow> audit_row \<Rightarrow> audit_row \<Rightarrow> bool" where
  "same_event F d' e e' = (e' = e \<or> e' = e\<lparr>au_user := None\<rparr> \<and>
     (\<forall>u. au_user e = Some u \<longrightarrow> u \<in> F \<or> \<not> user_exists d' u))"

definition audit_grows :: "uuid set \<Rightarrow> db \<Rightarrow> db \<Rightarrow> bool" where
  "audit_grows F d d' = ((\<forall>u. user_exists d' u \<longrightarrow> user_exists d u \<or> u \<in> F) \<and>
     (\<exists>old new. audits d' = old @ new \<and> list_all2 (same_event F d') (audits d) old))"

lemma same_event_refl: "list_all2 (same_event F d) es es"
  by (simp add: same_event_def list_all2_refl)

lemma audit_grows_append:
  "(\<And>u. user_exists d' u \<Longrightarrow> user_exists d u \<or> u \<in> F) \<Longrightarrow> audits d' = audits d @ new \<Longrightarrow> audit_grows F d d'"
  unfolding audit_grows_def using same_event_refl by blast

lemma audit_grows_same:
  "(\<And>u. user_exists d' u \<Longrightarrow> user_exists d u \<or> u \<in> F) \<Longrightarrow> audits d' = audits d \<Longrightarrow> audit_grows F d d'"
  by (rule audit_grows_append [where new = "[]"]) simp_all

lemma audit_grows_rows: "audits d' = audits d \<Longrightarrow> users d' = users d \<Longrightarrow> audit_grows F d d'"
  by (rule audit_grows_same) (simp_all add: user_exists_def)

lemma audit_grows_trans:
  assumes "audit_grows F d d'" and "audit_grows F d' d''"
  shows "audit_grows F d d''"
proof -
  from assms(1) obtain a b where a: "audits d' = a @ b" "list_all2 (same_event F d') (audits d) a"
    by (auto simp: audit_grows_def)
  from assms(2) obtain p q where p: "audits d'' = p @ q" "list_all2 (same_event F d'') (a @ b) p"
    using a(1) by (auto simp: audit_grows_def)
  from p(2) obtain p1 p2 where p1: "p = p1 @ p2" "list_all2 (same_event F d'') a p1"
    by (auto simp: list_all2_append1)
  have ids: "user_exists d' u \<Longrightarrow> user_exists d u \<or> u \<in> F" "user_exists d'' u \<Longrightarrow> user_exists d' u \<or> u \<in> F" for u
    using assms by (auto simp: audit_grows_def)
  have "same_event F d'' x z" if "same_event F d' x y" "same_event F d'' y z" for x y z
    using that ids(2) by (auto simp: same_event_def)
  then have "list_all2 (same_event F d'') (audits d) p1"
    by (rule list_all2_trans [OF _ a(2) p1(2)])
  then have "\<exists>old new. audits d'' = old @ new \<and> list_all2 (same_event F d'') (audits d) old"
    using p(1) p1(1) by (metis append_assoc)
  then show ?thesis unfolding audit_grows_def using ids by blast
qed

lemma cascade_audit: "audit_grows F d (cascade_user u d)"
proof -
  have "list_all2 (same_event F (cascade_user u d)) (audits d) (audits (cascade_user u d))"
    by (auto simp: cascade_user_def same_event_def list_all2_conv_all_nth user_exists_def list_ex_iff)
  then show ?thesis unfolding audit_grows_def by (auto simp: cascade_user_def user_exists_def list_ex_iff)
qed

lemma audit_set_users: "(\<And>x. u_id (f x) = u_id x) \<Longrightarrow> audit_grows F d (set_users u f d)"
  by (rule audit_grows_same) (auto simp: set_users_def user_exists_def list_ex_iff split: if_splits)

lemma audit_createUser: "stmt_within_ids F (audit_grows F) (createUser email kdf h salt psk)"
  by (auto simp: stmt_within_ids_def createUser_def Let_def user_exists_def intro!: audit_grows_same)

interpretation audit: store_relation_all F "audit_grows F" "\<lambda>_. True" for F
proof unfold_locales
  show "audit_grows F d d" for d by (rule audit_grows_rows) simp_all
  show "audit_grows F d d' \<Longrightarrow> audit_grows F d' d'' \<Longrightarrow> audit_grows F d d''" for d d' d''
    by (rule audit_grows_trans)
  show "stmt_within_ids F (audit_grows F) (appendAuditEvent uo ty ip ua res meta)" for uo ty ip ua res meta
    by (auto simp: stmt_within_ids_def appendAuditEvent_def Let_def user_exists_def
        intro: audit_grows_rows intro!: audit_grows_append)
qed (auto simp: stmt_within_ids_def updateUserProtectedKey_def audit_createUser [unfolded stmt_within_ids_def]
    updateUserAuthCredentials_def deleteUser_def cascade_audit enableUserTOTP_def
    disableUserTOTP_def createItem_def updateItem_def deleteItem_def createSessionPair_def
    rotateSessionTokens_def deleteSessionByAccessHash_def deleteSessionByRefreshHash_def
    deleteAllSessionsForUser_def deleteRecoveryCodesForUser_def insertRecoveryCode_def
    markRecoveryCodeUsed_def createMFAChallenge_def consumeMFAChallenge_def
    cleanupExpiredMFAChallenges_def recordDeviceHash_def Let_def
    intro!: audit_grows_rows audit_set_users split: option.split)

subsection \<open>The data of one user\<close>

definition vault_frame :: "uuid set \<Rightarrow> db \<Rightarrow> db \<Rightarrow> bool" where
  "vault_frame U d d' = (filter (\<lambda>i. i_user i \<notin> U) (items d') = filter (\<lambda>i. i_user i \<notin> U) (items d) \<and>
     (\<forall>u \<in> set (users d). u_id u \<notin> U \<longrightarrow> u \<in> set (users d')))"

lemma frame_same: "items d' = items d \<Longrightarrow> users d' = users d \<Longrightarrow> vault_frame U d d'"
  by (simp add: vault_frame_def)

lemma frame_set_users: "u \<in> U \<Longrightarrow> vault_frame U d (set_users u f d)"
  by (auto simp: vault_frame_def set_users_def)

lemma frame_map_items:
  assumes "\<And>i. hit i \<Longrightarrow> i_user i \<in> U \<and> i_user (f i) = i_user i"
  shows "filter (\<lambda>i. i_user i \<notin> U) (map (\<lambda>i. if hit i then f i else i) xs) =
     filter (\<lambda>i. i_user i \<notin> U) xs"
  by (induction xs) (use assms in auto)

lemma frame_updateItem: "u \<in> U \<Longrightarrow> stmt_within (vault_frame U) (updateItem iid u n c t)"
proof -
  assume u: "u \<in> U"
  have "filter (\<lambda>i. i_user i \<notin> U) (map (\<lambda>i. if i_id i = iid \<and> i_user i = u \<and> i_revision i = n
      then i\<lparr>i_ciphertext := c, i_type := (case t of None \<Rightarrow> i_type i | Some t \<Rightarrow> t),
             i_revision := i_revision i + 1, i_updated := now\<rparr> else i) xs) =
    filter (\<lambda>i. i_user i \<notin> U) xs" for now xs
    by (rule frame_map_items) (use u in auto)
  then show ?thesis
    by (auto simp: stmt_within_def updateItem_def Let_def vault_frame_def split: option.split)
qed

interpretation frame: store_relation UNIV "vault_frame U" "\<lambda>u. u \<in> U" for U
proof unfold_locales
  show "u \<in> U \<Longrightarrow> stmt_within (vault_frame U) (updateItem iid u n c t)" for u iid n c t
    by (rule frame_updateItem)
qed (auto simp: stmt_within_def vault_frame_def createUser_def updateUserProtectedKey_def
    frame_set_users [unfolded vault_frame_def] updateUserAuthCredentials_def deleteUser_def
    cascade_user_def enableUserTOTP_def disableUserTOTP_def createItem_def deleteItem_def
    createSessionPair_def rotateSessionTokens_def deleteSessionByAccessHash_def
    deleteSessionByRefreshHash_def deleteAllSessionsForUser_def deleteRecoveryCodesForUser_def
    insertRecoveryCode_def markRecoveryCodeUsed_def createMFAChallenge_def consumeMFAChallenge_def
    cleanupExpiredMFAChallenges_def appendAuditEvent_def recordDeviceHash_def Let_def
    filter_filter intro!: filter_cong split: option.split)

subsection \<open>Confinement of a request\<close>

text \<open>
  The users whose session the presented access token names and who may still use it: the
  session had not expired at some reading of the clock among \<open>C\<close>.  A program is confined to
  \<open>U\<close> from \<open>d\<close> when, running alone from the tables \<open>d\<close> with readings in \<open>C\<close>, it leaves the
  items and accounts of everyone else as they are.
\<close>

definition authed_users :: "lib \<Rightarrow> request \<Rightarrow> db \<Rightarrow> time set \<Rightarrow> uuid set" where
  "authed_users l r d C = {u. \<exists>v s t. Cookie AccessCookieName r = Some v \<and> s \<in> set (sessions d) \<and>
     s_access s = hashToken l v \<and> t \<in> C \<and> t \<le> s_access_exp s \<and> s_user s = u}"

abbreviation live_users :: "lib \<Rightarrow> request \<Rightarrow> world \<Rightarrow> uuid set" where
  "live_users l r w \<equiv> authed_users l r (w_db w) (range (w_clock w))"

definition confined :: "db \<Rightarrow> time set \<Rightarrow> uuid set \<Rightarrow> 'a prog \<Rightarrow> bool" where
  "confined d C U p = (\<forall>w. rely (=) w \<and> w_db w = d \<and> range (w_clock w) \<subseteq> C \<longrightarrow>
     vault_frame U d (w_db (snd (run_state p w))) \<and>
     range (w_events (snd (run_state p w))) \<subseteq> range (w_events w))"

interpretation alone: db_relation UNIV "(=)"
  by unfold_locales simp_all

text \<open>A program only reads the clock on.\<close>

definition reads_on :: "world \<Rightarrow> world \<Rightarrow> bool" where
  "reads_on w w' = (range (w_clock w') \<subseteq> range (w_clock w))"

interpretation clock: server_frame reads_on
  by unfold_locales (fastforce simp: reads_on_def keeps_def limits_defs prim_defs Let_def split: prod.split)+

lemma rely_alone: "rely (=) w \<Longrightarrow> (\<And>d. R d d) \<Longrightarrow> rely R w"
  unfolding rely_def by metis

lemma frame_refl [simp]: "vault_frame U d d"
  by (rule frame_same) simp_all

lemma rely_frame: "rely (=) w \<Longrightarrow> rely (vault_frame U) w"
  by (erule rely_alone) simp

lemma confined_within: "within (vault_frame U) p \<Longrightarrow> confined d C U p"
  unfolding confined_def within_def using rely_alone frame_refl by blast

lemma alone_run:
  "within (=) p \<Longrightarrow> rely (=) w \<Longrightarrow> run_state p w = (x, w') \<Longrightarrow>
   w_db w' = w_db w \<and> rely (=) w' \<and> range (w_events w') \<subseteq> range (w_events w)"
  using withinD [of UNIV "(=)" p w x w'] rely_range by metis

lemma confined_pre:
  assumes p: "within (=) p" and q: "keeps reads_on p" and f: "\<And>x. confined d C U (f x)"
  shows "confined d C U (State_Monad.bind p f)"
  unfolding confined_def
proof (intro allI impI)
  fix w assume w: "rely (=) w \<and> w_db w = d \<and> range (w_clock w) \<subseteq> C"
  obtain x w1 where run: "run_state p w = (x, w1)" by fastforce
  have "w_db w1 = w_db w \<and> rely (=) w1 \<and> range (w_events w1) \<subseteq> range (w_events w)"
    by (rule alone_run [OF p _ run]) (use w in simp)
  moreover have "range (w_clock w1) \<subseteq> C"
    using keepsD [OF q run] w by (auto simp: reads_on_def)
  ultimately show "vault_frame U d (w_db (snd (run_state (State_Monad.bind p f) w))) \<and>
      range (w_events (snd (run_state (State_Monad.bind p f) w))) \<subseteq> range (w_events w)"
    using f [of x, unfolded confined_def, rule_format, of w1] w run by (simp, meson subset_trans)
qed

lemma confined_post:
  assumes p: "confined d C U p" and f: "\<And>x. within (=) (f x)"
  shows "confined d C U (State_Monad.bind p f)"
  unfolding confined_def
proof (intro allI impI)
  fix w assume w: "rely (=) w \<and> w_db w = d \<and> range (w_clock w) \<subseteq> C"
  obtain x w1 where run: "run_state p w = (x, w1)" by fastforce
  have 1: "vault_frame U d (w_db w1)" "range (w_events w1) \<subseteq> range (w_events w)"
    using p [unfolded confined_def, rule_format, OF w] run by auto
  then have "rely (=) w1" using w rely_range by blast
  then have "w_db (snd (run_state (f x) w1)) = w_db w1 \<and>
      range (w_events (snd (run_state (f x) w1))) \<subseteq> range (w_events w1)"
    using f [of x, unfolded within_def] by fastforce
  then show "vault_frame U d (w_db (snd (run_state (State_Monad.bind p f) w))) \<and>
      range (w_events (snd (run_state (State_Monad.bind p f) w))) \<subseteq> range (w_events w)"
    using 1 run by (simp, meson subset_trans)
qed

lemma confined_cases:
  "confined d C U p \<Longrightarrow> confined d C U q \<Longrightarrow> confined d C U (if b then p else q)"
  "(ov = None \<Longrightarrow> confined d C U p) \<Longrightarrow> (\<And>x. ov = Some x \<Longrightarrow> confined d C U (g x)) \<Longrightarrow>
     confined d C U (case ov of None \<Rightarrow> p | Some x \<Rightarrow> g x)"
  by (auto split: option.split)

definition confined_handler :: "lib \<Rightarrow> handler \<Rightarrow> bool" where
  "confined_handler l h = (\<forall>d C r. confined d C (authed_users l r d C) (h r))"

lemma authed_ctx [simp]:
  "authed_users l (r\<lparr>cx_user_agent := a\<rparr>) d C = authed_users l r d C"
  "authed_users l (r\<lparr>cx_request_id := b\<rparr>) d C = authed_users l r d C"
  "authed_users l (r\<lparr>rq_limit := c\<rparr>) d C = authed_users l r d C"
  "authed_users l (r\<lparr>rq_path_id := e\<rparr>) d C = authed_users l r d C"
  by (simp_all add: authed_users_def Cookie_def)

lemma api_alone:
  "within (=) (writeJSON code v)" "within (=) (WriteHeader code)" "within (=) get_status"
  "within (=) (newRequestID l)"
  unfolding writeJSON_def WriteHeader_def get_status_def newRequestID_def
  by (intro alone.within_rules | rule alone.within_pure, simp)+

lemma api_reads:
  "keeps reads_on (newRequestID l)" "keeps reads_on (respond f)" "keeps reads_on time_Now"
  unfolding newRequestID_def by (intro clock.steps clock.respond_keeps)+

lemma confined_middlewares:
  assumes h: "confined_handler l h"
  shows "confined_handler l (captureUserAgent h)" "confined_handler l (requestID l' h)"
    "confined_handler l (recoverPanic h)" "confined_handler l (limitBody h)"
    "confined_handler l (logRequests h)" "confined_handler l (securityHeaders h)"
    "confined_handler l (cors origin h)"
proof -
  note hh = h [unfolded confined_handler_def, rule_format]
  have hc: "confined d C (authed_users l r d C) (h r')" if "rq_cookies r' = rq_cookies r" for d C r r'
    using hh [of d C r'] that by (simp add: authed_users_def Cookie_def)
  show "confined_handler l (captureUserAgent h)" "confined_handler l (requestID l' h)"
    "confined_handler l (limitBody h)" "confined_handler l (securityHeaders h)"
    "confined_handler l (cors origin h)"
    unfolding confined_handler_def captureUserAgent_def requestID_def limitBody_def
      securityHeaders_def cors_def
    by (intro allI confined_pre confined_cases api_alone api_reads alone.within_prims hc
        confined_within frame.steps frame.api_within; simp)+
  show "confined_handler l (recoverPanic h)" "confined_handler l (logRequests h)"
    unfolding confined_handler_def recoverPanic_def logRequests_def
    by (intro allI confined_post hh confined_pre alone.within_rules api_alone api_reads within_outcome)+
qed

lemma db_exec_read:
  assumes "rely (=) w" and "\<And>now fresh d. snd (s now fresh d) = d"
    and "run_state (db_exec s) w = (Inr x, w')"
  shows "\<exists>now fresh. fst (s now fresh (w_db w)) = Inr x"
proof -
  have "w_db (next_event w) = w_db w" using next_event_def assms(1) by (simp add: rely_def)
  then show ?thesis
    using assms(3) by (auto simp: db_exec_def Let_def split: prod.splits trip.splits) (metis fst_conv)
qed

lemma ValidateAccess_Inr:
  assumes "rely (=) w" and "run_state (Manager_ValidateAccess l v) w = (Inr s, w')"
  shows "s \<in> set (sessions (w_db w)) \<and> s_access s = hashToken l v \<and> (\<exists>n. w_clock w n \<le> s_access_exp s)"
proof -
  obtain x w1 where x: "run_state (db_exec (getSessionByAccessHash (hashToken l v))) w = (x, w1)"
    by fastforce
  from assms(2) x have "x = Inr s"
    by (auto simp: Manager_ValidateAccess_def SessionsRepo_GetByAccessHash_def queries_defs
        scanSession_def try_prog_def split: sum.splits if_splits prod.splits)
  have "w_clock w1 = w_clock w"
    using x by (auto simp: db_exec_def next_event_def Let_def split: prod.splits trip.splits)
  with assms(2) x \<open>x = Inr s\<close> have "w_clock w 0 \<le> s_access_exp s"
    by (auto simp: Manager_ValidateAccess_def SessionsRepo_GetByAccessHash_def queries_defs
        scanSession_def try_prog_def time_Now_def split: if_splits)
  with db_exec_read [OF assms(1) _ x [unfolded \<open>x = Inr s\<close>]] show ?thesis
    by (auto simp: getSessionByAccessHash_def one_row_def find_Some_iff split: option.splits)
qed

lemma ValidateAccess_alone: "within (=) (Manager_ValidateAccess l v)"
  unfolding Manager_ValidateAccess_def SessionsRepo_GetByAccessHash_def queries_defs scanSession_def
  by (intro alone.within_rules alone.within_exec)
     (simp add: stmt_within_def getSessionByAccessHash_def)

lemma confined_sessionAuth:
  assumes h: "\<And>U r. frame.ctx_own U r \<Longrightarrow> within (vault_frame U) (h r)"
  shows "confined_handler l (sessionAuth l h)"
  unfolding confined_handler_def confined_def
proof (intro allI impI)
  fix d C r w assume w: "rely (=) w \<and> w_db w = d \<and> range (w_clock w) \<subseteq> C"
  let ?U = "authed_users l r d C"
  show "vault_frame ?U d (w_db (snd (run_state (sessionAuth l h r) w))) \<and>
    range (w_events (snd (run_state (sessionAuth l h r) w))) \<subseteq> range (w_events w)"
  proof (cases "Cookie AccessCookieName r")
    case None
    then show ?thesis
      using w by (simp add: sessionAuth_def writeJSON_def respond_def)
  next
    case (Some v)
    obtain x w1 where run: "run_state (Manager_ValidateAccess l v) w = (x, w1)" by fastforce
    have w1: "w_db w1 = w_db w \<and> rely (=) w1 \<and> range (w_events w1) \<subseteq> range (w_events w)"
      by (rule alone_run [OF ValidateAccess_alone _ run]) (use w in simp)
    show ?thesis
    proof (cases x)
      case (Inl e)
      then show ?thesis
        using Some run w w1 by (auto simp: sessionAuth_def writeJSON_def respond_def)
    next
      case (Inr s)
      let ?r = "r\<lparr>cx_user_id := Some (s_user s)\<rparr>"
      have "s_user s \<in> ?U"
        using ValidateAccess_Inr [of w l v s w1] w run Inr Some unfolding authed_users_def by blast
      then have "frame.ctx_own ?U ?r" by (simp add: frame.ctx_own_def)
      then have "within (vault_frame ?U) (h ?r)" by (rule h)
      then have "vault_frame ?U (w_db w1) (w_db (snd (run_state (h ?r) w1))) \<and>
          range (w_events (snd (run_state (h ?r) w1))) \<subseteq> range (w_events w1)"
        using w1 rely_frame unfolding within_def by blast
      moreover have "snd (run_state (sessionAuth l h r) w) = snd (run_state (h ?r) w1)"
        using Some run Inr by (simp add: sessionAuth_def)
      ultimately show ?thesis using w w1 by (simp, meson subset_trans)
    qed
  qed
qed

lemma confined_open: "(\<And>U r. within (vault_frame U) (h r)) \<Longrightarrow> confined_handler l h"
  by (simp add: confined_handler_def confined_within)

lemma plain_frame: "within (vault_frame U) (f r) \<Longrightarrow> within (vault_frame U) (plain f r)"
  unfolding plain_def by (intro frame.steps)

lemma csrf_frame: "within (vault_frame U) (h r) \<Longrightarrow> within (vault_frame U) (requireCSRF h r)"
  unfolding requireCSRF_def by (intro frame.steps frame.api_within)

lemma withItemID_frame:
  "(\<And>i. within (vault_frame U) (h r i)) \<Longrightarrow> within (vault_frame U) (withItemID l h r)"
  unfolding withItemID_def by (intro frame.steps frame.api_within)

lemma open_route:
  "(\<And>U r. within (vault_frame U) (f r)) \<Longrightarrow> confined_handler l (rt_handler (route_of m p [] f))"
  "(\<And>U r. within (vault_frame U) (f r)) \<Longrightarrow> confined_handler l (rt_handler (route_of m p [requireCSRF] f))"
  by (simp_all add: route_of_def chain_def confined_open plain_frame csrf_frame)

lemma session_route:
  "(\<And>U r. frame.ctx_own U r \<Longrightarrow> within (vault_frame U) (f r)) \<Longrightarrow>
     confined_handler l (rt_handler (route_of m p [sessionAuth l] f))"
  "(\<And>U r. frame.ctx_own U r \<Longrightarrow> within (vault_frame U) (f r)) \<Longrightarrow>
     confined_handler l (rt_handler (route_of m p [sessionAuth l, requireCSRF] f))"
  "(\<And>U r. frame.ctx_own U r \<Longrightarrow> within (vault_frame U) (h r)) \<Longrightarrow>
     confined_handler l (rt_handler (route_for m p [sessionAuth l] h))"
  by (simp_all add: route_of_def chain_def confined_sessionAuth plain_frame csrf_frame)

lemma serve_pages_frame:
  "within (vault_frame U) (serveSpec spec r)" "within (vault_frame U) (serveSwaggerUI page r)"
  unfolding serveSpec_def serveSwaggerUI_def by (intro frame.steps frame.api_within)+

lemma routes_confined: "rt \<in> set (routes l spec page) \<Longrightarrow> confined_handler l (rt_handler rt)"
proof -
  have "\<forall>rt \<in> set (routes l spec page). confined_handler l (rt_handler rt)"
    unfolding routes_def list.set ball_simps
    by (intro conjI TrueI open_route session_route frame.open_handlers frame.account_handlers
        frame.item_handlers withItemID_frame serve_pages_frame; assumption)
  then show "rt \<in> set (routes l spec page) \<Longrightarrow> confined_handler l (rt_handler rt)" by blast
qed

lemma mux_confined: "confined_handler l (mux (routes l spec page))"
  unfolding confined_handler_def
proof (intro allI)
  fix d C r
  have "confined d C (authed_users l r d C) (rt_handler rt (r\<lparr>rq_path_id := pid\<rparr>))"
    if "first_match r (routes l spec page) = Some (pid, rt)" for pid rt
    using routes_confined [OF first_match_mem [OF that]] by (metis authed_ctx(4) confined_handler_def)
  then have "confined d C (authed_users l r d C) (case first_match r (routes l spec page) of
      Some (pid, rt) \<Rightarrow> rt_handler rt (r\<lparr>rq_path_id := pid\<rparr>)
    | None \<Rightarrow> if path_known r (routes l spec page) then do { respond (rs_write_header 405); ret Done }
              else do { respond (rs_write_header 404); ret Done })"
    by (auto intro!: confined_within frame.steps split: option.split)
  then show "confined d C (authed_users l r d C) (mux (routes l spec page) r)"
    unfolding mux_def
    by (intro confined_cases(1)) (intro confined_within frame.steps frame.api_within, assumption)
qed

lemma router_confined: "confined_handler l (NewRouter l spec page origin)"
  unfolding NewRouter_def chain_def foldr.simps comp_def id_def
  by (intro confined_middlewares mux_confined)

lemma serve_confined:
  assumes "\<And>n d. ev_others (w_events w n) d = d"
  shows "vault_frame (live_users l r w) (w_db w)
     (w_db (snd (run_state (serve l spec page origin r) w)))"
proof -
  let ?w = "w\<lparr>w_resp := fresh_response\<rparr>"
  have "rely (=) ?w" using assms by (simp add: rely_def)
  then have "vault_frame (live_users l r w) (w_db w)
      (w_db (snd (run_state (NewRouter l spec page origin r) ?w)))"
    using router_confined [of l spec page origin, unfolded confined_handler_def confined_def,
        rule_format, of ?w "w_db w" "range (w_clock w)" r] by simp
  then show ?thesis by (simp add: serve_def respond_def)
qed

subsection \<open>Properties\<close>

text \<open>
  No request can corrupt the tables.  Whatever the request, the library functions, the
  randomness, the failures of the database and the interleaved statements of other requests
  (as long as those keep the invariant too), serving it leaves keys unique, references
  resolved and item rows valid.
\<close>

theorem server_keeps_tables_valid:
  assumes "db_inv (w_db w)"
    and "\<And>n d. db_inv d \<Longrightarrow> db_inv (ev_others (w_events w n) d)"
  shows "db_inv (w_db (snd (run_state (serve l spec page origin r) w)))"
proof -
  have "rely inv_step w" using assms(2) by (simp add: rely_def inv_step_def)
  then have "inv_step (w_db w) (w_db (snd (run_state (serve l spec page origin r) w)))"
    using tables.serve_within [of l spec page origin r] by (simp add: within_def)
  with assms(1) show ?thesis by (simp add: inv_step_def)
qed

text \<open>
  C17: the audit log only grows.  Serving any request, under failures and interleaved with
  requests that do the same, keeps every stored event at its place and unchanged, with one
  exception: an event loses the reference to its user, and nothing else, if that account does
  not exist any more.  New events are only appended.  The identifiers the database issues to
  new accounts, here and in the other requests, are not those of users in the log.
\<close>

theorem audit_log_append_only:
  assumes "\<And>n. ev_uuid (w_events w n) \<in> F"
    and "\<And>n d. audit_grows F d (ev_others (w_events w n) d)"
    and "\<And>e u. e \<in> set (audits (w_db w)) \<Longrightarrow> au_user e = Some u \<Longrightarrow> u \<notin> F"
    and "run_state (serve l spec page origin r) w = (out, w')"
  shows "length (audits (w_db w)) \<le> length (audits (w_db w')) \<and>
    (\<forall>i < length (audits (w_db w)). let e = audits (w_db w) ! i; e' = audits (w_db w') ! i
       in e' = e \<or> (\<exists>u. au_user e = Some u \<and> \<not> user_exists (w_db w') u \<and> e' = e\<lparr>au_user := None\<rparr>))"
proof -
  have "rely_ids F (audit_grows F) w" using assms(1,2) by (simp add: rely_ids_def)
  then have "audit_grows F (w_db w) (w_db w')" using withinD [OF audit.serve_within _ assms(4)] by blast
  then obtain old new where a: "audits (w_db w') = old @ new"
    and same: "list_all2 (same_event F (w_db w')) (audits (w_db w)) old" by (auto simp: audit_grows_def)
  have len: "length old = length (audits (w_db w))" using same by (simp add: list_all2_lengthD)
  have "old ! i = audits (w_db w) ! i \<or> (\<exists>u. au_user (audits (w_db w) ! i) = Some u \<and>
      \<not> user_exists (w_db w') u \<and> old ! i = (audits (w_db w) ! i)\<lparr>au_user := None\<rparr>)"
    if i: "i < length (audits (w_db w))" for i
  proof (cases "au_user (audits (w_db w) ! i)")
    case None
    then have "(audits (w_db w) ! i)\<lparr>au_user := None\<rparr> = audits (w_db w) ! i" by (cases "audits (w_db w) ! i") simp
    then show ?thesis using list_all2_nthD [OF same i] by (auto simp: same_event_def)
  next
    case (Some u)
    then show ?thesis using list_all2_nthD [OF same i] assms(3) [OF nth_mem [OF i] Some] by (auto simp: same_event_def)
  qed
  then show ?thesis by (simp add: a len nth_append Let_def)
qed

text \<open>
  C1: a request can only touch the vault of the user its access token belongs to, and only
  while the token has not expired.  Served while no other request runs, a request leaves
  the items of every user, and every user's account row, exactly as they were, except for the
  user of a stored session that its access cookie names and that had not expired at some
  reading of the clock.  Without such a session that is nobody: an absent, unknown or expired
  token changes no item and no existing account.
\<close>

theorem request_confined_to_token_user:
  assumes "\<And>n d. ev_others (w_events w n) d = d"
  shows "vault_frame (live_users l r w) (w_db w)
     (w_db (snd (run_state (serve l spec page origin r) w)))"
  by (rule serve_confined [OF assms])

theorem server_keeps_tables_valid_witness:
  "db_inv (w_db (snd (run_state (serve sample_lib None [] [] (sample_request ''POST'' ''/api/login'' JNull))
     (sample_world empty_db))))"
  by (rule server_keeps_tables_valid) (simp_all add: db_inv_empty)

theorem audit_log_append_only_witness:
  "\<exists>w e out w'. run_state (serve sample_lib None [] [] (sample_request ''DELETE'' ''/api/user'' JNull)) w = (out, w') \<and>
     audits (w_db w) = [e] \<and> au_user e = Some (UUID 2) \<and> audits (w_db w') ! 0 = e"
proof -
  let ?r = "sample_request ''DELETE'' ''/api/user'' JNull"
  let ?u = "\<lparr>u_id = UUID 2, u_email = ''ann@example.org'', u_kdf = JNull, u_auth_hash = [],
     u_auth_salt = [], u_psk = ''QQ=='', u_totp_enabled = False, u_ptotp = None, u_created = 0\<rparr>"
  let ?e = "\<lparr>au_id = UUID 3, au_user = Some (UUID 2), au_type = EventLoginSuccess, au_ip = None, au_ua = None,
     au_resource = None, au_meta = JNull, au_created = 7\<rparr>"
  let ?d = "empty_db\<lparr>users := [?u], audits := [?e]\<rparr>"
  let ?w = "(sample_world ?d)\<lparr>w_events := (\<lambda>i. (sample_event i)\<lparr>ev_uuid := UUID 9\<rparr>)\<rparr>"
  let ?serve = "serve sample_lib None [] [] ?r"
  obtain out w' where run: "run_state ?serve ?w = (out, w')" by fastforce
  have log: "length (audits (w_db ?w)) \<le> length (audits (w_db w')) \<and>
      (\<forall>i < length (audits (w_db ?w)). let e = audits (w_db ?w) ! i; e' = audits (w_db w') ! i
       in e' = e \<or> (\<exists>u. au_user e = Some u \<and> \<not> user_exists (w_db w') u \<and> e' = e\<lparr>au_user := None\<rparr>))"
    by (rule audit_log_append_only [OF _ _ _ run, of "{UUID 9}"])
       (auto simp: sample_event_def intro: audit_grows_rows)
  have "vault_frame (live_users sample_lib ?r ?w) ?d (w_db w')"
    using serve_confined [of ?w sample_lib ?r None "[]" "[]"] run by (simp add: sample_event_def)
  moreover have "live_users sample_lib ?r ?w = {}" by (simp add: authed_users_def sample_request_def Cookie_def)
  ultimately have "?u \<in> set (users (w_db w'))" by (simp add: vault_frame_def)
  then have "user_exists (w_db w') (UUID 2)" by (force simp: user_exists_def list_ex_iff)
  with log have "audits (w_db w') ! 0 = ?e" by (auto simp: Let_def)
  then show ?thesis using run by (intro exI [of _ ?w] exI [of _ ?e] exI [of _ out] exI [of _ w']) simp
qed

theorem request_confined_to_token_user_witness:
  "\<exists>r d. Cookie AccessCookieName r = Some ''tok'' \<and> items d \<noteq> [] \<and>
     map s_access (sessions d) = [hashToken sample_lib ''tok''] \<and>
     live_users sample_lib r (sample_world d) = {} \<and>
     items (w_db (snd (run_state (serve sample_lib None [] [] r) (sample_world d)))) = items d"
proof (intro exI conjI)
  let ?r = "(sample_request ''DELETE'' ''/api/items/u1'' JNull)\<lparr>rq_cookies := [(AccessCookieName, ''tok'')]\<rparr>"
  let ?d = "empty_db\<lparr>items := [\<lparr>i_id = UUID 1, i_user = UUID 2, i_ciphertext = ''QQ=='',
     i_type = ''login'', i_revision = 1, i_updated = 5\<rparr>],
    sessions := [\<lparr>s_id = UUID 7, s_user = UUID 2, s_access = hashToken sample_lib ''tok'',
     s_access_exp = 999, s_refresh = [], s_refresh_exp = 2000, s_created = 0\<rparr>]\<rparr>"
  show "Cookie AccessCookieName ?r = Some ''tok''" by (simp add: Cookie_def)
  show "items ?d \<noteq> []" "map s_access (sessions ?d) = [hashToken sample_lib ''tok'']" by simp_all
  show nobody: "live_users sample_lib ?r (sample_world ?d) = {}" by (auto simp: authed_users_def)
  have "vault_frame {} ?d (w_db (snd (run_state (serve sample_lib None [] [] ?r) (sample_world ?d))))"
    using request_confined_to_token_user [of "sample_world ?d" sample_lib ?r None "[]" "[]"]
    by (simp add: nobody [simplified])
  then show "items (w_db (snd (run_state (serve sample_lib None [] [] ?r) (sample_world ?d)))) = items ?d"
    by (simp add: vault_frame_def)
qed

end
