(* ===== verification/SessionLife.thy ===== *)
theory SessionLife
  imports Calm Guarantees
begin

text \<open>
  The life of a session: minting, validation, expiry, rotation and revocation
  (\<open>internal/auth/session.go\<close> over the sessions table), and what rotation does not give when
  two refreshes interleave.
\<close>

lemma find_snoc: "\<forall>x \<in> set xs. \<not> P x \<Longrightarrow> find P (xs @ [y]) = (if P y then Some y else None)"
  by (induction xs) auto

lemma find_key:
  "distinct (map f xs) \<Longrightarrow> x \<in> set xs \<Longrightarrow> find (\<lambda>y. f y = f x) xs = Some x"
  by (induction xs) (auto simp: image_iff)

lemma find_none: "find P xs = None \<longleftrightarrow> (\<forall>x \<in> set xs. \<not> P x)"
  by (induction xs) auto

lemma find_map_if:
  "find P (map (\<lambda>x. if Q x then f x else x) xs) =
     map_option (\<lambda>x. if Q x then f x else x) (find (\<lambda>x. P (if Q x then f x else x)) xs)"
  by (induction xs) auto

definition session_row :: "world \<Rightarrow> lib \<Rightarrow> uuid \<Rightarrow> Session" where
  "session_row w l uid = \<lparr>s_id = ev_uuid (w_events w 0), s_user = uid,
     s_access = hashToken l (token_at w 0), s_access_exp = w_clock w 0 + m_accessTTL (w_auth w),
     s_refresh = hashToken l (token_at w 32), s_refresh_exp = w_clock w 0 + m_refreshTTL (w_auth w),
     s_created = ev_now (w_events w 0)\<rparr>"

text \<open>No stored session has the id or the hashes the new one is going to have.\<close>

definition session_fresh :: "world \<Rightarrow> lib \<Rightarrow> bool" where
  "session_fresh w l = (\<forall>s \<in> set (sessions (w_db w)). s_id s \<noteq> ev_uuid (w_events w 0) \<and>
     s_access s \<noteq> hashToken l (token_at w 0) \<and> s_refresh s \<noteq> hashToken l (token_at w 32))"

lemma run_CreateSessionPair:
  assumes "calm w" and "rand_ok w" and "user_exists (w_db w) uid" and "session_fresh w l"
  shows "run_state (Manager_CreateSessionPair l uid) w =
    (Inr (token_at w 0, token_at w 32),
     (tick (drawn 32 (drawn 32 w)))
       \<lparr>w_events := (\<lambda>i. w_events w (Suc i)),
        w_db := (w_db w)\<lparr>sessions := sessions (w_db w) @ [session_row w l uid]\<rparr>\<rparr>)"
  using assms
  by (auto simp: Manager_CreateSessionPair_def run_simps SessionsRepo_CreatePair_def queries_defs
      scanSession_def sql_step_def createSessionPair_def session_fresh_def list_ex_iff
      session_row_def Let_def)

lemma run_RotateTokens:
  assumes "calm w" and "db_inv (w_db w)" and "s \<in> set (sessions (w_db w))"
    and "\<forall>s' \<in> set (sessions (w_db w)). s_access s' \<noteq> ah \<and> s_refresh s' \<noteq> rh"
  shows "run_state (SessionsRepo_RotateTokens (s_id s) ah ae rh re) w =
    (let s' = s\<lparr>s_access := ah, s_access_exp := ae, s_refresh := rh, s_refresh_exp := re\<rparr>
     in (Inr s', w\<lparr>w_events := (\<lambda>i. w_events w (Suc i)),
          w_db := (w_db w)\<lparr>sessions := map (\<lambda>x. if s_id x = s_id s then
            x\<lparr>s_access := ah, s_access_exp := ae, s_refresh := rh, s_refresh_exp := re\<rparr> else x)
            (sessions (w_db w))\<rparr>\<rparr>))"
proof -
  have "find (\<lambda>x. s_id x = s_id s) (sessions (w_db w)) = Some s"
    using assms(2,3) by (intro find_key) (auto simp: db_inv_def keys_ok_def)
  then show ?thesis
    using assms(1,4)
    by (auto simp: SessionsRepo_RotateTokens_def queries_defs scanSession_def run_simps sql_step_def
        rotateSessionTokens_def list_ex_iff Let_def)
qed

subsection \<open>Properties\<close>

text \<open>
  C16: a minted access token is good until it expires and no longer.  After a session has been
  created for a user, presenting its access token to any later state with the same sessions
  yields that user exactly while the clock is within the access lifetime, and the one opaque
  error afterwards.
\<close>

theorem access_token_valid_until_expiry:
  assumes "calm w" and "rand_ok w" and "user_exists (w_db w) uid" and "session_fresh w l"
    and create: "run_state (Manager_CreateSessionPair l uid) w = (res, w')"
    and v: "calm v" "sessions (w_db v) = sessions (w_db w')"
  shows "res = Inr (token_at w 0, token_at w 32) \<and>
    fst (run_state (Manager_ValidateAccess l (token_at w 0)) v) =
      (if w_clock v 0 \<le> w_clock w 0 + m_accessTTL (w_auth w)
       then Inr (session_row w l uid) else Inl ErrSessionInvalid) \<and>
    s_user (session_row w l uid) = uid"
proof -
  note run = run_CreateSessionPair [OF assms(1-4)]
  have s: "sessions (w_db v) = sessions (w_db w) @ [session_row w l uid]"
    using create v(2) by (auto simp: run)
  have "find (\<lambda>s. s_access s = hashToken l (token_at w 0)) (sessions (w_db v)) = Some (session_row w l uid)"
    unfolding s using assms(4) by (subst find_snoc) (auto simp: session_fresh_def session_row_def)
  then show ?thesis
    using create v(1) by (auto simp: run run_ValidateAccess session_row_def)
qed

text \<open>
  C15: refresh rotates both tokens.  A refresh with an unexpired token succeeds; then the
  presented refresh token is refused, the new refresh token names the same session of the
  same user, and the new access token is accepted.
\<close>

theorem refresh_rotates_tokens:
  assumes w: "calm w" "rand_ok w" "db_inv (w_db w)"
    and s: "s \<in> set (sessions (w_db w))" "s_refresh s = hashToken l tok"
    and live: "w_clock w 0 \<le> s_refresh_exp s"
    and fresh: "\<forall>x \<in> set (sessions (w_db w)). s_access x \<noteq> hashToken l (token_at w 0) \<and>
        s_refresh x \<noteq> hashToken l (token_at w 32)"
    and run: "run_state (Manager_RefreshSession l tok) w = (res, w')"
    and v: "calm v" "sessions (w_db v) = sessions (w_db w')" "w_clock v 0 \<le> w_clock w 1 + m_accessTTL (w_auth w)"
  shows "res = Inr (token_at w 0, token_at w 32) \<and>
    fst (run_state (Manager_RefreshSession l tok) v) = Inl ErrSessionInvalid \<and>
    (\<exists>s'. fst (run_state (SessionsRepo_GetByRefreshHash (hashToken l (token_at w 32))) v) = Inr s' \<and>
       s_id s' = s_id s \<and> s_user s' = s_user s) \<and>
    (\<exists>s'. fst (run_state (Manager_ValidateAccess l (token_at w 0)) v) = Inr s' \<and> s_user s' = s_user s)"
proof -
  let ?f = "\<lambda>x. x\<lparr>s_access := hashToken l (token_at w 0), s_access_exp := w_clock w 1 + m_accessTTL (w_auth w),
      s_refresh := hashToken l (token_at w 32), s_refresh_exp := w_clock w 1 + m_refreshTTL (w_auth w)\<rparr>"
  let ?S = "sessions (w_db w)"
  have keys: "distinct (map s_refresh ?S)" "distinct (map s_id ?S)"
    using w(3) by (auto simp: db_inv_def keys_ok_def)
  have found: "find (\<lambda>x. s_refresh x = hashToken l tok) ?S = Some s"
    using find_key [OF keys(1) s(1)] s(2) by simp
  let ?w3 = "tick (drawn 32 (drawn 32 (tick (passed w))))"
  have rot: "run_state (Manager_RefreshSession l tok) w =
    (Inr (token_at w 0, token_at w 32), ?w3\<lparr>w_events := (\<lambda>i. w_events ?w3 (Suc i)),
      w_db := (w_db w)\<lparr>sessions := map (\<lambda>x. if s_id x = s_id s then ?f x else x) ?S\<rparr>\<rparr>)"
    using w s live fresh found run_RotateTokens [of ?w3 s]
    by (simp add: Manager_RefreshSession_def run_simps Let_def)
  let ?g = "\<lambda>x. if s_id x = s_id s then ?f x else x"
  have S: "sessions (w_db v) = map ?g ?S" using run rot v(2) by auto
  have ne: "hashToken l (token_at w 32) \<noteq> hashToken l tok" using fresh s by metis
  have id: "x = s" if "x \<in> set ?S" "s_id x = s_id s" for x
    using that s(1) keys(2) by (auto simp: distinct_map inj_on_def)
  have "x = s" if "x \<in> set ?S" "s_refresh x = hashToken l tok" for x
    using that s keys(1) by (auto simp: distinct_map inj_on_def)
  then have old: "find (\<lambda>x. s_refresh x = hashToken l tok) (map ?g ?S) = None"
    unfolding find_none using ne by auto
  have new: "find (\<lambda>x. s_refresh x = hashToken l (token_at w 32)) (map ?g ?S) = Some (?f s)"
    and acc: "find (\<lambda>x. s_access x = hashToken l (token_at w 0)) (map ?g ?S) = Some (?f s)"
  proof -
    have "find (\<lambda>x. s_refresh (?g x) = hashToken l (token_at w 32)) ?S = find (\<lambda>x. s_id x = s_id s) ?S"
      and "find (\<lambda>x. s_access (?g x) = hashToken l (token_at w 0)) ?S = find (\<lambda>x. s_id x = s_id s) ?S"
      using fresh by (auto intro!: find_cong)
    moreover have "find (\<lambda>x. s_id x = s_id s) ?S = Some s" using find_key [OF keys(2) s(1)] .
    ultimately show "find (\<lambda>x. s_refresh x = hashToken l (token_at w 32)) (map ?g ?S) = Some (?f s)"
      "find (\<lambda>x. s_access x = hashToken l (token_at w 0)) (map ?g ?S) = Some (?f s)"
      by (simp_all only: find_map_if) simp_all
  qed
  show ?thesis
    using run rot v old new acc
    by (auto simp: Manager_RefreshSession_def run_simps S)
qed

definition sample_user :: User where
  "sample_user = \<lparr>u_id = UUID 1, u_email = ''ann@example.org'', u_kdf = JNull, u_auth_hash = [],
     u_auth_salt = [], u_psk = ''QQ=='', u_totp_enabled = False, u_ptotp = None, u_created = 0\<rparr>"

definition sample_session :: Session where
  "sample_session = \<lparr>s_id = UUID 7, s_user = UUID 1, s_access = [1], s_access_exp = 2000,
     s_refresh = hashToken sample_lib ''old'', s_refresh_exp = 2000, s_created = 0\<rparr>"

definition sample_db :: db where
  "sample_db = empty_db\<lparr>users := [sample_user], sessions := [sample_session]\<rparr>"

lemma sample_db_inv: "db_inv sample_db"
  by (simp add: sample_db_def db_inv_def db_inv_defs empty_db_def sample_session_def sample_user_def)

lemma rand_ok_sample [simp]: "rand_ok (sample_world d)"
  by (simp add: rand_ok_def sample_world_def sample_rng_def)

lemma length_hashToken_sample [simp]: "length (hashToken sample_lib t) = 32"
  by (simp add: hashToken_def sample_lib_def)

lemma sample_token_hashes:
  "hashToken sample_lib (token_at (sample_world d) 0) \<noteq> [1] \<and>
   hashToken sample_lib (token_at (sample_world d) 32) \<noteq> hashToken sample_lib ''old''"
proof -
  have "hashToken sample_lib (token_at (sample_world empty_db) 32) \<noteq> hashToken sample_lib ''old''"
    by code_simp
  moreover have "token_at (sample_world d) 32 = token_at (sample_world empty_db) 32"
    by (simp add: token_at_def sample_world_def)
  moreover have "length (hashToken sample_lib (token_at (sample_world d) 0)) \<noteq> length [1 :: byte]"
    by simp
  ultimately show ?thesis by metis
qed

theorem access_token_valid_until_expiry_witness:
  "\<exists>res w'. run_state (Manager_CreateSessionPair sample_lib (UUID 1)) (sample_world sample_db) = (res, w') \<and>
     fst (run_state (Manager_ValidateAccess sample_lib (token_at (sample_world sample_db) 0))
       (sample_world (w_db w'))) = Inr (session_row (sample_world sample_db) sample_lib (UUID 1))"
proof -
  obtain res w' where run: "run_state (Manager_CreateSessionPair sample_lib (UUID 1)) (sample_world sample_db) = (res, w')"
    by fastforce
  have fresh: "session_fresh (sample_world sample_db) sample_lib"
    using sample_token_hashes [of sample_db]
    unfolding session_fresh_def by (auto simp: sample_db_def sample_session_def)
  have u: "user_exists (w_db (sample_world sample_db)) (UUID 1)"
    by (simp add: user_exists_def sample_db_def sample_user_def)
  have "w_clock (sample_world (w_db w')) 0 \<le>
      w_clock (sample_world sample_db) 0 + m_accessTTL (w_auth (sample_world sample_db))"
    by (simp add: NewManager_def)
  then show ?thesis
    using access_token_valid_until_expiry [OF calm_sample rand_ok_sample u fresh run, of "sample_world (w_db w')"] run
    by auto
qed

theorem refresh_rotates_tokens_witness:
  "\<exists>res w'. run_state (Manager_RefreshSession sample_lib ''old'') (sample_world sample_db) = (res, w') \<and>
     (\<exists>p. res = Inr p) \<and>
     fst (run_state (Manager_RefreshSession sample_lib ''old'') (sample_world (w_db w'))) = Inl ErrSessionInvalid"
proof -
  obtain res w' where run: "run_state (Manager_RefreshSession sample_lib ''old'') (sample_world sample_db) = (res, w')"
    by fastforce
  have s: "sample_session \<in> set (sessions (w_db (sample_world sample_db)))"
    "s_refresh sample_session = hashToken sample_lib ''old''"
    by (simp_all add: sample_db_def sample_session_def)
  have inv: "db_inv (w_db (sample_world sample_db))" by (simp add: sample_db_inv)
  have live: "w_clock (sample_world sample_db) 0 \<le> s_refresh_exp sample_session"
    by (simp add: sample_session_def)
  have fresh: "\<forall>x \<in> set (sessions (w_db (sample_world sample_db))).
      s_access x \<noteq> hashToken sample_lib (token_at (sample_world sample_db) 0) \<and>
      s_refresh x \<noteq> hashToken sample_lib (token_at (sample_world sample_db) 32)"
    using sample_token_hashes [of sample_db] by (auto simp: sample_db_def sample_session_def)
  have t: "w_clock (sample_world (w_db w')) 0 \<le> w_clock (sample_world sample_db) 1 + m_accessTTL (w_auth (sample_world sample_db))"
    by (simp add: NewManager_def)
  show ?thesis
    using refresh_rotates_tokens [OF calm_sample rand_ok_sample inv s live fresh run, of "sample_world (w_db w')"] t run
    by auto
qed

lemma db_exec_Inr:
  assumes "run_state (db_exec s) w = (Inr x, w')"
  shows "\<exists>now fresh d. fst (s now fresh d) = Inr x \<and> w_db w' = snd (s now fresh d)"
  using assms by (auto simp: db_exec_def Let_def split: prod.splits trip.splits) (metis fst_conv snd_conv)

text \<open>
  Revocation is effective when it is acknowledged, whatever else happens: once
  \<open>RevokeSession\<close> has succeeded no session carries that access token, once
  \<open>RevokeAllSessions\<close> has succeeded the user has no session; so a request that presents the
  token afterwards is refused.
\<close>

theorem revocation_takes_effect:
  assumes v: "calm v"
  shows "(run_state (Manager_RevokeSession l tok) w = (Inr (), w') \<and> sessions (w_db v) = sessions (w_db w') \<longrightarrow>
       fst (run_state (Manager_ValidateAccess l tok) v) = Inl ErrSessionInvalid) \<and>
     (run_state (Manager_RevokeAllSessions uid) w = (Inr (), w') \<and> sessions (w_db v) = sessions (w_db w') \<longrightarrow>
       (\<forall>t s. fst (run_state (Manager_ValidateAccess l t) v) = Inr s \<longrightarrow> s_user s \<noteq> uid))"
proof (intro conjI impI; elim conjE)
  assume run: "run_state (Manager_RevokeSession l tok) w = (Inr (), w')"
    and S: "sessions (w_db v) = sessions (w_db w')"
  from run have "run_state (db_exec (deleteSessionByAccessHash (hashToken l tok))) w = (Inr (), w')"
    by (auto simp: Manager_RevokeSession_def SessionsRepo_DeleteByAccessHash_def queries_defs try_prog_def
        split: sum.splits prod.splits)
  from db_exec_Inr [OF this] have "\<forall>s \<in> set (sessions (w_db w')). s_access s \<noteq> hashToken l tok"
    by (auto simp: deleteSessionByAccessHash_def)
  then show "fst (run_state (Manager_ValidateAccess l tok) v) = Inl ErrSessionInvalid"
    using v S by (simp add: run_ValidateAccess find_none [symmetric])
next
  assume run: "run_state (Manager_RevokeAllSessions uid) w = (Inr (), w')"
    and S: "sessions (w_db v) = sessions (w_db w')"
  from run have "run_state (db_exec (deleteAllSessionsForUser uid)) w = (Inr (), w')"
    by (auto simp: Manager_RevokeAllSessions_def SessionsRepo_DeleteAllForUser_def queries_defs try_prog_def
        split: sum.splits prod.splits)
  from db_exec_Inr [OF this] have "\<forall>s \<in> set (sessions (w_db w')). s_user s \<noteq> uid"
    by (auto simp: deleteAllSessionsForUser_def)
  then show "\<forall>t s. fst (run_state (Manager_ValidateAccess l t) v) = Inr s \<longrightarrow> s_user s \<noteq> uid"
    using v S by (auto simp: run_ValidateAccess find_Some_iff split: option.splits if_splits)
qed

theorem revocation_takes_effect_witness:
  "\<exists>w'. run_state (Manager_RevokeAllSessions (UUID 1)) (sample_world sample_db) = (Inr (), w') \<and>
     (\<forall>t s. fst (run_state (Manager_ValidateAccess sample_lib t) (sample_world (w_db w'))) = Inr s \<longrightarrow>
        s_user s \<noteq> UUID 1)"
proof -
  obtain w' where run: "run_state (Manager_RevokeAllSessions (UUID 1)) (sample_world sample_db) = (Inr (), w')"
    by (simp add: Manager_RevokeAllSessions_def SessionsRepo_DeleteAllForUser_def queries_defs run_simps
        sql_step_def deleteAllSessionsForUser_def)
  then show ?thesis
    using revocation_takes_effect [OF calm_sample, of sample_lib "[]" "sample_world sample_db" w' "w_db w'" "UUID 1"]
    by auto
qed

text \<open>
  Refresh is not atomic.  When another request rotates the same session between a
  refresh's lookup and its rotation, the refresh still succeeds although the token it
  presented is already invalid, and it overwrites the tokens the other request was given.
\<close>

theorem refresh_race_both_succeed:
  assumes trip: "ev_trip (w_events w 0) = Served" "ev_trip (w_events w 1) = Served"
    and env: "\<And>d. ev_others (w_events w 0) d = d"
      "\<And>d. ev_others (w_events w 1) d = snd (rotateSessionTokens (s_id s) ah ae rh re t0 u0 d)"
    and w: "rand_ok w" "sessions (w_db w) = [s]" "s_refresh s = hashToken l tok"
      "w_clock w 0 \<le> s_refresh_exp s" "rh \<noteq> hashToken l tok"
    and ours: "hashToken l (token_at w 32) \<noteq> rh"
  shows "\<exists>w'. run_state (Manager_RefreshSession l tok) w = (Inr (token_at w 0, token_at w 32), w') \<and>
    (\<forall>x \<in> set (sessions (ev_others (w_events w 1) (w_db w))). s_refresh x \<noteq> hashToken l tok) \<and>
    (\<forall>x \<in> set (sessions (w_db w')). s_refresh x \<noteq> rh)"
proof -
  have other: "sessions (ev_others (w_events w 1) (w_db w)) =
      [s\<lparr>s_access := ah, s_access_exp := ae, s_refresh := rh, s_refresh_exp := re\<rparr>]"
    using w(2) env(2) by (simp add: rotateSessionTokens_def)
  have get: "run_state (SessionsRepo_GetByRefreshHash (hashToken l tok)) w = (Inr s, passed w)"
    using trip(1) env(1) w(2,3)
    by (simp add: SessionsRepo_GetByRefreshHash_def queries_defs scanSession_def try_prog_def
        db_exec_def next_event_def getSessionByRefreshHash_def one_row_def Let_def passed_def)
  let ?w3 = "tick (drawn 32 (drawn 32 (tick (passed w))))"
  have "run_state (SessionsRepo_RotateTokens (s_id s) A ae' B re') ?w3 =
     (Inr (s\<lparr>s_access := A, s_access_exp := ae', s_refresh := B, s_refresh_exp := re'\<rparr>),
      ?w3\<lparr>w_events := (\<lambda>i. w_events ?w3 (Suc i)),
          w_db := (ev_others (w_events w 1) (w_db w))\<lparr>sessions :=
            [s\<lparr>s_access := A, s_access_exp := ae', s_refresh := B, s_refresh_exp := re'\<rparr>]\<rparr>\<rparr>)"
    for A ae' B re'
    using trip(2) other
    by (simp add: SessionsRepo_RotateTokens_def queries_defs scanSession_def run_try run_exec_served
        rotateSessionTokens_def Let_def)
  then show ?thesis
    using w ours other by (simp add: Manager_RefreshSession_def run_simps get)
qed

theorem refresh_race_both_succeed_witness:
  "\<exists>w' p. run_state (Manager_RefreshSession sample_lib ''old'')
     ((sample_world sample_db)\<lparr>w_events := (\<lambda>i. if i = 1
        then (sample_event 1)\<lparr>ev_others := (\<lambda>d. snd (rotateSessionTokens (UUID 7) [2] 3000 [3] 3000 0 uuid_Nil d))\<rparr>
        else sample_event i)\<rparr>) = (Inr p, w') \<and> (\<forall>x \<in> set (sessions (w_db w')). s_refresh x \<noteq> [3])"
proof -
  let ?w = "(sample_world sample_db)\<lparr>w_events := (\<lambda>i. if i = 1
        then (sample_event 1)\<lparr>ev_others := (\<lambda>d. snd (rotateSessionTokens (UUID 7) [2] 3000 [3] 3000 0 uuid_Nil d))\<rparr>
        else sample_event i)\<rparr>"
  have h: "hashToken sample_lib t \<noteq> [3]" for t
  proof -
    have "length (hashToken sample_lib t) \<noteq> length [3 :: byte]" by simp
    then show ?thesis by metis
  qed
  have "\<exists>w'. run_state (Manager_RefreshSession sample_lib ''old'') ?w =
      (Inr (token_at ?w 0, token_at ?w 32), w') \<and>
    (\<forall>x \<in> set (sessions (ev_others (w_events ?w 1) (w_db ?w))). s_refresh x \<noteq> hashToken sample_lib ''old'') \<and>
    (\<forall>x \<in> set (sessions (w_db w')). s_refresh x \<noteq> [3])"
    by (rule refresh_race_both_succeed [where s = sample_session and ah = "[2]" and ae = 3000 and re = 3000
          and ?t0.0 = 0 and ?u0.0 = uuid_Nil])
       (use h h [symmetric] in \<open>auto simp: sample_db_def sample_session_def rand_ok_def sample_rng_def\<close>)
  then show ?thesis by blast
qed

end
