(* ===== verification/LoginPrivacy.thy ===== *)
theory LoginPrivacy
  imports SessionLife
begin

text \<open>
  What a failed login reveals.  \<open>same t w v\<close>: two worlds, in which time stands still at \<open>t\<close>,
  show an outsider the same: the response, the time spent in Argon2id and in
  \<open>time.Sleep\<close>, and the limiter and lockout state that decides future answers.
\<close>

definition same :: "time \<Rightarrow> world \<Rightarrow> world \<Rightarrow> bool" where
  "same t w v = (calm w \<and> calm v \<and> rand_ok w \<and> rand_ok v \<and> (\<forall>i. w_clock w i = t) \<and> (\<forall>i. w_clock v i = t) \<and>
     w_resp w = w_resp v \<and> w_auth w = w_auth v \<and> w_kdf w = w_kdf v \<and> w_slept w = w_slept v)"

text \<open>Parts of a handler that look alike whatever the database holds.\<close>

definition alike :: "time \<Rightarrow> 'a prog \<Rightarrow> 'a prog \<Rightarrow> bool" where
  "alike t p q = (\<forall>w v. same t w v \<longrightarrow>
     fst (run_state p w) = fst (run_state q v) \<and> same t (snd (run_state p w)) (snd (run_state q v)))"

lemma alike_bind:
  "alike t p q \<Longrightarrow> (\<And>x. alike t (f x) (g x)) \<Longrightarrow> alike t (State_Monad.bind p f) (State_Monad.bind q g)"
  by (simp add: alike_def split_beta)

lemma alike_return: "alike t (State_Monad.return x) (State_Monad.return x)"
  by (simp add: alike_def)

lemma alike_prims:
  "alike t time_Now time_Now" "alike t (time_Sleep d) (time_Sleep d)" "alike t (lift_auth f) (lift_auth f)"
  "alike t (respond h) (respond h)"
  by (auto simp: alike_def same_def run_simps)

lemmas alike_rules = alike_bind alike_return alike_prims

lemma alike_if: "alike t p p' \<Longrightarrow> alike t q q' \<Longrightarrow> alike t (if b then p else q) (if b then p' else q')"
  by simp

lemma alike_limits:
  "alike t (Manager_IsLoginLocked e) (Manager_IsLoginLocked e)"
  "alike t (Manager_RecordLoginFailure e) (Manager_RecordLoginFailure e)"
  "alike t (Manager_CheckLoginLimit ip e) (Manager_CheckLoginLimit ip e)"
  "alike t (Manager_CheckRegisterLimit ip) (Manager_CheckRegisterLimit ip)"
  unfolding limits_defs by (intro alike_rules alike_if)+

lemma alike_reject: "alike t (reject_login e) (reject_login e)"
  unfolding reject_login_def writeJSON_def by (intro alike_rules alike_if alike_limits)

lemma alikeD: "alike t p q \<Longrightarrow> same t w v \<Longrightarrow> run_state p w = (x, w') \<Longrightarrow> run_state q v = (y, v') \<Longrightarrow>
    x = y \<and> same t w' v'"
  by (simp add: alike_def) (metis fst_conv snd_conv)

text \<open>Recording a failure is invisible: it touches the database, the log and the alerts.\<close>

lemma recordEvent_unseen:
  assumes "same t w v"
  shows "same t (snd (run_state (recordEvent l r (Some uid) EventLoginFailure res m) w)) v"
  using assms by (auto simp: same_def run_recordEvent_failure Let_def split: prod.split)

text \<open>Both ways to a refusal run Argon2id once.\<close>

lemma run_server_hash:
  "h \<noteq> [] \<Longrightarrow> s \<noteq> [] \<Longrightarrow>
   run_state (server_hash l h s) w = (Inr (argon2_IDKey l h s 2 19456 1 32), w\<lparr>w_kdf := w_kdf w + 1\<rparr>)"
  by (simp add: server_hash_def DeriveServerAuthHash_default)

lemma run_NewServerSalt:
  "rand_ok w \<Longrightarrow>
   run_state (lift_rng NewServerSalt) w = (Inr (map (rng_bytes (w_rng w)) [0..<16]), drawn 16 w)"
  by (simp add: NewServerSalt_def randomBytes_def ServerSaltSizeBytes_def run_lift_rng split_beta
      rand_Read_run rand_ok_def drawn_def)

lemma run_dummy_work:
  "rand_ok w \<Longrightarrow> h \<noteq> [] \<Longrightarrow>
   run_state (dummy_work l h) w = ((), (drawn 16 w)\<lparr>w_kdf := w_kdf w + 1\<rparr>)"
  by (simp add: dummy_work_def run_NewServerSalt run_server_hash)

subsection \<open>Login\<close>

lemma same_passed: "same t w v \<Longrightarrow> same t (passed w) (passed v)"
  by (simp add: same_def)

lemma same_kdf: "same t w v \<Longrightarrow> same t (w\<lparr>w_kdf := w_kdf w + 1\<rparr>) ((drawn n v)\<lparr>w_kdf := w_kdf v + 1\<rparr>)"
  by (simp add: same_def)

text \<open>The credentials of a request as \<open>PostLogin\<close> reads them.\<close>

definition login_email :: "lib \<Rightarrow> LoginRequest \<Rightarrow> string" where
  "login_email l body = NormalizeEmail l (lr_email body)"

definition wrong_hash :: "lib \<Rightarrow> bytes \<Rightarrow> User \<Rightarrow> bool" where
  "wrong_hash l h u = (argon2_IDKey l h (u_auth_salt u) 2 19456 1 32 \<noteq> u_auth_hash u)"

lemma refusals_alike:
  assumes s: "same t w v" and h: "h \<noteq> []" and u: "u_auth_salt u \<noteq> []" "wrong_hash l h u"
  shows "same t
     (snd (run_state (login_known l r email h u) w))
     (snd (run_state (do { dummy_work l h; reject_login email }) v))"
proof -
  have r: "rand_ok v" using s by (simp add: same_def)
  have c: "ConstantTimeCompare (argon2_IDKey l h (u_auth_salt u) 2 19456 1 32) (u_auth_hash u) \<noteq> 1"
    using u(2) by (simp add: wrong_hash_def ConstantTimeCompare_eq)
  let ?m = "JObj [(''reason'', JStr ''invalid_credentials'')]"
  have "same t (snd (run_state (recordEvent l r (Some (u_id u)) EventLoginFailure None ?m)
      (w\<lparr>w_kdf := w_kdf w + 1\<rparr>))) ((drawn 16 v)\<lparr>w_kdf := w_kdf v + 1\<rparr>)"
    by (rule recordEvent_unseen [OF same_kdf [OF s]])
  then show ?thesis
    using alike_reject [of t email]
    by (simp add: login_known_def run_server_hash h u(1) c run_dummy_work [OF r h] split_beta alike_def)
qed

lemma limits_keep_db:
  "run_state (Manager_IsLoginLocked e) w = (x, w') \<Longrightarrow> w_db w' = w_db w"
  "run_state (Manager_CheckLoginLimit ip e) w = (b, w') \<Longrightarrow> w_db w' = w_db w"
  by (auto simp: limits_defs run_simps split: prod.splits if_splits)

lemma failed_logins_alike:
  assumes s: "same t w v" and body: "decodeJSON l (LoginRequest_fields l) zero_LoginRequest r = Some body"
    and known: "find (\<lambda>u. u_email u = login_email l body) (users (w_db w)) = Some u" "u_auth_salt u \<noteq> []"
    and wrong: "\<And>h. decode_auth_hash (lr_auth_hash body) = Some h \<Longrightarrow> wrong_hash l h u"
    and unknown: "find (\<lambda>u. u_email u = login_email l body) (users (w_db v)) = None"
  shows "same t (snd (run_state (PostLogin l r) w)) (snd (run_state (PostLogin l r) v))"
proof -
  let ?e = "login_email l body"
  let ?pre = "\<lambda>locked. if locked then State_Monad.return True
              else do { ok \<leftarrow> Manager_CheckLoginLimit (clientIP r) ?e; State_Monad.return (\<not> ok) }"
  obtain x w1 where w1: "run_state (Manager_IsLoginLocked ?e) w = (x, w1)" by fastforce
  obtain y v1 where v1: "run_state (Manager_IsLoginLocked ?e) v = (y, v1)" by fastforce
  have xy: "x = y" and s1: "same t w1 v1"
    using alikeD [OF alike_limits(1) s w1 v1] by auto
  obtain b w2 where w2: "run_state (?pre x) w1 = (b, w2)" by fastforce
  obtain c v2 where v2: "run_state (?pre x) v1 = (c, v2)" by fastforce
  have pre: "alike t (?pre x) (?pre x)" by (intro alike_if alike_rules alike_limits)
  have bc: "b = c" and s2: "same t w2 v2"
    using alikeD [OF pre s1 w2 v2] by auto
  have db: "w_db w2 = w_db w" "w_db v2 = w_db v"
    using w1 v1 w2 v2 by (auto dest!: limits_keep_db split: if_splits prod.splits)
  have calm: "calm w2" "calm v2" using s2 by (simp_all add: same_def)
  show ?thesis
  proof (cases "b \<or> decode_auth_hash (lr_auth_hash body) = None")
    case True
    moreover have "alike t (writeJSON n j) (writeJSON n j)" for n j
      by (simp add: writeJSON_def alike_prims)
    ultimately show ?thesis
      using s2 by (auto simp: PostLogin_def body Let_def w1 v1 [folded xy] w2 v2 [folded bc]
          login_email_def [symmetric] alike_def)
  next
    case False
    then obtain h where h: "decode_auth_hash (lr_auth_hash body) = Some h" and "\<not> b" by auto
    then have "h \<noteq> []" by (auto simp: decode_auth_hash_def split: option.splits if_splits)
    note fin = refusals_alike [OF same_passed [OF s2] this known(2) wrong [OF h]]
    show ?thesis
      using fin [of r ?e] \<open>\<not> b\<close>
      by (simp add: PostLogin_def body Let_def w1 v1 [folded xy] w2 v2 [folded bc] h
          login_email_def [symmetric] run_GetByEmail calm db known(1) unknown)
  qed
qed

subsection \<open>Registration\<close>

lemma run_Create:
  "calm w \<Longrightarrow> run_state (UsersRepo_Create e k h s psk) w =
     (case createUser e k h s psk (ev_now (w_events w 0)) (ev_uuid (w_events w 0)) (w_db w) of
        (Inl x, d) \<Rightarrow> (Inl (Wrap ''create user'' (Wrap ''scan user'' x)), (passed w)\<lparr>w_db := d\<rparr>)
      | (Inr u, d) \<Rightarrow> (Inr u, (passed w)\<lparr>w_db := d\<rparr>))"
  by (auto simp: UsersRepo_Create_def queries_defs scanUser_def run_simps sql_step_def passed_def Let_def
      split: prod.split sum.split)

text \<open>The database work of a registration, from the insertion to the answer.\<close>

definition register_rest :: "lib \<Rightarrow> request \<Rightarrow> string \<Rightarrow> json \<Rightarrow> bytes \<Rightarrow> bytes \<Rightarrow> string \<Rightarrow> unit prog" where
  "register_rest l r email kdf serverHash salt psk = do {
     res \<leftarrow> UsersRepo_Create email kdf serverHash salt psk;
     case res of
       Inl e \<Rightarrow>
         if errors_AsPg e = Some ''23505''
         then do { log_it (LogDuplicate (cx_request_id r)); WriteHeader 201 }
         else fail500 r ''register: create user'' e internal
     | Inr _ \<Rightarrow> do {
         WriteHeader 201;
         recordEvent l r None EventRegister None (JObj [(''outcome'', JStr ''created'')])
       }
   }"

lemma createUser_cases:
  "(\<exists>u d'. createUser e k h s psk now fresh d = (Inr u, d')) \<or>
   createUser e k h s psk now fresh d = (Inl unique_violation, d)"
  by (simp add: createUser_def Let_def)

lemma register_rest_sees_nothing:
  assumes "calm w"
  shows "\<exists>w'. run_state (register_rest l r e k h s psk) w = ((), w') \<and> calm w' \<and>
    w_resp w' = rs_write_header 201 (w_resp w) \<and> w_auth w' = w_auth w \<and> w_kdf w' = w_kdf w \<and>
    w_slept w' = w_slept w \<and> w_clock w' = w_clock w \<and> rand_ok w' = rand_ok w"
proof -
  have "EventRegister \<noteq> EventLoginFailure" "EventRegister \<noteq> EventLoginSuccess"
    by (simp_all add: EventRegister_def EventLoginFailure_def EventLoginSuccess_def)
  with assms createUser_cases [of e k h s psk "ev_now (w_events w 0)" "ev_uuid (w_events w 0)" "w_db w"]
  show ?thesis
    by (auto simp: register_rest_def run_Create run_recordEvent run_prims WriteHeader_def
        unique_violation_def)
qed

lemma alike_register: "alike t (PostRegister l r) (PostRegister l r)"
  unfolding alike_def
proof (intro allI impI conjI)
  fix w v assume s: "same t w v"
  obtain x w1 where w1: "run_state (Manager_CheckRegisterLimit (clientIP r)) w = (x, w1)" by fastforce
  obtain y v1 where v1: "run_state (Manager_CheckRegisterLimit (clientIP r)) v = (y, v1)" by fastforce
  have xy: "x = y" and s1: "same t w1 v1" using alikeD [OF alike_limits(4) s w1 v1] by auto
  then have r: "rand_ok w1" "rand_ok v1" by (simp_all add: same_def)
  have wj: "same t (snd (run_state (writeJSON n j) w1)) (snd (run_state (writeJSON n j) v1))" for n j
    using s1 alike_prims(4) [of t "rs_json n j"] by (auto simp: writeJSON_def alike_def)
  have rest: "same t (snd (run_state (register_rest l r e k h a psk) ((drawn 16 w1)\<lparr>w_kdf := w_kdf w1 + 1\<rparr>)))
      (snd (run_state (register_rest l r e k h' b psk) ((drawn 16 v1)\<lparr>w_kdf := w_kdf v1 + 1\<rparr>)))"
    for e k h a h' b psk
  proof -
    have "calm ((drawn 16 w1)\<lparr>w_kdf := w_kdf w1 + 1\<rparr>)" "calm ((drawn 16 v1)\<lparr>w_kdf := w_kdf v1 + 1\<rparr>)"
      using s1 by (simp_all add: same_def)
    from register_rest_sees_nothing [OF this(1), of l r e k h a psk]
      register_rest_sees_nothing [OF this(2), of l r e k h' b psk]
    show ?thesis using s1 by (auto simp: same_def)
  qed
  show "fst (run_state (PostRegister l r) w) = fst (run_state (PostRegister l r) v)" by simp
  show "same t (snd (run_state (PostRegister l r) w)) (snd (run_state (PostRegister l r) v))"
    using wj rest
    by (auto simp: PostRegister_def Let_def w1 v1 [folded xy] run_NewServerSalt r run_server_hash
        register_rest_def [symmetric] decode_auth_hash_def split: option.split)
qed

subsection \<open>Properties\<close>

text \<open>
  C18: login does not reveal which accounts exist.  A login with a wrong password and a login
  for an unknown e-mail address get the same response, cost the same number of Argon2id runs,
  sleep equally long and leave the same rate-limit and lockout state, so the following
  requests cannot tell them apart either.
\<close>

theorem unknown_account_like_wrong_password:
  assumes w: "calm w" "rand_ok w" "\<And>i. w_clock w i = t"
    and body: "decodeJSON l (LoginRequest_fields l) zero_LoginRequest r = Some body"
    and known: "find (\<lambda>u. u_email u = NormalizeEmail l (lr_email body)) (users (w_db w)) = Some u"
      "u_auth_salt u \<noteq> []"
    and wrong: "\<And>h. decode_auth_hash (lr_auth_hash body) = Some h \<Longrightarrow>
      DeriveServerAuthHash l h (u_auth_salt u) DefaultServerAuthParams \<noteq> Inr (u_auth_hash u)"
    and unknown: "find (\<lambda>u. u_email u = NormalizeEmail l (lr_email body)) (users d) = None"
    and runs: "run_state (PostLogin l r) w = ((), w1)" "run_state (PostLogin l r) (w\<lparr>w_db := d\<rparr>) = ((), w2)"
  shows "w_resp w1 = w_resp w2 \<and> w_kdf w1 = w_kdf w2 \<and> w_slept w1 = w_slept w2 \<and> w_auth w1 = w_auth w2"
proof -
  have "same t w (w\<lparr>w_db := d\<rparr>)" using w by (simp add: same_def)
  moreover have "wrong_hash l h u" if "decode_auth_hash (lr_auth_hash body) = Some h" for h
  proof -
    have "h \<noteq> []" using that by (auto simp: decode_auth_hash_def split: option.splits if_splits)
    then show ?thesis
      using wrong [OF that] by (simp add: wrong_hash_def DeriveServerAuthHash_default known(2))
  qed
  ultimately have "same t w1 w2"
    using failed_logins_alike [of t w "w\<lparr>w_db := d\<rparr>" l r body u] known unknown body runs
    by (simp add: login_email_def)
  then show ?thesis by (simp add: same_def)
qed

text \<open>
  registration does not reveal which accounts exist.  The answer to a registration, its
  cost and the limiter state it leaves do not depend on the database at all, so a taken
  e-mail address looks like a free one.
\<close>

theorem registration_hides_accounts:
  assumes "calm w" and "rand_ok w" and "\<And>i. w_clock w i = t"
    and "run_state (PostRegister l r) w = ((), w1)" and "run_state (PostRegister l r) (w\<lparr>w_db := d\<rparr>) = ((), w2)"
  shows "w_resp w1 = w_resp w2 \<and> w_kdf w1 = w_kdf w2 \<and> w_slept w1 = w_slept w2 \<and> w_auth w1 = w_auth w2"
proof -
  have "same t w (w\<lparr>w_db := d\<rparr>)" using assms by (simp add: same_def)
  then have "same t w1 w2"
    using alike_register [of t l r] assms(4,5) by (simp add: alike_def) (metis snd_conv)
  then show ?thesis by (simp add: same_def)
qed

text \<open>
  A locked account costs an attacker's request nothing.  While an account is locked every
  login for it is answered 429 before the database, Argon2id or the random source is
  touched, whatever the password and whatever the state of the database.
\<close>

theorem locked_login_refused:
  assumes "decodeJSON l (LoginRequest_fields l) zero_LoginRequest r = Some body"
    and "fst (LockoutTracker_IsLocked (w_clock w 0) (NormalizeEmail l (lr_email body)) (m_lockout (w_auth w)))"
    and "run_state (PostLogin l r) w = ((), w')"
  shows "w_resp w' = rs_json 429 (gen_Error ''too many login attempts; try again later'') (w_resp w) \<and>
    w_db w' = w_db w \<and> w_events w' = w_events w \<and> w_kdf w' = w_kdf w \<and> w_rng w' = w_rng w \<and>
    w_slept w' = w_slept w \<and> m_loginIP (w_auth w') = m_loginIP (w_auth w)"
  using assms
  by (auto simp: PostLogin_def Let_def Manager_IsLoginLocked_def run_simps writeJSON_def split_beta)

subsection \<open>The properties at concrete inputs\<close>

definition sample_login :: request where
  "sample_login = sample_request ''POST'' ''/api/login''
     (JObj [(''auth_hash'', JStr ''QUJD''), (''email'', JStr ''Ann@Example.org'')])"

lemma sample_login_body:
  "decodeJSON sample_lib (LoginRequest_fields sample_lib) zero_LoginRequest sample_login =
     Some \<lparr>lr_auth_hash = ''QUJD'', lr_email = ''Ann@Example.org''\<rparr>"
  by code_simp

lemma sample_login_email: "NormalizeEmail sample_lib ''Ann@Example.org'' = ''ann@example.org''"
  by code_simp

definition sample_account :: User where
  "sample_account = sample_user\<lparr>u_auth_salt := [7], u_auth_hash := [9]\<rparr>"

abbreviation frozen :: "db \<Rightarrow> world" where
  "frozen d \<equiv> (sample_world d)\<lparr>w_clock := (\<lambda>_. 1000)\<rparr>"

lemma sample_derive: "DeriveServerAuthHash sample_lib h s k \<noteq> Inr [9]"
proof
  assume "DeriveServerAuthHash sample_lib h s k = Inr [9]"
  then have "argon2_IDKey sample_lib h s (kdf_Iterations k) (kdf_MemoryKiB k) (kdf_Parallelism k) 32 = [9]"
    by (auto simp: DeriveServerAuthHash_def AuthHashSizeBytes_def split: if_splits option.splits)
  then have "length (pad_to 32 (h @ s)) = 1" by (simp add: sample_lib_def)
  then show False by simp
qed

lemma run_unit: "\<exists>w'. run_state (p :: unit prog) w = ((), w')"
  by (metis old.unit.exhaust surj_pair)

theorem unknown_account_like_wrong_password_witness:
  "\<exists>w1 w2. run_state (PostLogin sample_lib sample_login) (frozen (empty_db\<lparr>users := [sample_account]\<rparr>)) = ((), w1) \<and>
     run_state (PostLogin sample_lib sample_login)
       ((frozen (empty_db\<lparr>users := [sample_account]\<rparr>))\<lparr>w_db := empty_db\<rparr>) = ((), w2) \<and> w_resp w1 = w_resp w2"
proof -
  let ?w = "frozen (empty_db\<lparr>users := [sample_account]\<rparr>)"
  obtain w1 where 1: "run_state (PostLogin sample_lib sample_login) ?w = ((), w1)"
    using run_unit by blast
  obtain w2 where 2: "run_state (PostLogin sample_lib sample_login) (?w\<lparr>w_db := empty_db\<rparr>) = ((), w2)"
    using run_unit by blast
  have "w_resp w1 = w_resp w2 \<and> w_kdf w1 = w_kdf w2 \<and> w_slept w1 = w_slept w2 \<and> w_auth w1 = w_auth w2"
  proof (rule unknown_account_like_wrong_password [OF _ _ _ sample_login_body _ _ _ _ 1 2])
    show "find (\<lambda>u. u_email u = NormalizeEmail sample_lib
        (lr_email \<lparr>lr_auth_hash = ''QUJD'', lr_email = ''Ann@Example.org''\<rparr>)) (users (w_db ?w)) = Some sample_account"
      by (simp add: sample_login_email sample_account_def sample_user_def)
  qed (use sample_derive in \<open>simp_all add: sample_account_def rand_ok_def sample_rng_def empty_db_def\<close>)
  then show ?thesis using 1 2 by auto
qed

theorem registration_hides_accounts_witness:
  "\<exists>w1 w2. run_state (PostRegister sample_lib sample_login) (frozen (empty_db\<lparr>users := [sample_account]\<rparr>)) = ((), w1) \<and>
     run_state (PostRegister sample_lib sample_login) ((frozen (empty_db\<lparr>users := [sample_account]\<rparr>))\<lparr>w_db := empty_db\<rparr>) = ((), w2) \<and>
     w_resp w1 = w_resp w2"
proof -
  let ?w = "frozen (empty_db\<lparr>users := [sample_account]\<rparr>)"
  obtain w1 where 1: "run_state (PostRegister sample_lib sample_login) ?w = ((), w1)"
    using run_unit by blast
  obtain w2 where 2: "run_state (PostRegister sample_lib sample_login) (?w\<lparr>w_db := empty_db\<rparr>) = ((), w2)"
    using run_unit by blast
  show ?thesis
    using registration_hides_accounts [OF _ _ _ 1 2, of 1000] 1 2
    by (auto simp: rand_ok_def sample_rng_def)
qed

theorem locked_login_refused_witness:
  "\<exists>w'. run_state (PostLogin sample_lib sample_login) ((sample_world empty_db)\<lparr>w_auth :=
       (NewManager (15 * Minute) (168 * Hour))\<lparr>m_lockout := [''ann@example.org'' \<mapsto>
          \<lparr>fr_failures = 5, fr_firstFail = 10, fr_lockedUntil = 5000\<rparr>]\<rparr>\<rparr>) = ((), w') \<and>
     rs_status (w_resp w') = 429 \<and> w_kdf w' = 0"
proof -
  let ?w = "(sample_world empty_db)\<lparr>w_auth :=
       (NewManager (15 * Minute) (168 * Hour))\<lparr>m_lockout := [''ann@example.org'' \<mapsto>
          \<lparr>fr_failures = 5, fr_firstFail = 10, fr_lockedUntil = 5000\<rparr>]\<rparr>\<rparr>"
  obtain w' where run: "run_state (PostLogin sample_lib sample_login) ?w = ((), w')"
    using run_unit by blast
  show ?thesis
    using locked_login_refused [OF sample_login_body _ run] run
    by (simp add: sample_login_email LockoutTracker_IsLocked_def rs_json_fresh fresh_response_def)
qed

end
