(* ===== verification/LoginSafety.thy ===== *)
theory LoginSafety
  imports LoginPrivacy Frames
begin

text \<open>
  Who gets a session.  \<open>modest U p P\<close>: whatever the database's failures, \<open>p\<close> sets no cookie,
  touches no session and no user of the table \<open>U\<close>, and its result satisfies \<open>P\<close>.
  \<open>spends U G p\<close>: \<open>p\<close> may do so only if \<open>G\<close> holds.
\<close>

definition untouched :: "world \<Rightarrow> world \<Rightarrow> bool" where
  "untouched w w' = (rely (=) w' \<and> rs_cookies (w_resp w') = rs_cookies (w_resp w) \<and>
     sessions (w_db w') = sessions (w_db w) \<and> users (w_db w') = users (w_db w))"

definition modest :: "User list \<Rightarrow> 'a prog \<Rightarrow> ('a \<Rightarrow> bool) \<Rightarrow> bool" where
  "modest U p P = (\<forall>w x w'. rely (=) w \<longrightarrow> users (w_db w) = U \<longrightarrow> run_state p w = (x, w') \<longrightarrow>
     untouched w w' \<and> P x)"

definition spends :: "User list \<Rightarrow> bool \<Rightarrow> 'a prog \<Rightarrow> bool" where
  "spends U G p = (\<forall>w x w'. rely (=) w \<longrightarrow> users (w_db w) = U \<longrightarrow> run_state p w = (x, w') \<longrightarrow>
     G \<or> untouched w w')"

abbreviation quiet :: "User list \<Rightarrow> 'a prog \<Rightarrow> bool" where
  "quiet U p \<equiv> modest U p (\<lambda>_. True)"

lemma spends_quiet: "quiet U p \<Longrightarrow> spends U G p"
  by (auto simp: modest_def spends_def)

lemma spends_any: "G \<Longrightarrow> spends U G p"
  by (simp add: spends_def)

lemma modest_weaken: "modest U p P \<Longrightarrow> (\<And>x. P x \<Longrightarrow> Q x) \<Longrightarrow> modest U p Q"
  by (auto simp: modest_def)

lemma untouched_trans: "untouched w1 w2 \<Longrightarrow> untouched w2 w3 \<Longrightarrow> untouched w1 w3"
  by (simp add: untouched_def)

lemma untouchedD: "untouched w w' \<Longrightarrow> rely (=) w'" "untouched w w' \<Longrightarrow> users (w_db w') = users (w_db w)"
  by (simp_all add: untouched_def)

lemma modestD:
  "modest U p P \<Longrightarrow> rely (=) w \<Longrightarrow> users (w_db w) = U \<Longrightarrow> run_state p w = (x, w') \<Longrightarrow> untouched w w' \<and> P x"
  by (simp add: modest_def)

lemma spendsD:
  "spends U G p \<Longrightarrow> rely (=) w \<Longrightarrow> users (w_db w) = U \<Longrightarrow> run_state p w = (x, w') \<Longrightarrow> G \<or> untouched w w'"
  unfolding spends_def by blast

lemma modest_bind:
  assumes p: "modest U p P" and f: "\<And>x. P x \<Longrightarrow> modest U (f x) Q"
  shows "modest U (State_Monad.bind p f) Q"
  unfolding modest_def
proof (intro allI impI)
  fix w y w' assume w: "rely (=) w" "users (w_db w) = U" and run: "run_state (State_Monad.bind p f) w = (y, w')"
  obtain x w1 where 1: "run_state p w = (x, w1)" by fastforce
  with p w have x: "untouched w w1" "P x" by (auto dest: modestD)
  have "run_state (f x) w1 = (y, w')" using run 1 by simp
  then have "untouched w1 w' \<and> Q y"
    using modestD [OF f [OF x(2)] untouchedD(1) [OF x(1)]] untouchedD(2) [OF x(1)] w(2) by simp
  then show "untouched w w' \<and> Q y" using x(1) untouched_trans by blast
qed

lemma spends_bind:
  assumes p: "modest U p P" and f: "\<And>x. P x \<Longrightarrow> spends U G (f x)"
  shows "spends U G (State_Monad.bind p f)"
  unfolding spends_def
proof (intro allI impI)
  fix w y w' assume w: "rely (=) w" "users (w_db w) = U" and run: "run_state (State_Monad.bind p f) w = (y, w')"
  obtain x w1 where 1: "run_state p w = (x, w1)" by fastforce
  with p w have x: "untouched w w1" "P x" by (auto dest: modestD)
  have "run_state (f x) w1 = (y, w')" using run 1 by simp
  then have "G \<or> untouched w1 w'"
    using spendsD [OF f [OF x(2)] untouchedD(1) [OF x(1)]] untouchedD(2) [OF x(1)] w(2) by simp
  then show "G \<or> untouched w w'" using x(1) untouched_trans by blast
qed

lemma modest_return: "P x \<Longrightarrow> modest U (State_Monad.return x) P"
  by (simp add: modest_def untouched_def)

lemma modest_pure:
  "(\<And>w. w_db (snd (run_state p w)) = w_db w \<and> w_events (snd (run_state p w)) = w_events w \<and>
      rs_cookies (w_resp (snd (run_state p w))) = rs_cookies (w_resp w) \<and> P (fst (run_state p w))) \<Longrightarrow> modest U p P"
  unfolding modest_def untouched_def rely_def by (metis fst_conv snd_conv)

lemma modest_prims:
  "quiet U time_Now" "quiet U (time_Sleep dur)" "quiet U (lift_rng m)" "quiet U (lift_auth g)"
  "quiet U (lift_alerts k)" "quiet U (log_it e)" "quiet U (get_auth q)"
  "quiet U (writeJSON n j)" "quiet U (WriteHeader n)"
  by (rule modest_pure, simp add: prim_defs writeJSON_def WriteHeader_def response_defs Let_def
      split: prod.split option.split)+

lemma modest_server_hash: "modest U (server_hash l h s) (\<lambda>x. x = DeriveServerAuthHash l h s DefaultServerAuthParams)"
  by (rule modest_pure) (simp add: prim_defs Let_def)

text \<open>Statements that leave users and sessions alone.\<close>

definition sparing :: "User list \<Rightarrow> 'a stmt \<Rightarrow> (err + 'a \<Rightarrow> bool) \<Rightarrow> bool" where
  "sparing U s P = (\<forall>now fresh d. users d = U \<longrightarrow>
     sessions (snd (s now fresh d)) = sessions d \<and> users (snd (s now fresh d)) = U \<and> P (fst (s now fresh d)))"

lemma rely_events: "rely R w \<Longrightarrow> range (w_events w') \<subseteq> range (w_events w) \<Longrightarrow> rely R w'"
  by (rule rely_range)

lemma modest_exec:
  assumes "sparing U s P" and "\<And>e. P (Inl e)"
  shows "modest U (db_exec s) P"
  unfolding modest_def
proof (intro allI impI)
  fix w x w' assume w: "rely (=) w" "users (w_db w) = U" and run: "run_state (db_exec s) w = (x, w')"
  let ?e = "w_events w 0"
  obtain r d where sd: "s (ev_now ?e) (ev_uuid ?e) (w_db w) = (r, d)" by fastforce
  with assms(1) w(2) have d: "sessions d = sessions (w_db w)" "users d = U" "P r"
    unfolding sparing_def by (metis fst_conv snd_conv)+
  have "ev_others ?e (w_db w) = w_db w" using w(1) by (simp add: rely_def)
  then have w': "w_events w' = (\<lambda>i. w_events w (Suc i))" "w_resp w' = w_resp w"
      "(w_db w' = d \<or> w_db w' = w_db w) \<and> P x"
    using run sd assms(2) d(3) by (auto simp: db_exec_def next_event_def Let_def split: trip.splits)
  moreover have "rely (=) w'" using w(1) w'(1) by (simp add: rely_def)
  ultimately show "untouched w w' \<and> P x" using w(2) d by (auto simp: untouched_def)
qed

lemma modest_read: "(\<And>now fresh d. s now fresh d = (f d, d)) \<Longrightarrow> quiet U (db_exec s)"
  by (rule modest_exec) (auto simp: sparing_def)

lemma modest_Append: "quiet U (AuditRepo_Append u ty ip ua res m)"
  unfolding AuditRepo_Append_def queries_defs try_prog_def Let_def
  by (intro modest_bind [OF modest_exec [where P = "\<lambda>_. True"]])
     (auto simp: sparing_def appendAuditEvent_def intro!: modest_return split: sum.split)

lemma modest_if: "(b \<Longrightarrow> modest U p P) \<Longrightarrow> (\<not> b \<Longrightarrow> modest U q P) \<Longrightarrow> modest U (if b then p else q) P"
  by simp

lemma quiet_sum:
  "(\<And>e. quiet U (f e)) \<Longrightarrow> (\<And>x. quiet U (g x)) \<Longrightarrow> quiet U (case s of Inl e \<Rightarrow> f e | Inr x \<Rightarrow> g x)"
  by (cases s) auto

lemma quiet_option:
  "quiet U p \<Longrightarrow> (\<And>x. quiet U (f x)) \<Longrightarrow> quiet U (case ov of None \<Rightarrow> p | Some x \<Rightarrow> f x)"
  by (cases ov) auto

lemma quiet_bind: "quiet U p \<Longrightarrow> (\<And>x. quiet U (f x)) \<Longrightarrow> quiet U (State_Monad.bind p f)"
  by (rule modest_bind)

lemma quiet_return: "quiet U (State_Monad.return x)"
  by (rule modest_return) simp

lemma quiet_server_hash: "quiet U (server_hash l h s)"
  by (rule modest_weaken [OF modest_server_hash]) simp

lemmas quiet_rules = quiet_bind quiet_return quiet_sum quiet_option modest_if modest_prims quiet_server_hash

lemma quiet_recordEvent: "quiet U (recordEvent l r u ty res m)"
proof -
  have "quiet U (AuditRepo_RecordDeviceHash uid h)" for uid h
    unfolding AuditRepo_RecordDeviceHash_def queries_defs
    by (intro quiet_rules modest_exec [where P = "\<lambda>_. True"])
       (auto simp: sparing_def recordDeviceHash_def)
  then show ?thesis
    unfolding recordEvent_def Let_def by (intro quiet_rules modest_Append)
qed

lemma quiet_reject: "quiet U (reject_login email)"
  unfolding reject_login_def limits_defs by (intro quiet_rules)

lemma quiet_fail500: "quiet U (fail500 r op e msg)"
  unfolding fail500_def logInternalError_def by (intro quiet_rules)

lemma quiet_dummy_work: "quiet U (dummy_work l h)"
  unfolding dummy_work_def by (intro quiet_rules)

lemma quiet_challenge: "quiet U (challenge_login l r u)"
proof -
  have "quiet U (createMFAToken l uid)" for uid
    unfolding createMFAToken_def authGenerateToken_def MFARepo_CreateChallenge_def queries_defs try_prog_def
    by (intro quiet_rules modest_exec [where P = "\<lambda>_. True"])
       (auto simp: sparing_def createMFAChallenge_def)
  then show ?thesis
    unfolding challenge_login_def by (intro quiet_rules quiet_fail500 quiet_recordEvent)
qed

lemma modest_GetByEmail:
  "modest U (UsersRepo_GetByEmail email) (\<lambda>x. \<forall>u. x = Inr u \<longrightarrow> u \<in> set U \<and> u_email u = email)"
  unfolding UsersRepo_GetByEmail_def queries_defs scanUser_def try_prog_def
  by (rule modest_bind [OF modest_bind [OF modest_exec
        [where P = "\<lambda>x. \<forall>u. x = Inr u \<longrightarrow> u \<in> set U \<and> u_email u = email"]]])
     (auto simp: sparing_def getUserByEmail_def one_row_def find_Some_iff intro!: modest_return
       split: option.split sum.split)

subsection \<open>The guard of \<open>PostLogin\<close>\<close>

text \<open>Some user's stored hash is what the given credentials derive to.\<close>

definition password_ok :: "lib \<Rightarrow> User \<Rightarrow> bytes \<Rightarrow> bool" where
  "password_ok l u h =
     (DeriveServerAuthHash l h (u_auth_salt u) DefaultServerAuthParams = Inr (u_auth_hash u))"

lemma spends_if: "(b \<Longrightarrow> spends U G p) \<Longrightarrow> (\<not> b \<Longrightarrow> spends U G q) \<Longrightarrow> spends U G (if b then p else q)"
  by simp

lemma spends_PostLogin:
  assumes body: "decodeJSON l (LoginRequest_fields l) zero_LoginRequest r = Some body"
    and h: "decode_auth_hash (lr_auth_hash body) = Some h"
    and G: "\<And>u. u \<in> set U \<Longrightarrow> u_email u = NormalizeEmail l (lr_email body) \<Longrightarrow> password_ok l u h \<Longrightarrow>
        \<not> u_totp_enabled u \<Longrightarrow> G"
  shows "spends U G (PostLogin l r)"
proof -
  let ?e = "NormalizeEmail l (lr_email body)"
  have known: "spends U G (login_known l r ?e h u)"
    if u: "u \<in> set U \<and> u_email u = ?e" for u
    unfolding login_known_def
  proof (rule spends_bind [OF modest_server_hash])
    fix cand assume cand: "cand = DeriveServerAuthHash l h (u_auth_salt u) DefaultServerAuthParams"
    show "spends U G (case cand of
          Inl e \<Rightarrow> fail500 r ''login: derive candidate hash'' e internal
        | Inr candidate \<Rightarrow>
            if ConstantTimeCompare candidate (u_auth_hash u) \<noteq> 1
            then do {
              recordEvent l r (Some (u_id u)) EventLoginFailure None
                (JObj [(''reason'', JStr ''invalid_credentials'')]);
              reject_login ?e
            }
            else do {
              Manager_ResetLoginLimit (clientIP r) ?e;
              if u_totp_enabled u then challenge_login l r u else completeLogin l r u
            })"
    proof (cases cand)
      case (Inl e)
      then show ?thesis by (simp add: spends_quiet quiet_fail500)
    next
      case (Inr c)
      have go: "spends U G (completeLogin l r u)" if "c = u_auth_hash u" "\<not> u_totp_enabled u"
        using G [of u] u that cand Inr by (intro spends_any) (auto simp: password_ok_def)
      show ?thesis
        unfolding Inr sum.case Manager_ResetLoginLimit_def
        by (intro spends_if spends_bind [OF modest_prims(4)] go)
           (auto simp: ConstantTimeCompare_eq split: if_splits
             intro!: spends_quiet quiet_bind quiet_recordEvent quiet_reject quiet_challenge)
    qed
  qed
  show ?thesis
    unfolding PostLogin_def body option.case Let_def h limits_defs
    by (intro spends_bind [OF modest_prims(1)] spends_bind [OF modest_prims(4)] spends_if
          spends_bind [OF modest_GetByEmail] spends_bind [where P = "\<lambda>_. True"] quiet_rules)
       (auto simp: known intro!: spends_quiet quiet_rules quiet_dummy_work quiet_reject [unfolded limits_defs]
          quiet_fail500 split: sum.split)
qed

lemma quiet_PostLogin_malformed:
  assumes "\<And>body. decodeJSON l (LoginRequest_fields l) zero_LoginRequest r = Some body \<Longrightarrow>
      decode_auth_hash (lr_auth_hash body) = None"
  shows "quiet U (PostLogin l r)"
proof (cases "decodeJSON l (LoginRequest_fields l) zero_LoginRequest r")
  case None
  then show ?thesis by (simp add: PostLogin_def modest_prims)
next
  case (Some body)
  then show ?thesis
    unfolding PostLogin_def limits_defs Some option.case assms [OF Some] Let_def by (intro quiet_rules)
qed

text \<open>
  C3: no session without the password.  Whatever fails in the database, if serving a login
  request sets a cookie or changes the sessions table, then the request carries the e-mail
  address of a stored user without second factor and an auth hash from which that user's
  stored hash derives.
\<close>

theorem session_needs_password:
  assumes "\<And>n d. ev_others (w_events w n) d = d"
    and run: "run_state (PostLogin l r) w = ((), w')"
    and minted: "rs_cookies (w_resp w') \<noteq> rs_cookies (w_resp w) \<or> sessions (w_db w') \<noteq> sessions (w_db w)"
  shows "\<exists>body h u. decodeJSON l (LoginRequest_fields l) zero_LoginRequest r = Some body \<and>
    decode_auth_hash (lr_auth_hash body) = Some h \<and>
    u \<in> set (users (w_db w)) \<and> u_email u = NormalizeEmail l (lr_email body) \<and> \<not> u_totp_enabled u \<and>
    DeriveServerAuthHash l h (u_auth_salt u) DefaultServerAuthParams = Inr (u_auth_hash u)"
    (is ?G)
proof -
  have w: "rely (=) w" using assms(1) by (simp add: rely_def)
  have "spends (users (w_db w)) ?G (PostLogin l r)"
  proof (cases "\<exists>body h. decodeJSON l (LoginRequest_fields l) zero_LoginRequest r = Some body \<and>
      decode_auth_hash (lr_auth_hash body) = Some h")
    case True
    then obtain body h where b: "decodeJSON l (LoginRequest_fields l) zero_LoginRequest r = Some body"
      "decode_auth_hash (lr_auth_hash body) = Some h" by blast
    show ?thesis by (rule spends_PostLogin [OF b]) (use b in \<open>auto simp: password_ok_def\<close>)
  next
    case False
    then show ?thesis by (intro spends_quiet quiet_PostLogin_malformed) (metis option.exhaust)
  qed
  from spendsD [OF this w refl run] minted show ?G by (auto simp: untouched_def)
qed

subsection \<open>A login that succeeds\<close>

lemma calm_kept: "within inv_step p \<Longrightarrow> calm w \<Longrightarrow> run_state p w = (x, w') \<Longrightarrow> calm w'"
proof -
  assume p: "within inv_step p" and c: "calm w" and run: "run_state p w = (x, w')"
  have "rely inv_step w" using c by (simp add: rely_def calm_def inv_step_def)
  from withinD [OF p this run] have "range (w_events w') \<subseteq> range (w_events w)" by blast
  then have "\<exists>m. w_events w' n = w_events w m" for n by blast
  with c show "calm w'" unfolding calm_def by metis
qed

text \<open>Programs that leave the response alone.\<close>

interpretation silent: world_frame "\<lambda>w w'. w_resp w' = w_resp w"
  by unfold_locales simp_all

lemma silent_prims:
  "keeps (\<lambda>w w'. w_resp w' = w_resp w) time_Now" "keeps (\<lambda>w w'. w_resp w' = w_resp w) (lift_alerts k)"
  "keeps (\<lambda>w w'. w_resp w' = w_resp w) (log_it e)" "keeps (\<lambda>w w'. w_resp w' = w_resp w) (db_exec st)"
  by (simp_all add: keeps_def prims_keep_resp)

lemma silent_recordEvent: "keeps (\<lambda>w w'. w_resp w' = w_resp w) (recordEvent l r u ty res m)"
  unfolding recordEvent_def AuditRepo_Append_def AuditRepo_RecordDeviceHash_def queries_defs try_prog_def Let_def
  by (intro silent.keeps_rules silent_prims)

lemma run_recordEvent_success:
  assumes "calm w"
  shows "\<exists>w'. run_state (recordEvent l r u ty res m) w = ((), w') \<and> w_resp w' = w_resp w \<and> calm w' \<and>
    sessions (w_db w') = sessions (w_db w) \<and> users (w_db w') = users (w_db w)"
proof -
  obtain w' where run: "run_state (recordEvent l r u ty res m) w = ((), w')" using run_unit by blast
  have "w_resp w' = w_resp w"
    by (rule keepsD [OF silent_recordEvent run])
  moreover have "rely (=) w" using assms by (simp add: calm_def rely_def)
  then have "untouched w w'" using modestD [OF quiet_recordEvent _ refl run] by blast
  ultimately show ?thesis
    using run calm_kept [OF tables.api_within(8) assms run] by (auto simp: untouched_def)
qed

text \<open>What \<open>completeLogin\<close> sends, and the session it leaves.\<close>

lemma completeLogin_calm:
  assumes "calm w" and "rand_ok w" and "user_exists (w_db w) (u_id u)" and "session_fresh w l"
    and k: "gen_KDFParams_Unmarshal l (u_kdf u) = Some k" and "rs_sent (w_resp w) = None"
  shows "\<exists>w'. run_state (completeLogin l r u) w = ((), w') \<and> calm w' \<and> rs_status (w_resp w') = 200 \<and>
    sent_cookies (w_resp w') = rs_cookies (w_resp w) @
      [auth_cookie AccessCookieName (token_at w 0) ''/'' (max_age (m_accessTTL (w_auth w))),
       auth_cookie RefreshCookieName (token_at w 32) RefreshCookiePath (max_age (m_refreshTTL (w_auth w)))] \<and>
    rs_body (w_resp w') = rs_body (w_resp w) @ [BJson (LoginResponse k None None (u_psk u) None)] \<and>
    sessions (w_db w') = sessions (w_db w) @ [session_row w l (u_id u)] \<and> users (w_db w') = users (w_db w)"
proof -
  let ?c = "rs_set_cookie (auth_cookie RefreshCookieName (token_at w 32) RefreshCookiePath
        (max_age (m_refreshTTL (w_auth w)))) (rs_set_cookie
      (auth_cookie AccessCookieName (token_at w 0) ''/'' (max_age (m_accessTTL (w_auth w)))) (w_resp w))"
  define w1 where "w1 = (tick (drawn 32 (drawn 32 w)))
       \<lparr>w_events := (\<lambda>i. w_events w (Suc i)),
        w_db := (w_db w)\<lparr>sessions := sessions (w_db w) @ [session_row w l (u_id u)]\<rparr>\<rparr>"
  let ?w2 = "w1\<lparr>w_resp := rs_json 200 (LoginResponse k None None (u_psk u) None) ?c\<rparr>"
  have "calm ?w2" using assms(1) by (simp add: w1_def)
  from run_recordEvent_success [OF this, of l r "Some (u_id u)" EventLoginSuccess None JNull]
  obtain w' where w': "run_state (recordEvent l r (Some (u_id u)) EventLoginSuccess None JNull) ?w2 = ((), w')"
    "w_resp w' = w_resp ?w2" "calm w'" "sessions (w_db w') = sessions (w_db ?w2)"
    "users (w_db w') = users (w_db ?w2)" by blast
  have "run_state (completeLogin l r u) w = ((), w')"
    using w'(1) by (simp add: completeLogin_def run_CreateSessionPair [OF assms(1-4)] user_kdf_def k run_prims
        setAuthCookies_def writeJSON_def w1_def)
  then show ?thesis
    using w' assms(6) by (auto simp: response_defs w1_def)
qed

end
