(* ===== verification/Accounts.thy ===== *)
theory Accounts
  imports LoginSafety
begin

text \<open>
  The life of an account over a database that answers: registration, login with the registered
  credentials, key rotation, deletion.
\<close>

lemma recorded_tables:
  "sessions (w_db (recorded l r u ty res m w)) = sessions (w_db w)"
  "users (w_db (recorded l r u ty res m w)) = users (w_db w)"
  "items (w_db (recorded l r u ty res m w)) = items (w_db w)"
  by (simp_all add: recorded_db audit_of_def appendAuditEvent_def Let_def)

subsection \<open>Login\<close>

text \<open>The three gates of \<open>PostLogin\<close> let a request from \<open>ip\<close> for \<open>e\<close> through.\<close>

definition login_open :: "world \<Rightarrow> string \<Rightarrow> string \<Rightarrow> bool" where
  "login_open w ip e = (
     \<not> fst (LockoutTracker_IsLocked (w_clock w 0) e (m_lockout (w_auth w))) \<and>
     fst (RateLimiter_Allow (w_clock w 1) ip (m_loginIP (w_auth w))) \<and>
     fst (RateLimiter_Allow (w_clock w 2) e (m_loginAcct (w_auth w))))"

lemma login_open_run:
  assumes "login_open w ip e" and "calm w" and "rand_ok w"
  obtains w1 w2 where "run_state (Manager_IsLoginLocked e) w = (False, w1)"
    and "run_state (Manager_CheckLoginLimit ip e) w1 = (True, w2)"
    and "calm w2" "rand_ok w2" "w_db w2 = w_db w" "w_events w2 = w_events w" "w_resp w2 = w_resp w"
    and "\<And>i. w_clock w2 i = w_clock w (i + 3)" "\<And>i. token_at w2 i = token_at w i"
    and "m_accessTTL (w_auth w2) = m_accessTTL (w_auth w)" "m_refreshTTL (w_auth w2) = m_refreshTTL (w_auth w)"
proof -
  obtain a t where a: "LockoutTracker_IsLocked (w_clock w 0) e (m_lockout (w_auth w)) = (a, t)" by fastforce
  obtain b r where b: "RateLimiter_Allow (w_clock w 1) ip (m_loginIP (w_auth w)) = (b, r)" by fastforce
  obtain c q where c: "RateLimiter_Allow (w_clock w 2) e (m_loginAcct (w_auth w)) = (c, q)" by fastforce
  let ?w1 = "(tick w)\<lparr>w_auth := (w_auth w)\<lparr>m_lockout := t\<rparr>\<rparr>"
  let ?w2 = "(tick (tick (tick w)))\<lparr>w_auth := (w_auth w)\<lparr>m_lockout := t, m_loginIP := r, m_loginAcct := q\<rparr>\<rparr>"
  have abc: "\<not> a" b c using assms(1) a b c by (auto simp: login_open_def)
  have 1: "run_state (Manager_IsLoginLocked e) w = (False, ?w1)"
    using a abc by (simp add: Manager_IsLoginLocked_def run_simps)
  have tick: "tick (v\<lparr>w_auth := m\<rparr>) = (tick v)\<lparr>w_auth := m\<rparr>" for v m by (simp add: tick_def)
  have 2: "run_state (Manager_CheckLoginLimit ip e) ?w1 = (True, ?w2)"
    using b c [unfolded numeral_2_eq_2] abc by (simp add: Manager_CheckLoginLimit_def allow_with_def run_simps tick)
  show ?thesis
    by (rule that [OF 1 2]) (use assms in \<open>simp_all add: token_at_def numeral_3_eq_3\<close>)
qed

text \<open>A login with the right password, its answer and its session.\<close>

lemma login_succeeds:
  assumes w: "calm w" "rand_ok w" "rs_sent (w_resp w) = None" "rs_cookies (w_resp w) = []" "rs_body (w_resp w) = []"
    and body: "decodeJSON l (LoginRequest_fields l) zero_LoginRequest r = Some body"
      "decode_auth_hash (lr_auth_hash body) = Some h"
    and u: "find (\<lambda>u. u_email u = NormalizeEmail l (lr_email body)) (users (w_db w)) = Some u"
      "password_ok l u h" "\<not> u_totp_enabled u" "gen_KDFParams_Unmarshal l (u_kdf u) = Some k"
    and gate: "login_open w (clientIP r) (NormalizeEmail l (lr_email body))"
    and fresh: "session_fresh (passed w) l"
  shows "\<exists>w' s. run_state (PostLogin l r) w = ((), w') \<and> calm w' \<and> rs_status (w_resp w') = 200 \<and>
    sent_cookies (w_resp w') =
      [auth_cookie AccessCookieName (token_at w 0) ''/'' (max_age (m_accessTTL (w_auth w))),
       auth_cookie RefreshCookieName (token_at w 32) RefreshCookiePath (max_age (m_refreshTTL (w_auth w)))] \<and>
    rs_body (w_resp w') = [BJson (LoginResponse k None None (u_psk u) None)] \<and>
    sessions (w_db w') = sessions (w_db w) @ [s] \<and> users (w_db w') = users (w_db w) \<and>
    s_user s = u_id u \<and> s_access s = hashToken l (token_at w 0) \<and>
    s_access_exp s = w_clock w 3 + m_accessTTL (w_auth w)"
proof -
  let ?e = "NormalizeEmail l (lr_email body)"
  obtain w1 w2 where g: "run_state (Manager_IsLoginLocked ?e) w = (False, w1)"
      "run_state (Manager_CheckLoginLimit (clientIP r) ?e) w1 = (True, w2)"
    and w2: "calm w2" "rand_ok w2" "w_db w2 = w_db w" "w_events w2 = w_events w" "w_resp w2 = w_resp w"
      "\<And>i. w_clock w2 i = w_clock w (i + 3)" "\<And>i. token_at w2 i = token_at w i"
      "m_accessTTL (w_auth w2) = m_accessTTL (w_auth w)" "m_refreshTTL (w_auth w2) = m_refreshTTL (w_auth w)"
    using login_open_run [OF gate w(1,2)] by metis
  have "h \<noteq> []" and salt: "u_auth_salt u \<noteq> []"
    using u(2) by (auto simp: password_ok_def DeriveServerAuthHash_def split: if_splits)
  then have hash: "argon2_IDKey l h (u_auth_salt u) 2 19456 1 32 = u_auth_hash u"
    using u(2) by (simp add: password_ok_def DeriveServerAuthHash_default)
  define m where "m = (w_auth w2)\<lparr>m_loginIP := RateLimiter_Reset (clientIP r) (m_loginIP (w_auth w2)),
      m_loginAcct := RateLimiter_Reset ?e (m_loginAcct (w_auth w2)),
      m_lockout := LockoutTracker_Reset ?e (m_lockout (w_auth w2))\<rparr>"
  define w3 where "w3 = (passed w2)\<lparr>w_kdf := w_kdf w2 + 1, w_auth := m\<rparr>"
  have tok: "token_at w3 i = token_at w i" for i
    using w2(7) [of i] by (simp add: w3_def token_at_def passed_def)
  have 3: "calm w3" "rand_ok w3" "rs_sent (w_resp w3) = None" "w_db w3 = w_db w"
    using w2 w by (simp_all add: w3_def)
  have "user_exists (w_db w3) (u_id u)"
    using u(1) 3(4) by (auto simp: user_exists_def list_ex_iff find_Some_iff)
  moreover have "session_fresh w3 l"
    using fresh tok w2(4) 3(4) by (simp add: session_fresh_def w3_def)
  ultimately obtain w' where w': "run_state (completeLogin l r u) w3 = ((), w')" "calm w'"
      "rs_status (w_resp w') = 200" "sent_cookies (w_resp w') = rs_cookies (w_resp w3) @
      [auth_cookie AccessCookieName (token_at w3 0) ''/'' (max_age (m_accessTTL (w_auth w3))),
       auth_cookie RefreshCookieName (token_at w3 32) RefreshCookiePath (max_age (m_refreshTTL (w_auth w3)))]"
      "rs_body (w_resp w') = rs_body (w_resp w3) @ [BJson (LoginResponse k None None (u_psk u) None)]"
      "sessions (w_db w') = sessions (w_db w3) @ [session_row w3 l (u_id u)]" "users (w_db w') = users (w_db w3)"
    using completeLogin_calm [OF 3(1,2) _ _ u(4) 3(3), of r] by blast
  have "run_state (PostLogin l r) w = ((), w')"
    using w'(1) by (simp add: PostLogin_def body Let_def g run_GetByEmail w2(1,3) u(1) login_known_def
        run_server_hash \<open>h \<noteq> []\<close> salt hash ConstantTimeCompare_eq Manager_ResetLoginLimit_def run_lift_auth
        u(3) w3_def m_def)
  then show ?thesis
    using w' w(4,5) w2 tok by (auto simp: w3_def m_def session_row_def)
qed

text \<open>
  A login to an account without a second factor: decided by its stored hash, and answered with
  the stored parameters and key.
\<close>

lemma login_decides:
  assumes v: "calm v" "rand_ok v" "w_resp v = fresh_response"
    and login: "decodeJSON l (LoginRequest_fields l) zero_LoginRequest q = Some lb"
      "decode_auth_hash (lr_auth_hash lb) = Some h" "session_fresh (passed v) l"
      "login_open v (clientIP q) (NormalizeEmail l (lr_email lb))"
    and u: "find (\<lambda>u. u_email u = NormalizeEmail l (lr_email lb)) (users (w_db v)) = Some u"
      "\<And>x. x \<in> set (users (w_db v)) \<Longrightarrow> u_email x = NormalizeEmail l (lr_email lb) \<Longrightarrow> x = u"
      "\<not> u_totp_enabled u" "gen_KDFParams_Unmarshal l (u_kdf u) = Some k"
    and run: "run_state (PostLogin l q) v = ((), v')"
  shows "password_ok l u h \<Longrightarrow> rs_status (w_resp v') = 200 \<and>
       rs_body (w_resp v') = [BJson (LoginResponse k None None (u_psk u) None)] \<and>
       map ck_value (sent_cookies (w_resp v')) = [token_at v 0, token_at v 32] \<and>
       (\<exists>s. sessions (w_db v') = sessions (w_db v) @ [s] \<and> s_user s = u_id u \<and>
          s_access s = hashToken l (token_at v 0))"
    and "\<not> password_ok l u h \<Longrightarrow> rs_cookies (w_resp v') = [] \<and> sessions (w_db v') = sessions (w_db v)"
proof -
  assume "password_ok l u h"
  from login_succeeds [OF v(1,2) _ _ _ login(1,2) u(1) this u(3,4) login(4,3)] v(3) run
  show "rs_status (w_resp v') = 200 \<and>
       rs_body (w_resp v') = [BJson (LoginResponse k None None (u_psk u) None)] \<and>
       map ck_value (sent_cookies (w_resp v')) = [token_at v 0, token_at v 32] \<and>
       (\<exists>s. sessions (w_db v') = sessions (w_db v) @ [s] \<and> s_user s = u_id u \<and>
          s_access s = hashToken l (token_at v 0))"
    by (auto simp: fresh_response_def auth_cookie_def)
next
  assume no: "\<not> password_ok l u h"
  have "rely (=) v" using v(1) by (simp add: calm_def rely_def)
  moreover have "spends (users (w_db v)) False (PostLogin l q)"
    by (rule spends_PostLogin [OF login(1,2)]) (use u(2) no in auto)
  ultimately have "untouched v v'" using spendsD [OF _ _ refl run] by blast
  then show "rs_cookies (w_resp v') = [] \<and> sessions (w_db v') = sessions (w_db v)"
    using v(3) by (simp add: untouched_def fresh_response_def)
qed

subsection \<open>Registration\<close>

definition registered_row :: "lib \<Rightarrow> world \<Rightarrow> RegisterRequest \<Rightarrow> bytes \<Rightarrow> User" where
  "registered_row l w body h =
     (let salt = map (rng_bytes (w_rng w)) [0..<16]
      in \<lparr>u_id = ev_uuid (w_events w 0), u_email = NormalizeEmail l (rr_email body),
          u_kdf = gen_KDFParams_json (rr_kdf body), u_auth_hash = argon2_IDKey l h salt 2 19456 1 32,
          u_auth_salt = salt, u_psk = rr_psk body, u_totp_enabled = False, u_ptotp = None,
          u_created = ev_now (w_events w 0)\<rparr>)"

lemma registration_succeeds:
  assumes w: "calm w" "rand_ok w" "rs_sent (w_resp w) = None"
    and body: "decodeJSON l (RegisterRequest_fields l) zero_RegisterRequest r = Some body"
      "decode_auth_hash (rr_auth_hash body) = Some h" "validateCiphertext (rr_psk body) = None"
      "NormalizeEmail l (rr_email body) \<noteq> []"
    and gate: "fst (RateLimiter_Allow (w_clock w 0) (clientIP r) (m_registerIP (w_auth w)))"
    and new: "\<forall>u \<in> set (users (w_db w)). u_id u \<noteq> ev_uuid (w_events w 0) \<and>
        u_email u \<noteq> NormalizeEmail l (rr_email body)"
  shows "\<exists>w'. run_state (PostRegister l r) w = ((), w') \<and> rs_status (w_resp w') = 201 \<and>
    users (w_db w') = users (w_db w) @ [registered_row l w body h] \<and> sessions (w_db w') = sessions (w_db w)"
proof -
  let ?e = "NormalizeEmail l (rr_email body)" and ?u = "registered_row l w body h"
  obtain m where m: "RateLimiter_Allow (w_clock w 0) (clientIP r) (m_registerIP (w_auth w)) = (True, m)"
    using gate by (metis prod.collapse)
  define w1 where "w1 = (drawn 16 ((tick w)\<lparr>w_auth := (w_auth w)\<lparr>m_registerIP := m\<rparr>\<rparr>))\<lparr>w_kdf := w_kdf w + 1\<rparr>"
  have "h \<noteq> []" using body(2) by (auto simp: decode_auth_hash_def split: option.splits if_splits)
  have 1: "calm w1" "w_db w1 = w_db w" "w_events w1 = w_events w" "w_resp w1 = w_resp w"
    using w(1) by (simp_all add: w1_def)
  define w2 where "w2 = (passed w1)\<lparr>w_db := (w_db w)\<lparr>users := users (w_db w) @ [?u]\<rparr>,
      w_resp := rs_write_header 201 (w_resp w)\<rparr>"
  let ?m = "JObj [(''outcome'', JStr ''created'')]"
  have "calm w2" using 1(1) by (simp add: w2_def)
  from run_recordEvent_success [OF this, of l r None EventRegister None ?m]
  obtain w' where w': "run_state (recordEvent l r None EventRegister None ?m) w2 = ((), w')"
    "w_resp w' = w_resp w2" "sessions (w_db w') = sessions (w_db w2)" "users (w_db w') = users (w_db w2)" by blast
  have create: "createUser ?e (gen_KDFParams_json (rr_kdf body)) (u_auth_hash ?u) (u_auth_salt ?u) (rr_psk body)
      (ev_now (w_events w1 0)) (ev_uuid (w_events w1 0)) (w_db w1) =
      (Inr ?u, (w_db w)\<lparr>users := users (w_db w) @ [?u]\<rparr>)"
    using new 1 by (auto simp: createUser_def list_ex_iff registered_row_def Let_def)
  have "run_state (Manager_CheckRegisterLimit (clientIP r)) w =
      (True, (tick w)\<lparr>w_auth := (w_auth w)\<lparr>m_registerIP := m\<rparr>\<rparr>)"
    using m by (simp add: Manager_CheckRegisterLimit_def allow_with_def run_simps)
  then have "run_state (PostRegister l r) w =
      run_state (register_rest l r ?e (gen_KDFParams_json (rr_kdf body)) (u_auth_hash ?u) (u_auth_salt ?u)
        (rr_psk body)) w1"
    using w(2) \<open>h \<noteq> []\<close>
    by (simp add: PostRegister_def body Let_def run_NewServerSalt run_server_hash register_rest_def
        registered_row_def w1_def tick_def)
  also have "\<dots> = ((), w')"
    using w'(1) 1 create by (simp add: register_rest_def run_Create run_prims WriteHeader_def w2_def)
  finally show ?thesis
    using w' w(3) by (simp add: w2_def rs_write_header_fresh)
qed

lemma find_registered:
  assumes "\<forall>u \<in> set (users d). u_email u \<noteq> NormalizeEmail l (rr_email body)"
  shows "find (\<lambda>u. u_email u = NormalizeEmail l (rr_email body)) (users d @ [registered_row l w body h]) =
    Some (registered_row l w body h)"
  using assms by (subst find_snoc) (auto simp: registered_row_def Let_def)

lemma registered_password:
  assumes "h \<noteq> []"
  shows "password_ok l (registered_row l w body h) h' \<longleftrightarrow> h' \<noteq> [] \<and>
    argon2_IDKey l h' (u_auth_salt (registered_row l w body h)) 2 19456 1 32 =
    argon2_IDKey l h (u_auth_salt (registered_row l w body h)) 2 19456 1 32"
proof -
  have "map f [0..<16] \<noteq> []" for f :: "nat \<Rightarrow> byte" by simp
  then show ?thesis
    by (cases "h' = []") (auto simp: password_ok_def registered_row_def Let_def
        DeriveServerAuthHash_default, simp_all add: DeriveServerAuthHash_def)
qed

text \<open>
  An account works from its registration on.  After a registration that passes the
  checks, a login under any spelling of the same e-mail address and with the same auth hash
  is answered with the registered key-derivation parameters and protected key and the two
  cookies of a new session of that user; a login whose auth hash derives differently changes
  no session and sets no cookie.
\<close>

theorem register_then_login:
  assumes w: "calm w" "rand_ok w" "rs_sent (w_resp w) = None"
    and body: "decodeJSON l (RegisterRequest_fields l) zero_RegisterRequest r = Some body"
      "decode_auth_hash (rr_auth_hash body) = Some h" "validateCiphertext (rr_psk body) = None"
      "NormalizeEmail l (rr_email body) \<noteq> []" "gen_KDFParams_ok (rr_kdf body)"
    and gate: "fst (RateLimiter_Allow (w_clock w 0) (clientIP r) (m_registerIP (w_auth w)))"
    and new: "\<forall>u \<in> set (users (w_db w)). u_id u \<noteq> ev_uuid (w_events w 0) \<and>
        u_email u \<noteq> NormalizeEmail l (rr_email body)"
    and reg: "run_state (PostRegister l r) w = ((), w1)"
    and v: "calm v" "rand_ok v" "w_resp v = fresh_response" "users (w_db v) = users (w_db w1)"
    and login: "decodeJSON l (LoginRequest_fields l) zero_LoginRequest q = Some lb"
      "NormalizeEmail l (lr_email lb) = NormalizeEmail l (rr_email body)"
      "decode_auth_hash (lr_auth_hash lb) = Some h'" "session_fresh (passed v) l"
      "login_open v (clientIP q) (NormalizeEmail l (lr_email lb))"
    and run: "run_state (PostLogin l q) v = ((), v')"
  shows "rs_status (w_resp w1) = 201 \<and>
    (h' = h \<longrightarrow> rs_status (w_resp v') = 200 \<and>
       rs_body (w_resp v') = [BJson (LoginResponse (rr_kdf body) None None (rr_psk body) None)] \<and>
       map ck_value (sent_cookies (w_resp v')) = [token_at v 0, token_at v 32] \<and>
       (\<exists>s. sessions (w_db v') = sessions (w_db v) @ [s] \<and> s_user s = ev_uuid (w_events w 0) \<and>
          s_access s = hashToken l (token_at v 0))) \<and>
    (argon2_IDKey l h' (u_auth_salt (registered_row l w body h)) 2 19456 1 32 \<noteq>
        argon2_IDKey l h (u_auth_salt (registered_row l w body h)) 2 19456 1 32 \<longrightarrow>
       rs_cookies (w_resp v') = [] \<and> sessions (w_db v') = sessions (w_db v))"
proof -
  let ?u = "registered_row l w body h"
  have r: "rs_status (w_resp w1) = 201" "users (w_db w1) = users (w_db w) @ [?u]"
    using registration_succeeds [OF w body(1-4) gate new] reg by auto
  have h: "h \<noteq> []" using body(2) by (auto simp: decode_auth_hash_def split: option.splits if_splits)
  have others: "\<forall>u \<in> set (users (w_db w)). u_email u \<noteq> NormalizeEmail l (rr_email body)" using new by auto
  have find: "find (\<lambda>u. u_email u = NormalizeEmail l (lr_email lb)) (users (w_db v)) = Some ?u"
    unfolding v(4) r(2) login(2) by (rule find_registered [OF others])
  have u: "\<not> u_totp_enabled ?u" "u_id ?u = ev_uuid (w_events w 0)" "u_psk ?u = rr_psk body"
      "gen_KDFParams_Unmarshal l (u_kdf ?u) = Some (rr_kdf body)"
    using body(5) by (simp_all add: registered_row_def Let_def gen_KDFParams_roundtrip)
  have only: "x = ?u" if "x \<in> set (users (w_db v))" "u_email x = NormalizeEmail l (lr_email lb)" for x
    using that others by (auto simp: v(4) r(2) login(2))
  note decides = login_decides [OF v(1-3) login(1,3-5) find only u(1,4) run]
  show ?thesis using r(1) decides u(2,3) registered_password [OF h] h by auto
qed

subsection \<open>A concrete registration\<close>

definition sample_register :: request where
  "sample_register = sample_request ''POST'' ''/api/register''
     (JObj [(''auth_hash'', JStr ''QUJD''), (''email'', JStr '' ann@EXAMPLE.org''),
        (''kdf_params'', gen_KDFParams_json defaultGenKDFParams), (''protected_symmetric_key'', JStr ''QQ=='')])"

lemma RegisterRequest_find [simp]:
  "find_field l (RegisterRequest_fields l) ''auth_hash'' = Some (dec_string (\<lambda>s q. q\<lparr>rr_auth_hash := s\<rparr>))"
  "find_field l (RegisterRequest_fields l) ''email'' =
     Some (dec_custom (email_Unmarshal l) (\<lambda>s q. q\<lparr>rr_email := s\<rparr>))"
  "find_field l (RegisterRequest_fields l) ''kdf_params'' =
     Some (dec_nested l True gen_KDFParams_fields rr_kdf (\<lambda>k q. q\<lparr>rr_kdf := k\<rparr>))"
  "find_field l (RegisterRequest_fields l) ''protected_symmetric_key'' = Some (dec_string (\<lambda>s q. q\<lparr>rr_psk := s\<rparr>))"
  by (simp_all add: find_field_def fold_name_def RegisterRequest_fields_def ascii_upper_def ascii_def)

lemma default_kdf_ok: "gen_KDFParams_ok defaultGenKDFParams"
  by (simp add: gen_KDFParams_ok_def go_int_def defaultGenKDFParams_def DefaultKDFParams_def Argon2Version13_def)

lemma sample_email: "email_Unmarshal sample_lib (JStr s) = (if CHR ''@'' \<in> set s then Some s else None)"
  by (simp add: sample_lib_def)

lemma sample_register_body:
  "decodeJSON sample_lib (RegisterRequest_fields sample_lib) zero_RegisterRequest sample_register =
     Some \<lparr>rr_auth_hash = ''QUJD'', rr_email = '' ann@EXAMPLE.org'', rr_kdf = defaultGenKDFParams, rr_psk = ''QQ==''\<rparr>"
  by (simp add: decodeJSON_def sample_register_def sample_request_def
      decode_struct_def [of _ _ "RegisterRequest_fields _"] zero_RegisterRequest_def dec_string_def
      dec_custom_def dec_nested_def gen_KDFParams_decode default_kdf_ok sample_email)

lemma sample_register_email: "NormalizeEmail sample_lib '' ann@EXAMPLE.org'' = ''ann@example.org''"
  by (simp add: NormalizeEmail_def ToLower_def TrimSpace_def ascii_def ascii_trim_def ascii_lower_def
      ascii_space_def, code_simp)

lemma sample_hash: "decode_auth_hash ''QUJD'' = Some [65, 66, 67]"
  by (simp add: decode_auth_hash_def base64_decode_def not_newline_def b64_val_def b64_alphabet_def)

lemma sample_psk: "validateCiphertext ''QQ=='' = None"
  by (simp add: validateCiphertext_def base64_decode_def not_newline_def b64_val_def b64_alphabet_def)

lemma fresh_limiter: "0 < n \<Longrightarrow> fst (RateLimiter_Allow now key (newRateLimiter n win))"
  by (simp only: Allow_eq rl_recent_def rl_existing_def newRateLimiter_def recent_in_def rate_limiter.simps
      option.case if_split filter.simps list.size fst_conv) simp

lemma login_open_sample [simp]: "login_open (sample_world d) ip e"
  by (simp add: login_open_def LockoutTracker_IsLocked_def NewManager_def newLockoutTracker_def
      fresh_limiter loginIPLimit_def loginAccountLimit_def)

theorem register_then_login_witness:
  "\<exists>w1 v'. run_state (PostRegister sample_lib sample_register) (sample_world empty_db) = ((), w1) \<and>
     rs_status (w_resp w1) = 201 \<and>
     run_state (PostLogin sample_lib sample_login) (sample_world (empty_db\<lparr>users := users (w_db w1)\<rparr>)) = ((), v') \<and>
     rs_status (w_resp v') = 200 \<and> length (sessions (w_db v')) = 1"
proof -
  obtain w1 where reg: "run_state (PostRegister sample_lib sample_register) (sample_world empty_db) = ((), w1)"
    using run_unit by blast
  let ?v = "sample_world (empty_db\<lparr>users := users (w_db w1)\<rparr>)"
  obtain v' where run: "run_state (PostLogin sample_lib sample_login) ?v = ((), v')"
    using run_unit by blast
  have "session_fresh (passed ?v) sample_lib" by (simp add: session_fresh_def empty_db_def)
  then show ?thesis
    using register_then_login [OF _ _ _ sample_register_body _ _ _ _ _ _ reg _ _ _ _ sample_login_body _ _ _ _ run]
      reg run sample_hash sample_psk default_kdf_ok fresh_limiter [of 5]
    by (auto simp: sample_register_email sample_login_email NewManager_def manager_consts empty_db_def
        fresh_response_def)
qed

theorem session_needs_password_witness:
  "\<exists>u w'. run_state (PostLogin sample_lib sample_login) (sample_world (empty_db\<lparr>users := [u]\<rparr>)) = ((), w') \<and>
     length (sessions (w_db w')) = 1 \<and> DeriveServerAuthHash sample_lib [65, 66, 67] (u_auth_salt u)
       DefaultServerAuthParams = Inr (u_auth_hash u)"
proof -
  define u where "u = sample_user\<lparr>u_auth_salt := [7], u_auth_hash := argon2_IDKey sample_lib [65, 66, 67] [7] 2 19456 1 32,
      u_kdf := gen_KDFParams_json defaultGenKDFParams\<rparr>"
  let ?w = "sample_world (empty_db\<lparr>users := [u]\<rparr>)"
  obtain w' where run: "run_state (PostLogin sample_lib sample_login) ?w = ((), w')" using run_unit by blast
  have u: "password_ok sample_lib u [65, 66, 67]" "\<not> u_totp_enabled u" "u_email u = ''ann@example.org''"
      "gen_KDFParams_Unmarshal sample_lib (u_kdf u) = Some defaultGenKDFParams"
    by (simp_all add: u_def sample_user_def password_ok_def DeriveServerAuthHash_default gen_KDFParams_roundtrip default_kdf_ok)
  have "session_fresh (passed ?w) sample_lib" by (simp add: session_fresh_def empty_db_def)
  with login_succeeds [where w = ?w, OF _ _ _ _ _ sample_login_body _ _ u(1,2,4) login_open_sample] run u(3) sample_hash
  have s: "length (sessions (w_db w')) = 1"
    by (auto simp: sample_login_email fresh_response_def empty_db_def)
  then have "sessions (w_db w') \<noteq> sessions (w_db ?w)" by (auto simp: empty_db_def)
  with session_needs_password [OF _ run] sample_login_body sample_hash
  show ?thesis using run s by fastforce
qed

end
