(* ===== verification/SecondFactor.thy ===== *)
theory SecondFactor
  imports Accounts
begin

text \<open>
  The second factor: MFA challenges, what \<open>PostLoginMfa\<close> checks, recovery codes under
  concurrent requests, and their replacement in one transaction.
\<close>

subsection \<open>Challenges\<close>

definition live_challenge :: "lib \<Rightarrow> string \<Rightarrow> time \<Rightarrow> challenge_row \<Rightarrow> bool" where
  "live_challenge l token now c = (ch_token c = sha256 l (to_bytes token) \<and> now < ch_expires c)"

definition without_challenge :: "lib \<Rightarrow> string \<Rightarrow> world \<Rightarrow> world" where
  "without_challenge l token w = (passed w)\<lparr>w_db := (w_db w)\<lparr>challenges :=
     filter (\<lambda>c. \<not> live_challenge l token (ev_now (w_events w 0)) c) (challenges (w_db w))\<rparr>\<rparr>"

lemma run_validateMFAToken:
  assumes "calm w"
  shows "run_state (validateMFAToken l token) w =
    (case find (live_challenge l token (ev_now (w_events w 0))) (challenges (w_db w)) of
       None \<Rightarrow> Inl ErrNotFound | Some c \<Rightarrow> Inr (ch_user c), without_challenge l token w)"
  using assms
  by (auto simp: validateMFAToken_def MFARepo_ConsumeChallenge_def queries_defs run_simps sql_step_def
      consumeMFAChallenge_def one_row_def mapNotFound_def passed_def without_challenge_def
      live_challenge_def [abs_def] Let_def split: option.split)

lemma without_challenge_fields [simp]:
  "calm w \<Longrightarrow> calm (without_challenge l t w)" "rand_ok (without_challenge l t w) = rand_ok w"
  "w_resp (without_challenge l t w) = w_resp w" "w_auth (without_challenge l t w) = w_auth w"
  "w_clock (without_challenge l t w) = w_clock w" "users (w_db (without_challenge l t w)) = users (w_db w)"
  "sessions (w_db (without_challenge l t w)) = sessions (w_db w)" "token_at (without_challenge l t w) i = token_at w i"
  "w_events (without_challenge l t w) i = w_events w (Suc i)"
  "recovery (w_db (without_challenge l t w)) = recovery (w_db w)"
  by (simp_all add: without_challenge_def token_at_def passed_def rand_ok_def)

text \<open>How the password step of an account with a second factor issues one and answers.\<close>

definition challenge_fresh :: "world \<Rightarrow> lib \<Rightarrow> bool" where
  "challenge_fresh w l = (\<forall>c \<in> set (challenges (w_db w)). ch_token c \<noteq> sha256 l (to_bytes (token_at w 0)))"

definition challenge_row :: "world \<Rightarrow> lib \<Rightarrow> time \<Rightarrow> uuid \<Rightarrow> challenge_row" where
  "challenge_row w l now uid = \<lparr>ch_user = uid, ch_token = sha256 l (to_bytes (token_at w 0)), ch_expires = now + mfaChallengeTTL\<rparr>"

lemma recorded_challenges: "challenges (w_db (recorded l r u ty res m w)) = challenges (w_db w)"
  by (simp add: recorded_db audit_of_def appendAuditEvent_def Let_def)

lemma run_createMFAToken:
  assumes "calm w" and "rand_ok w" and "user_exists (w_db w) uid" and "challenge_fresh w l"
  shows "run_state (createMFAToken l uid) w = (Inr (token_at w 0), (passed (tick (drawn 32 w)))\<lparr>w_db :=
    (w_db w)\<lparr>challenges := challenges (w_db w) @ [challenge_row w l (w_clock w 0) uid]\<rparr>\<rparr>)"
  using assms
  by (auto simp: createMFAToken_def authGenerateToken_def mfa_repo_defs queries_defs run_simps sql_step_def
      createMFAChallenge_def list_ex_iff challenge_fresh_def challenge_row_def token_at_def passed_def Let_def)

lemma challenge_calm:
  assumes w: "calm w" "rand_ok w" "user_exists (w_db w) (u_id u)" "challenge_fresh w l" "w_resp w = fresh_response"
    and k: "gen_KDFParams_Unmarshal l (u_kdf u) = Some k"
  shows "\<exists>w'. run_state (challenge_login l r u) w = ((), w') \<and> rs_status (w_resp w') = 200 \<and> rs_cookies (w_resp w') = [] \<and>
    rs_body (w_resp w') = [BJson (LoginResponse k (Some True) (Some (token_at w 0)) (u_psk u) (Some (derefString (u_ptotp u))))] \<and>
    users (w_db w') = users (w_db w) \<and> sessions (w_db w') = sessions (w_db w) \<and>
    challenges (w_db w') = challenges (w_db w) @ [challenge_row w l (w_clock w 0) (u_id u)] \<and>
    (\<forall>i. token_at w' i = token_at w (i + 32))"
proof -
  have "EventMFARequired \<noteq> EventLoginFailure" "EventMFARequired \<noteq> EventLoginSuccess" by (simp_all add: event_defs)
  then show ?thesis
    using w k by (simp add: challenge_login_def run_createMFAToken run_recordEvent user_kdf_def writeJSON_def run_prims
        recorded_tables recorded_challenges response_defs fresh_response_def)
       (simp add: token_at_def drawn_def passed_def tick_def ac_simps)
qed

text \<open>The next request presents the token of the challenge.\<close>

lemma token_not_empty: "token_at w 0 \<noteq> []"
  by (auto simp: token_at_def hex_EncodeToString_def hex_byte_def intro: exI [of _ 0])

lemma find_challenge:
  assumes "challenge_fresh w l" and "now < t + mfaChallengeTTL"
  shows "find (live_challenge l (token_at w 0) now) (challenges (w_db w) @ [challenge_row w l t uid]) = Some (challenge_row w l t uid)"
  using assms by (subst find_snoc) (auto simp: challenge_fresh_def live_challenge_def challenge_row_def)

lemma issued_challenge:
  assumes "challenge_fresh w l"
    and "\<And>c. ch_token c = sha256 l (to_bytes (token_at w 0)) \<Longrightarrow>
      c \<in> set cs \<longleftrightarrow> c \<in> set (challenges (w_db w) @ [challenge_row w l t uid])"
  shows "find (live_challenge l (token_at w 0) now) cs =
    (if now < t + mfaChallengeTTL then Some (challenge_row w l t uid) else None)"
proof -
  let ?row = "challenge_row w l t uid" and ?live = "live_challenge l (token_at w 0) now"
  have one: "c = ?row \<and> now < t + mfaChallengeTTL" if "c \<in> set cs" "?live c" for c
    using assms that by (auto simp: live_challenge_def challenge_fresh_def challenge_row_def)
  have there: "?row \<in> set cs" using assms(2) [of ?row] by (simp add: challenge_row_def)
  show ?thesis
  proof (cases "find ?live cs")
    case None
    then have "\<not> ?live ?row" using there by (simp add: find_None_iff)
    then show ?thesis using None by (simp add: live_challenge_def challenge_row_def)
  next
    case (Some c)
    then have "c \<in> set cs \<and> ?live c" by (auto simp: find_Some_iff)
    then show ?thesis using one [of c] Some by simp
  qed
qed

subsection \<open>What the second factor is checked against\<close>

text \<open>A challenge met with a code that is valid for the secret sent along.\<close>

lemma mfa_accepts:
  assumes w: "calm w" "rand_ok w" "w_resp w = fresh_response"
    and body: "decodeJSON l LoginMfaRequest_fields zero_LoginMfaRequest r = Some body" "lm_token body \<noteq> []"
      "lm_recovery body = None" "lm_code body = Some code" "lm_secret body = Some secret"
    and chal: "find (live_challenge l (lm_token body) (ev_now (w_events w 0))) (challenges (w_db w)) = Some c"
    and totp: "totp_checkable l (TrimSpace l (ToUpper l secret)) (TrimSpace l code)"
      "totp_Validate l (w_clock w 0) (TrimSpace l code) (TrimSpace l (ToUpper l secret))"
    and u: "find (\<lambda>u. u_id u = ch_user c) (users (w_db w)) = Some u"
      "gen_KDFParams_Unmarshal l (u_kdf u) = Some k"
    and fresh: "session_fresh (passed (passed w)) l"
    and run: "run_state (PostLoginMfa l r) w = ((), w')"
  shows "rs_status (w_resp w') = 200 \<and> map ck_value (sent_cookies (w_resp w')) = [token_at w 0, token_at w 32] \<and>
    (\<exists>s. sessions (w_db w') = sessions (w_db w) @ [s] \<and> s_user s = ch_user c \<and>
       s_access s = hashToken l (token_at w 0))"
proof -
  let ?w1 = "without_challenge l (lm_token body) w"
  let ?w2 = "passed (tick ?w1)"
  have uid: "u_id u = ch_user c" using u(1) by (auto simp: find_Some_iff)
  have "session_fresh ?w2 l" using fresh by (simp add: session_fresh_def)
  moreover have "user_exists (w_db ?w2) (u_id u)"
    using u(1) by (auto simp: user_exists_def list_ex_iff find_Some_iff)
  ultimately obtain w3 where w3: "run_state (completeLogin l r u) ?w2 = ((), w3)" "calm w3"
      "rs_status (w_resp w3) = 200" "sent_cookies (w_resp w3) =
        [auth_cookie AccessCookieName (token_at w 0) ''/'' (max_age (m_accessTTL (w_auth w))),
         auth_cookie RefreshCookieName (token_at w 32) RefreshCookiePath (max_age (m_refreshTTL (w_auth w)))]"
      "sessions (w_db w3) = sessions (w_db w) @ [session_row ?w2 l (u_id u)]"
    using completeLogin_calm [of ?w2 u l k r] w u(2) by (auto simp: fresh_response_def)
  obtain w4 where w4: "run_state (recordEvent l r (Some (ch_user c)) EventMFASuccess None JNull) w3 = ((), w4)"
      "w_resp w4 = w_resp w3" "sessions (w_db w4) = sessions (w_db w3)"
    using run_recordEvent_success [OF w3(2)] by blast
  have "run_state (PostLoginMfa l r) w = ((), w4)"
    using w3(1) w4(1) w(1)
    by (simp add: PostLoginMfa_def body run_validateMFAToken chal check_second_factor_def ValidateTOTP_def
        totp Let_def run_time_Now run_GetByID u(1))
  then show ?thesis
    using run w3 w4 uid by (auto simp: auth_cookie_def session_row_def)
qed

text \<open>The body carries a code that is valid for the secret it carries.\<close>

definition right_totp :: "lib \<Rightarrow> time \<Rightarrow> LoginMfaRequest \<Rightarrow> bool" where
  "right_totp l t body = (lm_recovery body = None \<and> (\<exists>code secret. lm_code body = Some code \<and> lm_secret body = Some secret \<and>
     totp_checkable l (TrimSpace l (ToUpper l secret)) (TrimSpace l code) \<and>
     totp_Validate l t (TrimSpace l code) (TrimSpace l (ToUpper l secret))))"

subsection \<open>What a second step leaves\<close>

text \<open>Programs that issue no challenge and draw no randomness.\<close>

definition inert :: "world \<Rightarrow> world \<Rightarrow> bool" where
  "inert w w' = (calm w \<longrightarrow> calm w' \<and> w_rng w' = w_rng w \<and> set (challenges (w_db w')) \<subseteq> set (challenges (w_db w)))"

interpretation idle: world_frame inert
  by unfold_locales (auto simp: inert_def)

lemma inert_prims:
  "keeps inert time_Now" "keeps inert (lift_alerts k)" "keeps inert (log_it e)" "keeps inert (get_auth q)"
  "keeps inert (respond f)" "keeps inert (writeJSON n j)"
  by (simp_all add: keeps_def inert_def run_simps writeJSON_def Let_def)

lemma inert_exec:
  "(\<And>now fresh d. set (challenges (snd (s now fresh d))) \<subseteq> set (challenges d)) \<Longrightarrow> keeps inert (db_exec s)"
  by (auto simp: keeps_def inert_def run_exec sql_step_def Let_def split: prod.split) (metis snd_conv subsetD)

lemma inert_statements:
  "keeps inert (db_exec (getUserByID u))" "keeps inert (db_exec (createSessionPair u a b c d))"
  "keeps inert (db_exec (consumeMFAChallenge h))"
  "keeps inert (db_exec (listUnusedRecoveryCodes u))" "keeps inert (db_exec (markRecoveryCodeUsed u))"
  "keeps inert (db_exec (appendAuditEvent ou ty ip ua res m))" "keeps inert (db_exec (recordDeviceHash u h))"
  by (rule inert_exec, auto simp: getUserByID_def createSessionPair_def
      consumeMFAChallenge_def listUnusedRecoveryCodes_def markRecoveryCodeUsed_def appendAuditEvent_def
      recordDeviceHash_def Let_def split: option.split)+

lemmas inert_steps = idle.keeps_rules inert_prims inert_statements

lemma inert_helpers:
  "keeps inert (recordEvent l r ou ty res m)" "keeps inert (fail500 r op e msg)"
  "keeps inert (setAuthCookies a b ta tb)" "keeps inert (UsersRepo_GetByID u)" "keeps inert (validateMFAToken l tok)"
  unfolding recordEvent_def audit_repo_defs users_repo_defs queries_defs scan_defs try_prog_def fail500_def
    logInternalError_def setAuthCookies_def validateMFAToken_def MFARepo_ConsumeChallenge_def
  by (intro inert_steps)+

lemma inert_loop: "keeps inert (consume_loop m cs)"
  by (induction cs) (auto simp: try_prog_def queries_defs intro!: inert_steps)

lemma inert_second_factor: "check_second_factor l u body = Some p \<Longrightarrow> keeps inert p"
  by (auto simp: check_second_factor_def ValidateTOTP_def mfa_repo_defs queries_defs try_prog_def
      intro!: inert_steps inert_loop split: option.splits list.splits prod.splits)

text \<open>Programs that issue no challenge and draw at most \<open>N\<close> tokens.\<close>

definition settles :: "nat \<Rightarrow> 'a prog \<Rightarrow> bool" where
  "settles N p = (\<forall>w x w'. calm w \<and> rand_ok w \<and> run_state p w = (x, w') \<longrightarrow> calm w' \<and> rand_ok w' \<and>
     set (challenges (w_db w')) \<subseteq> set (challenges (w_db w)) \<and>
     (\<exists>n \<le> N. \<forall>i. rng_bytes (w_rng w') i = rng_bytes (w_rng w) (i + 32 * n)))"

lemma token_shift:
  "(\<And>i. rng_bytes (w_rng w') i = rng_bytes (w_rng w) (i + k)) \<Longrightarrow> token_at w' i = token_at w (i + k)"
  by (simp add: token_at_def ac_simps)

lemma settlesD:
  assumes "settles N p" and "calm w" and "rand_ok w" and "run_state p w = (x, w')"
  obtains n where "calm w'" "rand_ok w'" "set (challenges (w_db w')) \<subseteq> set (challenges (w_db w))"
    "n \<le> N" "\<And>i. rng_bytes (w_rng w') i = rng_bytes (w_rng w) (i + 32 * n)"
  using assms unfolding settles_def by blast

lemma inertD:
  assumes "keeps inert p" and "calm w" and "run_state p w = (x, w')"
  shows "calm w' \<and> w_rng w' = w_rng w \<and> rand_ok w' = rand_ok w \<and>
    set (challenges (w_db w')) \<subseteq> set (challenges (w_db w))"
  using keepsD [OF assms(1,3)] assms(2) by (simp add: inert_def rand_ok_def)

lemma settles_inert: "keeps inert p \<Longrightarrow> settles N p"
  unfolding settles_def using inertD by (metis add.right_neutral le0 mult_0_right)

lemma settles_then:
  assumes p: "keeps inert p" and f: "\<And>x. settles N (f x)"
  shows "settles N (State_Monad.bind p f)"
  unfolding settles_def
proof (intro allI impI, elim conjE)
  fix w y w' assume w: "calm w" "rand_ok w" and run: "run_state (State_Monad.bind p f) w = (y, w')"
  obtain x w1 where 1: "run_state p w = (x, w1)" by fastforce
  note p1 = inertD [OF p w(1) 1]
  have 2: "run_state (f x) w1 = (y, w')" using run 1 by simp
  have "calm w1" "rand_ok w1" using p1 w(2) by simp_all
  then show "calm w' \<and> rand_ok w' \<and> set (challenges (w_db w')) \<subseteq> set (challenges (w_db w)) \<and>
      (\<exists>n\<le>N. \<forall>i. rng_bytes (w_rng w') i = rng_bytes (w_rng w) (i + 32 * n))"
    using settlesD [OF f _ _ 2] p1 by (metis subset_trans)
qed

lemma settles_first:
  assumes p: "settles N p" and f: "\<And>x. keeps inert (f x)"
  shows "settles N (State_Monad.bind p f)"
  unfolding settles_def
proof (intro allI impI, elim conjE)
  fix w y w' assume w: "calm w" "rand_ok w" and run: "run_state (State_Monad.bind p f) w = (y, w')"
  obtain x w1 where 1: "run_state p w = (x, w1)" by fastforce
  obtain n where n: "calm w1" "rand_ok w1" "set (challenges (w_db w1)) \<subseteq> set (challenges (w_db w))"
    "n \<le> N" "\<And>i. rng_bytes (w_rng w1) i = rng_bytes (w_rng w) (i + 32 * n)"
    using settlesD [OF p w 1] by blast
  have 2: "run_state (f x) w1 = (y, w')" using run 1 by simp
  note inertD [OF f n(1) 2]
  then show "calm w' \<and> rand_ok w' \<and> set (challenges (w_db w')) \<subseteq> set (challenges (w_db w)) \<and>
      (\<exists>n\<le>N. \<forall>i. rng_bytes (w_rng w') i = rng_bytes (w_rng w) (i + 32 * n))"
    using n by auto
qed

lemma settles_if: "settles N p \<Longrightarrow> settles N q \<Longrightarrow> settles N (if b then p else q)"
  by simp

lemma settles_branches:
  "settles N p \<Longrightarrow> settles N q \<Longrightarrow> settles N (if b then p else q)"
  "settles N p \<Longrightarrow> (\<And>x. ov = Some x \<Longrightarrow> settles N (g x)) \<Longrightarrow> settles N (case ov of None \<Rightarrow> p | Some x \<Rightarrow> g x)"
  "(\<And>e. settles N (h e)) \<Longrightarrow> (\<And>x. settles N (k x)) \<Longrightarrow> settles N (case s of Inl e \<Rightarrow> h e | Inr x \<Rightarrow> k x)"
  by (auto split: option.split sum.split)

lemma drawn_bytes: "rng_bytes (w_rng (drawn n w)) i = rng_bytes (w_rng w) (i + n)"
  by (simp add: drawn_def)

lemma settles_persist: "keeps inert (try_prog (SessionsRepo_CreatePair u a b c d) f (\<lambda>_. ret x))"
  unfolding sessions_repo_defs queries_defs scan_defs try_prog_def by (intro inert_steps)

lemma settles_pair: "settles 2 (Manager_CreateSessionPair l u)"
  unfolding settles_def
proof (intro allI impI, elim conjE)
  fix w y w' assume w: "calm w" "rand_ok w" and run: "run_state (Manager_CreateSessionPair l u) w = (y, w')"
  let ?w2 = "tick (drawn 32 (drawn 32 w))"
  let ?p = "try_prog (SessionsRepo_CreatePair u (hashToken l (token_at w 0)) (w_clock w 0 + m_accessTTL (w_auth w))
      (hashToken l (token_at w 32)) (w_clock w 0 + m_refreshTTL (w_auth w)))
      (Wrap ''persist session'') (\<lambda>_. ret (Inr (token_at w 0, token_at w 32)))"
  have "run_state ?p ?w2 = (y, w')"
    using run w by (simp add: Manager_CreateSessionPair_def run_try run_simps)
  from inertD [OF settles_persist _ this] show "calm w' \<and> rand_ok w' \<and> set (challenges (w_db w')) \<subseteq> set (challenges (w_db w)) \<and>
      (\<exists>n\<le>2. \<forall>i. rng_bytes (w_rng w') i = rng_bytes (w_rng w) (i + 32 * n))"
    using w by (auto simp: tick_def drawn_bytes add.assoc intro!: exI [of _ 2])
qed

lemma settles_complete: "settles 2 (completeLogin l r u)"
  unfolding completeLogin_def by (rule settles_first [OF settles_pair]) (intro inert_steps inert_helpers)

lemma PostLoginMfa_steps:
  assumes "decodeJSON l LoginMfaRequest_fields zero_LoginMfaRequest r = Some body" and "lm_token body \<noteq> []"
  shows "\<exists>f. PostLoginMfa l r = State_Monad.bind (validateMFAToken l (lm_token body)) f \<and> (\<forall>who. settles 2 (f who))"
  unfolding PostLoginMfa_def assms(1) option.case if_not_P [OF assms(2)]
  by (rule exI, rule conjI [OF refl])
     (intro allI settles_branches settles_inert [OF inert_prims(6)] settles_then [OF inert_second_factor]
      settles_then [OF inert_helpers(4)] settles_inert [OF inert_helpers(2)] settles_first [OF settles_complete]
      inert_helpers settles_then [OF inert_helpers(1)]; assumption)

lemma PostLoginMfa_settles: "settles 2 (PostLoginMfa l r)"
proof (cases "decodeJSON l LoginMfaRequest_fields zero_LoginMfaRequest r")
  case None
  then show ?thesis by (simp add: PostLoginMfa_def settles_inert inert_prims)
next
  case (Some body)
  show ?thesis
  proof (cases "lm_token body = []")
    case True
    then show ?thesis by (simp add: PostLoginMfa_def Some settles_inert inert_prims)
  next
    case False
    then show ?thesis using PostLoginMfa_steps [OF Some] settles_then [OF inert_helpers(5)] by metis
  qed
qed

text \<open>Without a live challenge the answer is 401.\<close>

lemma dead_challenge_refused:
  assumes v: "calm v" "rs_sent (w_resp v) = None"
    and dead: "\<And>c. c \<in> set (challenges (w_db v)) \<Longrightarrow> \<not> live_challenge l (lm_token body) (ev_now (w_events v 0)) c"
    and body: "decodeJSON l LoginMfaRequest_fields zero_LoginMfaRequest r = Some body" "lm_token body \<noteq> []"
    and run: "run_state (PostLoginMfa l r) v = ((), v')"
  shows "rs_status (w_resp v') = 401 \<and> sent_cookies (w_resp v') = rs_cookies (w_resp v) \<and> w_db v' = w_db v"
proof -
  let ?live = "live_challenge l (lm_token body) (ev_now (w_events v 0))"
  have "find ?live (challenges (w_db v)) = None" using dead by (simp add: find_None_iff)
  moreover have "filter (\<lambda>c. \<not> ?live c) (challenges (w_db v)) = challenges (w_db v)"
    using dead by (simp add: filter_id_conv)
  ultimately show ?thesis
    using run v body
    by (auto simp: PostLoginMfa_def run_validateMFAToken writeJSON_def run_prims rs_json_fresh without_challenge_def)
qed

text \<open>
  A request with a token consumes its challenge first, right or wrong.
\<close>

lemma presented_challenge_gone:
  assumes "calm v" and "rand_ok v"
    and "decodeJSON l LoginMfaRequest_fields zero_LoginMfaRequest r = Some body" and "lm_token body \<noteq> []"
    and "run_state (PostLoginMfa l r) v = ((), v')" and "c \<in> set (challenges (w_db v'))"
  shows "\<not> live_challenge l (lm_token body) (ev_now (w_events v 0)) c"
proof -
  let ?v1 = "without_challenge l (lm_token body) v"
  obtain f where f: "PostLoginMfa l r = State_Monad.bind (validateMFAToken l (lm_token body)) f" "\<forall>who. settles 2 (f who)"
    using PostLoginMfa_steps [OF assms(3,4)] by blast
  obtain who where "run_state (validateMFAToken l (lm_token body)) v = (who, ?v1)"
    by (simp add: run_validateMFAToken [OF assms(1)])
  then have "run_state (f who) ?v1 = ((), v')" using assms(5) f(1) by simp
  moreover have "calm ?v1" "rand_ok ?v1" using assms(1,2) by simp_all
  ultimately have "set (challenges (w_db v')) \<subseteq> set (challenges (w_db ?v1))"
    using settlesD [of 2 "f who" ?v1] f(2) by metis
  then show ?thesis using assms(6) by (auto simp: without_challenge_def)
qed

text \<open>
  C19: an MFA challenge is good for one attempt within its five minutes.  Take a challenge that
  the password step has just issued for an account, and the first request that presents its
  token, whatever other challenges came and went.  Before five minutes have passed since it
  was issued the request is taken for that account, and a right code is answered 200; from then
  on it is answered 401 and changes nothing.  In either case, right code or wrong, every later
  request with the same token is answered 401, sets no cookie and changes nothing.
\<close>

theorem mfa_challenge_single_use:
  assumes issued: "calm w" "rand_ok w" "user_exists (w_db w) uid" "challenge_fresh w l"
      "run_state (createMFAToken l uid) w = (Inr tok, w1)"
    and v: "calm v" "rand_ok v" "w_resp v = fresh_response" "session_fresh (passed (passed v)) l"
      "find (\<lambda>u. u_id u = uid) (users (w_db v)) = Some u" "gen_KDFParams_Unmarshal l (u_kdf u) = Some k"
      "\<And>c. ch_token c = sha256 l (to_bytes tok) \<Longrightarrow> c \<in> set (challenges (w_db v)) \<longleftrightarrow> c \<in> set (challenges (w_db w1))"
    and first: "decodeJSON l LoginMfaRequest_fields zero_LoginMfaRequest r = Some body" "lm_token body = tok"
      "run_state (PostLoginMfa l r) v = ((), v')"
    and x: "calm x" "w_resp x = fresh_response" "ev_now (w_events v 0) \<le> ev_now (w_events x 0)"
      "\<And>c. ch_token c = sha256 l (to_bytes tok) \<Longrightarrow> c \<in> set (challenges (w_db x)) \<Longrightarrow> c \<in> set (challenges (w_db v'))"
    and again: "decodeJSON l LoginMfaRequest_fields zero_LoginMfaRequest r' = Some body'" "lm_token body' = tok"
      "run_state (PostLoginMfa l r') x = ((), x')"
  shows "(if ev_now (w_events v 0) < w_clock w 0 + 5 * Minute
      then fst (run_state (validateMFAToken l tok) v) = Inr uid \<and>
        (right_totp l (w_clock v 0) body \<longrightarrow> rs_status (w_resp v') = 200)
      else rs_status (w_resp v') = 401 \<and> sent_cookies (w_resp v') = [] \<and> w_db v' = w_db v) \<and>
    rs_status (w_resp x') = 401 \<and> sent_cookies (w_resp x') = [] \<and> w_db x' = w_db x"
proof -
  let ?now = "ev_now (w_events v 0)" and ?row = "challenge_row w l (w_clock w 0) uid"
  have tok: "tok = token_at w 0" and w1: "challenges (w_db w1) = challenges (w_db w) @ [?row]"
    using run_createMFAToken [OF issued(1-4)] issued(5) by simp_all
  then have nonempty: "lm_token body \<noteq> []" "lm_token body' \<noteq> []"
    using token_not_empty first(2) again(2) by metis+
  have found: "find (live_challenge l tok ?now) (challenges (w_db v)) =
      (if ?now < w_clock w 0 + mfaChallengeTTL then Some ?row else None)"
    unfolding tok by (rule issued_challenge [OF issued(4)]) (use v(7) tok w1 in simp)
  have row: "ch_user ?row = uid" by (simp add: challenge_row_def)
  have "\<not> live_challenge l (lm_token body') (ev_now (w_events x 0)) c" if c: "c \<in> set (challenges (w_db x))" for c
  proof
    assume live: "live_challenge l (lm_token body') (ev_now (w_events x 0)) c"
    then have "c \<in> set (challenges (w_db v'))" using x(4) c again(2) by (auto simp: live_challenge_def)
    from presented_challenge_gone [OF v(1,2) first(1) nonempty(1) first(3) this] live x(3) first(2) again(2)
    show False by (auto simp: live_challenge_def)
  qed
  from dead_challenge_refused [OF x(1) _ this again(1) nonempty(2) again(3)] x(2)
  have later: "rs_status (w_resp x') = 401 \<and> sent_cookies (w_resp x') = [] \<and> w_db x' = w_db x"
    by (simp add: fresh_response_def)
  show ?thesis
  proof (cases "?now < w_clock w 0 + 5 * Minute")
    case True
    with found have find: "find (live_challenge l (lm_token body) ?now) (challenges (w_db v)) = Some ?row"
      by (simp add: mfaChallengeTTL_def first(2))
    then have "fst (run_state (validateMFAToken l tok) v) = Inr uid"
      using row first(2) by (simp add: run_validateMFAToken [OF v(1)])
    moreover have "rs_status (w_resp v') = 200" if "right_totp l (w_clock v 0) body"
    proof -
      from that obtain code secret where t: "lm_recovery body = None" "lm_code body = Some code" "lm_secret body = Some secret"
        "totp_checkable l (TrimSpace l (ToUpper l secret)) (TrimSpace l code)"
        "totp_Validate l (w_clock v 0) (TrimSpace l code) (TrimSpace l (ToUpper l secret))"
        by (auto simp: right_totp_def)
      have "find (\<lambda>u. u_id u = ch_user ?row) (users (w_db v)) = Some u" using v(5) row by simp
      from mfa_accepts [OF v(1-3) first(1) nonempty(1) t(1-3) find t(4,5) this v(6,4) first(3)] show ?thesis by simp
    qed
    ultimately show ?thesis using later True by simp
  next
    case False
    with found have "find (live_challenge l (lm_token body) ?now) (challenges (w_db v)) = None"
      by (simp add: mfaChallengeTTL_def first(2))
    then have "\<not> live_challenge l (lm_token body) ?now c" if "c \<in> set (challenges (w_db v))" for c
      using that by (auto simp: find_None_iff)
    from dead_challenge_refused [OF v(1) _ this first(1) nonempty(1) first(3)] v(3)
    show ?thesis using later False by (simp add: fresh_response_def)
  qed
qed

text \<open>
  C24: the TOTP factor does not bind to the enrolled secret.  Whoever holds a live challenge
  (that is, knows the password) and sends any secret of their own with a code valid for that
  secret is logged in, whatever secret the account has enrolled.
\<close>

theorem totp_secret_is_client_chosen:
  assumes w: "calm w" "rand_ok w" "w_resp w = fresh_response"
    and body: "decodeJSON l LoginMfaRequest_fields zero_LoginMfaRequest r = Some body" "lm_token body \<noteq> []"
      "lm_recovery body = None" "lm_code body = Some code" "lm_secret body = Some secret"
    and chal: "find (live_challenge l (lm_token body) (ev_now (w_events w 0))) (challenges (w_db w)) = Some c"
    and totp: "totp_checkable l (TrimSpace l (ToUpper l secret)) (TrimSpace l code)"
      "totp_Validate l (w_clock w 0) (TrimSpace l code) (TrimSpace l (ToUpper l secret))"
    and u: "find (\<lambda>u. u_id u = ch_user c) (users (w_db w)) = Some u"
      "gen_KDFParams_Unmarshal l (u_kdf u) = Some k"
    and fresh: "session_fresh (passed (passed w)) l"
    and run: "run_state (PostLoginMfa l r) w = ((), w')"
  shows "rs_status (w_resp w') = 200 \<and> map ck_value (sent_cookies (w_resp w')) = [token_at w 0, token_at w 32] \<and>
    (\<exists>s. sessions (w_db w') = sessions (w_db w) @ [s] \<and> s_user s = ch_user c \<and>
       s_access s = hashToken l (token_at w 0))"
  by (rule mfa_accepts [OF assms])

subsection \<open>Concrete requests\<close>

definition sample_mfa :: request where
  "sample_mfa = sample_request ''POST'' ''/api/login/mfa''
     (JObj [(''mfa_token'', JStr ''tok''), (''totp_code'', JStr ''123456''), (''totp_secret'', JStr ''ABCDEFGH'')])"

lemma sample_mfa_body:
  "decodeJSON l LoginMfaRequest_fields zero_LoginMfaRequest sample_mfa = Some
     \<lparr>lm_token = ''tok'', lm_recovery = None, lm_code = Some ''123456'', lm_secret = Some ''ABCDEFGH''\<rparr>"
  by (simp add: decodeJSON_def sample_mfa_def sample_request_def json_defs LoginMfaRequest_fields_def
      zero_LoginMfaRequest_def ascii_def ascii_upper_def)

definition mfa_db :: db where
  "mfa_db = empty_db\<lparr>users := [sample_account\<lparr>u_totp_enabled := True, u_ptotp := Some ''QUJD'',
       u_kdf := gen_KDFParams_json defaultGenKDFParams\<rparr>],
     challenges := [\<lparr>ch_user = UUID 1, ch_token = sha256 sample_lib (to_bytes ''tok''), ch_expires = 2000\<rparr>]\<rparr>"

lemma sample_totp:
  "totp_checkable sample_lib (TrimSpace sample_lib (ToUpper sample_lib ''ABCDEFGH'')) (TrimSpace sample_lib ''123456'')"
  "totp_Validate sample_lib t (TrimSpace sample_lib ''123456'') secret"
  by code_simp (simp add: sample_lib_def TrimSpace_def ascii_def ascii_trim_def ascii_space_def)

definition mfa_with :: "string \<Rightarrow> request" where
  "mfa_with tok = sample_request ''POST'' ''/api/login/mfa''
     (JObj [(''mfa_token'', JStr tok), (''totp_code'', JStr ''123456''), (''totp_secret'', JStr ''ABCDEFGH'')])"

lemma mfa_with_body:
  "decodeJSON l LoginMfaRequest_fields zero_LoginMfaRequest (mfa_with tok) = Some
     \<lparr>lm_token = tok, lm_recovery = None, lm_code = Some ''123456'', lm_secret = Some ''ABCDEFGH''\<rparr>"
  by (simp add: decodeJSON_def mfa_with_def sample_request_def json_defs LoginMfaRequest_fields_def
      zero_LoginMfaRequest_def ascii_def ascii_upper_def)

theorem mfa_challenge_single_use_witness:
  "\<exists>tok w1 v' x'. run_state (createMFAToken sample_lib (UUID 1)) (sample_world (mfa_db\<lparr>challenges := []\<rparr>)) = (Inr tok, w1) \<and>
     run_state (PostLoginMfa sample_lib (mfa_with tok)) (sample_world (w_db w1)) = ((), v') \<and> rs_status (w_resp v') = 200 \<and>
     run_state (PostLoginMfa sample_lib (mfa_with tok)) (sample_world (w_db v')) = ((), x') \<and> rs_status (w_resp x') = 401"
proof -
  let ?d = "mfa_db\<lparr>challenges := []\<rparr>" and ?u = "hd (users mfa_db)"
  let ?w = "sample_world ?d"
  let ?tok = "token_at ?w 0"
  have w: "user_exists (w_db ?w) (UUID 1)" "challenge_fresh ?w sample_lib"
    by (simp_all add: user_exists_def mfa_db_def sample_account_def sample_user_def challenge_fresh_def)
  note issue = run_createMFAToken [OF calm_sample rand_ok_sample w]
  obtain w1 where issued: "run_state (createMFAToken sample_lib (UUID 1)) ?w = (Inr ?tok, w1)"
    and db: "users (w_db w1) = users mfa_db" "sessions (w_db w1) = []"
    by (rule that [OF issue]) (simp_all add: mfa_db_def empty_db_def)
  let ?v = "sample_world (w_db w1)"
  obtain v' where first: "run_state (PostLoginMfa sample_lib (mfa_with ?tok)) ?v = ((), v')" using run_unit by blast
  let ?x = "sample_world (w_db v')"
  obtain x' where again: "run_state (PostLoginMfa sample_lib (mfa_with ?tok)) ?x = ((), x')" using run_unit by blast
  have u: "find (\<lambda>u. u_id u = UUID 1) (users (w_db ?v)) = Some ?u"
    by (simp add: db mfa_db_def sample_account_def sample_user_def)
  have k: "gen_KDFParams_Unmarshal sample_lib (u_kdf ?u) = Some defaultGenKDFParams"
    by (simp add: mfa_db_def gen_KDFParams_roundtrip default_kdf_ok)
  have fresh: "session_fresh (passed (passed ?v)) sample_lib" by (simp add: session_fresh_def db)
  have "right_totp sample_lib t \<lparr>lm_token = ?tok, lm_recovery = None, lm_code = Some ''123456'', lm_secret = Some ''ABCDEFGH''\<rparr>" for t
    using sample_totp by (simp add: right_totp_def)
  with mfa_challenge_single_use [OF calm_sample rand_ok_sample w issued calm_sample rand_ok_sample _ fresh u k _
      mfa_with_body _ first calm_sample _ _ _ mfa_with_body _ again]
  have "rs_status (w_resp v') = 200 \<and> rs_status (w_resp x') = 401" by simp
  with issued first again show ?thesis by blast
qed

theorem totp_secret_is_client_chosen_witness:
  "\<exists>w'. run_state (PostLoginMfa sample_lib sample_mfa) (sample_world mfa_db) = ((), w') \<and>
     rs_status (w_resp w') = 200 \<and> length (sessions (w_db w')) = 1"
proof -
  obtain w' where run: "run_state (PostLoginMfa sample_lib sample_mfa) (sample_world mfa_db) = ((), w')"
    using run_unit by blast
  let ?u = "hd (users mfa_db)" and ?c = "hd (challenges mfa_db)"
  have fresh: "session_fresh (passed (passed (sample_world mfa_db))) sample_lib"
    by (simp add: session_fresh_def mfa_db_def empty_db_def)
  have chal: "find (live_challenge sample_lib ''tok'' 1000) (challenges mfa_db) = Some ?c"
    by (simp add: mfa_db_def live_challenge_def)
  have u: "find (\<lambda>u. u_id u = ch_user ?c) (users mfa_db) = Some ?u"
    by (simp add: mfa_db_def sample_account_def sample_user_def)
  have k: "gen_KDFParams_Unmarshal sample_lib (u_kdf ?u) = Some defaultGenKDFParams"
    by (simp add: mfa_db_def gen_KDFParams_roundtrip default_kdf_ok)
  have "rs_status (w_resp w') = 200 \<and> map ck_value (sent_cookies (w_resp w')) =
      [token_at (sample_world mfa_db) 0, token_at (sample_world mfa_db) 32] \<and>
    (\<exists>s. sessions (w_db w') = sessions (w_db (sample_world mfa_db)) @ [s] \<and> s_user s = ch_user ?c \<and>
       s_access s = hashToken sample_lib (token_at (sample_world mfa_db) 0))"
    by (rule totp_secret_is_client_chosen [OF calm_sample rand_ok_sample _ sample_mfa_body _ _ _ _ _ sample_totp _ k fresh run])
       (use chal u in simp_all)
  moreover have "sessions (w_db (sample_world mfa_db)) = []" by (simp add: mfa_db_def empty_db_def)
  ultimately show ?thesis using run by auto
qed

end
