(* ===== verification/RecoveryRace.thy ===== *)
theory RecoveryRace
  imports SecondFactor
begin

text \<open>
  Recovery codes under concurrency.  \<open>MFARepo.ConsumeRecoveryCode\<close> makes two round trips,
  one that lists the unused codes and one that marks the match, and any number of requests
  may be between the two.  The step relation below interleaves them statement by statement,
  with the SQL statements of the model, and lets the rest of the server change the database
  in between.  Request \<open>i\<close> tries codes of user \<open>fst (who i)\<close> with the test \<open>snd (who i)\<close>.
\<close>

datatype attempt = Idle | Listed "(uuid \<times> bytes) list" | Accepted uuid | Rejected

record race =
  ra_db :: db
  ra_ids :: "uuid set"           \<comment> \<open>every code id the table has held so far\<close>
  ra_pc :: "nat \<Rightarrow> attempt"

definition code_ids :: "db \<Rightarrow> uuid set" where
  "code_ids d = rc_id ` set (recovery d)"

text \<open>
  What the rest of the server does to the codes between two statements: codes may be marked,
  deleted and issued, but an id that was used before is not issued again (ids are random
  UUIDs) and no mark is removed.
\<close>

definition codes_kept :: "uuid set \<Rightarrow> db \<Rightarrow> db \<Rightarrow> bool" where
  "codes_kept ids d d' = (\<forall>r' \<in> set (recovery d'). rc_id r' \<in> ids \<longrightarrow>
     (\<exists>r \<in> set (recovery d). rc_id r = rc_id r' \<and> (rc_used r' = None \<longrightarrow> rc_used r = None)))"

definition matching_code :: "(bytes \<Rightarrow> bool) \<Rightarrow> (uuid \<times> bytes) list \<Rightarrow> uuid option" where
  "matching_code m cs = map_option fst (find (\<lambda>(cid, h). m h) cs)"

inductive race_step :: "(nat \<Rightarrow> uuid \<times> (bytes \<Rightarrow> bool)) \<Rightarrow> race \<Rightarrow> race \<Rightarrow> bool" for who where
  others: "codes_kept (ra_ids s) (ra_db s) d' \<Longrightarrow>
     race_step who s (s\<lparr>ra_db := d', ra_ids := ra_ids s \<union> code_ids d'\<rparr>)"
| list_codes: "ra_pc s i = Idle \<Longrightarrow>
     listUnusedRecoveryCodes (fst (who i)) now fresh (ra_db s) = (Inr cs, d') \<Longrightarrow>
     race_step who s (s\<lparr>ra_pc := (ra_pc s)(i := Listed cs)\<rparr>)"
| no_match: "ra_pc s i = Listed cs \<Longrightarrow> matching_code (snd (who i)) cs = None \<Longrightarrow>
     race_step who s (s\<lparr>ra_pc := (ra_pc s)(i := Rejected)\<rparr>)"
| mark: "ra_pc s i = Listed cs \<Longrightarrow> matching_code (snd (who i)) cs = Some cid \<Longrightarrow>
     markRecoveryCodeUsed cid now fresh (ra_db s) = (Inr n, d') \<Longrightarrow>
     race_step who s (s\<lparr>ra_db := d', ra_pc := (ra_pc s)(i := if 0 < n then Accepted cid else Rejected)\<rparr>)"

inductive reachable_race :: "(nat \<Rightarrow> uuid \<times> (bytes \<Rightarrow> bool)) \<Rightarrow> race \<Rightarrow> bool" for who where
  start: "reachable_race who \<lparr>ra_db = d, ra_ids = code_ids d, ra_pc = (\<lambda>_. Idle)\<rparr>"
| step: "reachable_race who s \<Longrightarrow> race_step who s s' \<Longrightarrow> reachable_race who s'"

inductive_cases race_stepE: "race_step who s s'"

text \<open>
  The invariant: an accepted code is spent (no unused row carries its id), its id is known,
  and no two requests were accepted on it.
\<close>

definition spent :: "race \<Rightarrow> uuid \<Rightarrow> bool" where
  "spent s c = (c \<in> ra_ids s \<and> (\<forall>r \<in> set (recovery (ra_db s)). rc_id r = c \<longrightarrow> rc_used r \<noteq> None))"

definition race_inv :: "race \<Rightarrow> bool" where
  "race_inv s = (code_ids (ra_db s) \<subseteq> ra_ids s \<and>
     (\<forall>i c. ra_pc s i = Accepted c \<longrightarrow> spent s c \<and> (\<forall>j. ra_pc s j = Accepted c \<longrightarrow> j = i)))"

lemma markRecoveryCodeUsed_run:
  "markRecoveryCodeUsed cid now fresh d = (Inr n, d') \<Longrightarrow>
     (0 < n \<longleftrightarrow> (\<exists>r \<in> set (recovery d). rc_id r = cid \<and> rc_used r = None)) \<and>
     recovery d' = map (\<lambda>r. if rc_id r = cid \<and> rc_used r = None then r\<lparr>rc_used := Some now\<rparr> else r) (recovery d)"
  by (simp add: markRecoveryCodeUsed_def Let_def) (elim conjE, hypsubst, auto simp: filter_empty_conv)

lemma spent_others: "codes_kept (ra_ids s) (ra_db s) d' \<Longrightarrow> spent s c \<Longrightarrow>
    spent (s\<lparr>ra_db := d', ra_ids := ra_ids s \<union> I\<rparr>) c"
  by (fastforce simp: spent_def codes_kept_def)

lemma spent_mark:
  assumes "markRecoveryCodeUsed cid now fresh (ra_db s) = (Inr n, d')"
  shows "spent s c \<Longrightarrow> spent (s\<lparr>ra_db := d', ra_pc := p\<rparr>) c"
    and "0 < n \<Longrightarrow> code_ids (ra_db s) \<subseteq> ra_ids s \<Longrightarrow> spent (s\<lparr>ra_db := d', ra_pc := p\<rparr>) cid"
    and "0 < n \<Longrightarrow> \<not> spent s cid" and "code_ids d' = code_ids (ra_db s)"
proof -
  note m = markRecoveryCodeUsed_run [OF assms]
  show "spent s c \<Longrightarrow> spent (s\<lparr>ra_db := d', ra_pc := p\<rparr>) c"
    using m by (auto simp: spent_def)
  show "0 < n \<Longrightarrow> code_ids (ra_db s) \<subseteq> ra_ids s \<Longrightarrow> spent (s\<lparr>ra_db := d', ra_pc := p\<rparr>) cid"
    using m by (auto simp: spent_def code_ids_def)
  show "0 < n \<Longrightarrow> \<not> spent s cid" using m by (auto simp: spent_def)
  have "map rc_id (recovery d') = map rc_id (recovery (ra_db s))" using m by simp
  then show "code_ids d' = code_ids (ra_db s)" unfolding code_ids_def set_map [symmetric] by simp
qed

lemma race_step_inv: "race_step who s s' \<Longrightarrow> race_inv s \<Longrightarrow> race_inv s'"
proof (induction rule: race_step.induct)
  case (others s d')
  then show ?case using spent_others [OF others(1)] by (auto simp: race_inv_def)
next
  case (list_codes s i now fresh cs d')
  then show ?case by (auto simp: race_inv_def spent_def split: if_splits)
next
  case (no_match s i cs)
  then show ?case by (auto simp: race_inv_def spent_def split: if_splits)
next
  case (mark s i cs cid now fresh n d')
  note sp = spent_mark [OF mark(3)]
  show ?case
    using mark.prems sp(1) sp(2,3) sp(4)
    by (auto simp: race_inv_def split: if_splits)
qed

lemma reachable_race_inv: "reachable_race who s \<Longrightarrow> race_inv s"
proof (induction rule: reachable_race.induct)
  case (start d)
  show ?case by (simp add: race_inv_def)
next
  case (step s s')
  then show ?case by (blast intro: race_step_inv)
qed

subsection \<open>The steps are the code's\<close>

text \<open>\<open>MFARepo.ConsumeRecoveryCode\<close>, statement by statement, when both round trips succeed.\<close>

lemma consume_loop_matching:
  "consume_loop m cs = (case matching_code m cs of
     None \<Rightarrow> State_Monad.return (Inr False)
   | Some cid \<Rightarrow> try_prog (Queries_MarkRecoveryCodeUsed cid) (\<lambda>e. e) (\<lambda>n. State_Monad.return (Inr (0 < n))))"
  by (induction cs) (auto simp: matching_code_def)

lemma run_ConsumeRecoveryCode:
  assumes "ev_trip (w_events w 0) = Served" and "ev_trip (w_events w 1) = Served"
    and "ev_others (w_events w 0) (w_db w) = d0"
    and "listUnusedRecoveryCodes uid (ev_now (w_events w 0)) (ev_uuid (w_events w 0)) d0 = (Inr cs, d0)"
  shows "run_state (MFARepo_ConsumeRecoveryCode uid m) w = (case matching_code m cs of
      None \<Rightarrow> (Inr False, w\<lparr>w_events := (\<lambda>i. w_events w (Suc i)), w_db := d0\<rparr>)
    | Some cid \<Rightarrow> (case markRecoveryCodeUsed cid (ev_now (w_events w 1)) (ev_uuid (w_events w 1))
          (ev_others (w_events w 1) d0) of
        (Inl e, d) \<Rightarrow> (Inl e, w\<lparr>w_events := (\<lambda>i. w_events w (Suc (Suc i))), w_db := d\<rparr>)
      | (Inr n, d) \<Rightarrow> (Inr (0 < n), w\<lparr>w_events := (\<lambda>i. w_events w (Suc (Suc i))), w_db := d\<rparr>)))"
  using assms
  by (auto simp: MFARepo_ConsumeRecoveryCode_def queries_defs run_try run_exec_served consume_loop_matching Let_def
      split: option.split sum.split prod.split)

definition race_steps :: "(nat \<Rightarrow> uuid \<times> (bytes \<Rightarrow> bool)) \<Rightarrow> race \<Rightarrow> race \<Rightarrow> bool" where
  "race_steps who = (race_step who)\<^sup>*\<^sup>*"

lemma race_steps_refl: "race_steps who s s"
  by (simp add: race_steps_def)

lemma race_steps_step: "race_step who s t \<Longrightarrow> race_steps who t u \<Longrightarrow> race_steps who s u"
  unfolding race_steps_def by (rule converse_rtranclp_into_rtranclp)

subsection \<open>Properties\<close>

text \<open>
  C21: a recovery code lets one request in, however many try it at once.  In every
  interleaving of the two statements of any number of concurrent requests, with the rest of
  the server marking, deleting and issuing codes in between, no two requests are accepted on
  the same code.
\<close>

theorem recovery_code_single_use:
  assumes "reachable_race who s" and "ra_pc s i = Accepted c" and "ra_pc s j = Accepted c"
  shows "i = j"
  using reachable_race_inv [OF assms(1)] assms(2,3) unfolding race_inv_def by blast

text \<open>
  C22: the step relation covers the code.  A run of \<open>ConsumeRecoveryCode\<close> whose round trips
  succeed, with whatever the rest of the server does to the codes before each of them, is a
  sequence of steps of request \<open>i\<close> and of the others, ends in the same database, and answers
  true exactly when request \<open>i\<close> is accepted on a code.
\<close>

theorem consume_refines_race:
  assumes w: "ev_trip (w_events w 0) = Served" "ev_trip (w_events w 1) = Served" "w_db w = ra_db s"
    and env: "codes_kept (ra_ids s) (ra_db s) d0" "ev_others (w_events w 0) (w_db w) = d0"
      "codes_kept (ra_ids s \<union> code_ids d0) d0 (ev_others (w_events w 1) d0)"
    and idle: "ra_pc s i = Idle"
    and run: "run_state (MFARepo_ConsumeRecoveryCode (fst (who i)) (snd (who i))) w = (res, w')"
  shows "\<exists>s' b. race_steps who s s' \<and> ra_db s' = w_db w' \<and> res = Inr b \<and>
    (b \<longleftrightarrow> (\<exists>c. ra_pc s' i = Accepted c)) \<and> (\<forall>j. j \<noteq> i \<longrightarrow> ra_pc s' j = ra_pc s j)"
proof -
  let ?I0 = "ra_ids s \<union> code_ids d0" and ?d1 = "ev_others (w_events w 1) d0"
  obtain cs where cs: "listUnusedRecoveryCodes (fst (who i)) (ev_now (w_events w 0)) (ev_uuid (w_events w 0)) d0 =
      (Inr cs, d0)"
    by (simp add: listUnusedRecoveryCodes_def)
  define s1 where "s1 = s\<lparr>ra_db := d0, ra_ids := ?I0\<rparr>"
  define s2 where "s2 = s1\<lparr>ra_pc := (ra_pc s1)(i := Listed cs)\<rparr>"
  have 1: "race_step who s s1" unfolding s1_def by (rule race_step.others [OF env(1)])
  have 2: "race_step who s1 s2"
    unfolding s2_def by (rule race_step.list_codes) (use idle cs in \<open>simp_all add: s1_def\<close>)
  note r = run [unfolded run_ConsumeRecoveryCode [OF w(1,2) env(2) cs]]
  show ?thesis
  proof (cases "matching_code (snd (who i)) cs")
    case None
    let ?s3 = "s2\<lparr>ra_pc := (ra_pc s2)(i := Rejected)\<rparr>"
    have 3: "race_step who s2 ?s3" by (rule race_step.no_match [where cs = cs]) (use None in \<open>simp_all add: s2_def\<close>)
    have "race_steps who s ?s3"
      by (rule race_steps_step [OF 1 race_steps_step [OF 2 race_steps_step [OF 3 race_steps_refl]]])
    with None r show ?thesis by (intro exI [of _ ?s3] exI [of _ False]) (auto simp: s2_def s1_def)
  next
    case (Some cid)
    obtain n d' where m: "markRecoveryCodeUsed cid (ev_now (w_events w 1)) (ev_uuid (w_events w 1)) ?d1 = (Inr n, d')"
      by (simp add: markRecoveryCodeUsed_def Let_def)
    define s3 where "s3 = s2\<lparr>ra_db := ?d1, ra_ids := ra_ids s2 \<union> code_ids ?d1\<rparr>"
    let ?s4 = "s3\<lparr>ra_db := d', ra_pc := (ra_pc s3)(i := if 0 < n then Accepted cid else Rejected)\<rparr>"
    have 3: "race_step who s2 s3"
      unfolding s3_def by (rule race_step.others) (use env(3) in \<open>simp add: s2_def s1_def\<close>)
    have 4: "race_step who s3 ?s4"
      by (rule race_step.mark [where cs = cs and fresh = "ev_uuid (w_events w 1)" and now = "ev_now (w_events w 1)"])
        (use m Some in \<open>simp_all add: s3_def s2_def\<close>)
    have "race_steps who s ?s4"
      by (rule race_steps_step [OF 1 race_steps_step [OF 2 race_steps_step [OF 3
            race_steps_step [OF 4 race_steps_refl]]]])
    with Some m r show ?thesis
      by (intro exI [of _ ?s4] exI [of _ "0 < n"]) (auto simp: s3_def s2_def s1_def)
  qed
qed

subsection \<open>A concrete race\<close>

definition one_code :: db where
  "one_code = empty_db\<lparr>users := [sample_account],
     recovery := [\<lparr>rc_id = UUID 5, rc_user = UUID 1, rc_hash = [1], rc_used = None\<rparr>]\<rparr>"

definition ann_tries :: "nat \<Rightarrow> uuid \<times> (bytes \<Rightarrow> bool)" where
  "ann_tries i = (UUID 1, \<lambda>h. h = [1])"

definition race_start :: race where
  "race_start = \<lparr>ra_db = one_code, ra_ids = code_ids one_code, ra_pc = (\<lambda>_. Idle)\<rparr>"

lemma reachable_race_start: "reachable_race ann_tries race_start"
  unfolding race_start_def by (rule reachable_race.start)

lemma codes_kept_refl: "codes_kept I d d"
  by (auto simp: codes_kept_def)

theorem consume_refines_race_witness:
  "\<exists>w' s'. run_state (MFARepo_ConsumeRecoveryCode (UUID 1) (\<lambda>h. h = [1])) (sample_world one_code) = (Inr True, w') \<and>
     race_steps ann_tries race_start s' \<and> ra_db s' = w_db w' \<and> (\<exists>c. ra_pc s' 7 = Accepted c)"
proof -
  let ?w = "sample_world one_code"
  obtain res w' where run: "run_state (MFARepo_ConsumeRecoveryCode (fst (ann_tries 7)) (snd (ann_tries 7))) ?w = (res, w')"
    by fastforce
  have "listUnusedRecoveryCodes (UUID 1) t u one_code = (Inr [(UUID 5, [1])], one_code)" for t u
    by (simp add: listUnusedRecoveryCodes_def one_code_def)
  then have "res = Inr True"
    using run run_ConsumeRecoveryCode [of ?w one_code "UUID 1" "[(UUID 5, [1])]" "\<lambda>h. h = [1]"]
    by (auto simp: ann_tries_def matching_code_def markRecoveryCodeUsed_def one_code_def Let_def)
  then show ?thesis
    using consume_refines_race [of ?w race_start one_code 7 ann_tries res w'] run
    by (auto simp: race_start_def codes_kept_refl ann_tries_def)
qed

theorem recovery_code_single_use_witness:
  "\<exists>s c. reachable_race ann_tries s \<and> ra_pc s 7 = Accepted c \<and> (\<forall>j. ra_pc s j = Accepted c \<longrightarrow> 7 = j)"
proof -
  have list: "listUnusedRecoveryCodes (fst (ann_tries 7)) 0 (UUID 0) (ra_db race_start) =
      (Inr [(UUID 5, [1])], ra_db race_start)"
    by (simp add: listUnusedRecoveryCodes_def one_code_def race_start_def ann_tries_def)
  let ?s1 = "race_start\<lparr>ra_pc := (ra_pc race_start)(7 := Listed [(UUID 5, [1])])\<rparr>"
  have 1: "race_step ann_tries race_start ?s1"
    by (rule race_step.list_codes [where i = 7]) (use list in \<open>simp_all add: race_start_def\<close>)
  obtain d' where m: "markRecoveryCodeUsed (UUID 5) 0 (UUID 0) (ra_db ?s1) = (Inr 1, d')"
    by (simp add: markRecoveryCodeUsed_def one_code_def race_start_def Let_def)
  let ?s2 = "?s1\<lparr>ra_db := d', ra_pc := (ra_pc ?s1)(7 := if 0 < (1 :: nat) then Accepted (UUID 5) else Rejected)\<rparr>"
  have "race_step ann_tries ?s1 ?s2"
    by (rule race_step.mark [where i = 7 and cs = "[(UUID 5, [1])]"])
      (use m in \<open>simp_all add: race_start_def matching_code_def ann_tries_def\<close>)
  with 1 reachable_race_start have "reachable_race ann_tries ?s2"
    by (blast intro: reachable_race.step)
  moreover have "ra_pc ?s2 7 = Accepted (UUID 5)" by simp
  ultimately show ?thesis using recovery_code_single_use by blast
qed

end
