(* ===== verification/Liveness.thy ===== *)
theory Liveness
  imports Accounts
begin

text \<open>
  The login gates of \<open>auth.Manager\<close> reopen.  \<open>used t m\<close> is the step relation of the manager's
  limits: the states it can reach by any interleaving of its operations, by anyone, for any
  key, at times up to \<open>t\<close>.
\<close>

inductive used :: "time \<Rightarrow> manager \<Rightarrow> bool" where
  used_start: "used t (NewManager a r)"
| used_check: "used t m \<Longrightarrow> s \<le> t \<Longrightarrow> used t (m\<lparr>m_lockout := snd (LockoutTracker_IsLocked s e (m_lockout m))\<rparr>)"
| used_fail: "used t m \<Longrightarrow> s \<le> t \<Longrightarrow> used t (m\<lparr>m_lockout := snd (LockoutTracker_RecordFailure s e (m_lockout m))\<rparr>)"
| used_ip: "used t m \<Longrightarrow> s \<le> t \<Longrightarrow> used t (m\<lparr>m_loginIP := snd (RateLimiter_Allow s ip (m_loginIP m))\<rparr>)"
| used_acct: "used t m \<Longrightarrow> s \<le> t \<Longrightarrow> used t (m\<lparr>m_loginAcct := snd (RateLimiter_Allow s e (m_loginAcct m))\<rparr>)"
| used_register: "used t m \<Longrightarrow> s \<le> t \<Longrightarrow> used t (m\<lparr>m_registerIP := snd (RateLimiter_Allow s ip (m_registerIP m))\<rparr>)"
| used_reset: "used t m \<Longrightarrow> used t (m\<lparr>m_loginIP := RateLimiter_Reset ip (m_loginIP m),
      m_loginAcct := RateLimiter_Reset e (m_loginAcct m), m_lockout := LockoutTracker_Reset e (m_lockout m)\<rparr>)"

text \<open>What holds of them: no recorded time is later than \<open>t\<close>, no lock reaches beyond fifteen
  minutes after \<open>t\<close>.\<close>

definition limiter_before :: "time \<Rightarrow> int \<Rightarrow> rate_limiter \<Rightarrow> bool" where
  "limiter_before t n r = (rl_limit r = n \<and> rl_window r \<le> 15 * Minute \<and> (\<forall>k. \<forall>x \<in> set (rl_existing r k). x \<le> t))"

definition lockout_before :: "time \<Rightarrow> lockout \<Rightarrow> bool" where
  "lockout_before t l = (\<forall>e rec. l e = Some rec \<longrightarrow> fr_lockedUntil rec \<le> max 0 (t + lockoutDuration))"

lemma limiter_before_Allow:
  assumes "limiter_before t n r" and "s \<le> t"
  shows "limiter_before t n (snd (RateLimiter_Allow s k r))"
proof -
  have e: "\<forall>x \<in> set (rl_existing (r\<lparr>rl_windows := (rl_windows r)(k \<mapsto> ts)\<rparr>) k'). x \<le> t"
    if "\<forall>x \<in> set ts. x \<le> t" for ts k'
    using that assms(1) by (simp add: rl_existing_upd limiter_before_def)
  have kept: "\<forall>x \<in> set (keep_after c (rl_existing r k)). x \<le> t" for c
    using assms(1) by (auto simp: keep_after_filter limiter_before_def)
  then have "\<forall>x \<in> set (keep_after c (rl_existing r k) @ [s]). x \<le> t" for c using assms(2) by auto
  from e [OF this] e [OF kept] show ?thesis
    using assms(1) by (simp add: RateLimiter_Allow_def Let_def limiter_before_def)
qed

lemma limiter_before_Reset: "limiter_before t n r \<Longrightarrow> limiter_before t n (RateLimiter_Reset k r)"
  by (auto simp: RateLimiter_Reset_def limiter_before_def rl_existing_upd split: if_splits)

lemma limiter_before_open:
  assumes "limiter_before t n r" and "0 < n" and "t + 15 * Minute < now"
  shows "fst (RateLimiter_Allow now k r)"
proof -
  have "\<not> now - rl_window r < x" if "x \<in> set (rl_existing r k)" for x
  proof -
    have "x \<le> t" "rl_window r \<le> 15 * Minute" using assms(1) that by (auto simp: limiter_before_def)
    with assms(3) show ?thesis by linarith
  qed
  then have "rl_recent now k r = []"
    by (simp add: rl_recent_def recent_in_def keep_after_filter filter_empty_conv)
  then show ?thesis using assms by (simp add: Allow_eq limiter_before_def)
qed

lemma lockout_before_steps:
  assumes "lockout_before t l"
  shows "lockout_before t (snd (LockoutTracker_IsLocked s e l))" "lockout_before t (LockoutTracker_Reset e l)"
    and "s \<le> t \<Longrightarrow> lockout_before t (snd (LockoutTracker_RecordFailure s e l))"
  using assms
  by (auto simp: lockout_before_def LockoutTracker_IsLocked_def LockoutTracker_Reset_def
      LockoutTracker_RecordFailure_def Let_def split: option.splits if_splits)

lemma lockout_before_open:
  assumes "lockout_before t l" and "0 \<le> t" and "t + 15 * Minute < now"
  shows "\<not> fst (LockoutTracker_IsLocked now e l)"
proof -
  have "\<not> now < fr_lockedUntil rec" if "l e = Some rec" for rec
  proof -
    have "fr_lockedUntil rec \<le> max 0 (t + lockoutDuration)" using assms(1) that by (simp add: lockout_before_def)
    with assms(2,3) show ?thesis by (simp add: lockoutDuration_def)
  qed
  then show ?thesis by (auto simp: LockoutTracker_IsLocked_def split: option.split)
qed

lemma used_inv:
  "used t m \<Longrightarrow> limiter_before t loginIPLimit (m_loginIP m) \<and> limiter_before t loginAccountLimit (m_loginAcct m) \<and>
     lockout_before t (m_lockout m)"
proof (induction rule: used.induct)
  case (used_start t a r)
  then show ?case
    by (simp add: NewManager_def limiter_before_def lockout_before_def newRateLimiter_def rl_existing_def
        newLockoutTracker_def manager_consts)
qed (auto intro: limiter_before_Allow limiter_before_Reset lockout_before_steps)

lemma used_open:
  assumes "used t (w_auth w)" and "0 \<le> t" and "\<And>i. t + 15 * Minute < w_clock w i"
  shows "login_open w ip e"
proof -
  note inv = used_inv [OF assms(1)]
  have "fst (RateLimiter_Allow (w_clock w i) ip (m_loginIP (w_auth w)))"
    "fst (RateLimiter_Allow (w_clock w i) e (m_loginAcct (w_auth w)))" for i
    using inv limiter_before_open [OF _ _ assms(3)] by (auto simp: loginIPLimit_def loginAccountLimit_def)
  then show ?thesis
    using inv lockout_before_open [OF _ assms(2,3)] by (simp add: login_open_def)
qed

text \<open>
  A lockout is temporary.  However many attempts anyone has made on the account, the
  address or anything else up to time \<open>t\<close>, a login with the right password later than fifteen
  minutes after \<open>t\<close> succeeds: 200, both cookies, a new session of that user.
\<close>

theorem lockout_is_temporary:
  assumes "used t (w_auth w)" and "0 \<le> t" and "\<And>i. t + 15 * Minute < w_clock w i"
    and w: "calm w" "rand_ok w" "w_resp w = fresh_response" "session_fresh (passed w) l"
    and body: "decodeJSON l (LoginRequest_fields l) zero_LoginRequest r = Some body"
      "decode_auth_hash (lr_auth_hash body) = Some h"
    and u: "find (\<lambda>u. u_email u = NormalizeEmail l (lr_email body)) (users (w_db w)) = Some u"
      "DeriveServerAuthHash l h (u_auth_salt u) DefaultServerAuthParams = Inr (u_auth_hash u)"
      "\<not> u_totp_enabled u" "gen_KDFParams_Unmarshal l (u_kdf u) = Some k"
    and run: "run_state (PostLogin l r) w = ((), w')"
  shows "rs_status (w_resp w') = 200 \<and> length (sent_cookies (w_resp w')) = 2 \<and>
    (\<exists>s. sessions (w_db w') = sessions (w_db w) @ [s] \<and> s_user s = u_id u)"
proof -
  have "password_ok l u h" using u(2) by (simp add: password_ok_def)
  from login_succeeds [OF w(1,2) _ _ _ body u(1) this u(3,4) used_open [OF assms(1-3)] w(4)] run w(3)
  show ?thesis by (auto simp: fresh_response_def)
qed

lemma used_failures: "used 1000 ((NewManager a r)\<lparr>m_lockout := snd (LockoutTracker_RecordFailure 1000 e newLockoutTracker)\<rparr>)"
  using used_fail [OF used_start [of 1000 a r], of 1000 e] by (simp add: NewManager_def)

theorem lockout_is_temporary_witness:
  "\<exists>u m w'. used 1000 m \<and> m_lockout m ''ann@example.org'' \<noteq> None \<and>
     run_state (PostLogin sample_lib sample_login) ((sample_world (empty_db\<lparr>users := [u]\<rparr>))
       \<lparr>w_auth := m, w_clock := (\<lambda>i. 2000 + 15 * Minute)\<rparr>) = ((), w') \<and> rs_status (w_resp w') = 200"
proof -
  define u where "u = sample_user\<lparr>u_auth_salt := [7], u_auth_hash := argon2_IDKey sample_lib [65, 66, 67] [7] 2 19456 1 32,
      u_kdf := gen_KDFParams_json defaultGenKDFParams\<rparr>"
  define m where "m = (NewManager 1 1)\<lparr>m_lockout := snd (LockoutTracker_RecordFailure 1000 ''ann@example.org'' newLockoutTracker)\<rparr>"
  let ?w = "(sample_world (empty_db\<lparr>users := [u]\<rparr>))\<lparr>w_auth := m, w_clock := (\<lambda>i. 2000 + 15 * Minute)\<rparr>"
  obtain w' where run: "run_state (PostLogin sample_lib sample_login) ?w = ((), w')" using run_unit by blast
  have m: "used 1000 (w_auth ?w)" using used_failures [where e = "''ann@example.org''"] by (simp add: m_def)
  have u: "u_email u = ''ann@example.org''" "\<not> u_totp_enabled u"
      "gen_KDFParams_Unmarshal sample_lib (u_kdf u) = Some defaultGenKDFParams"
      "DeriveServerAuthHash sample_lib [65, 66, 67] (u_auth_salt u) DefaultServerAuthParams = Inr (u_auth_hash u)"
    by (simp_all add: u_def sample_user_def DeriveServerAuthHash_default gen_KDFParams_roundtrip default_kdf_ok)
  have "session_fresh (passed ?w) sample_lib" by (simp add: session_fresh_def empty_db_def)
  from lockout_is_temporary [OF m _ _ _ _ _ this sample_login_body _ _ _ u(2,3) run, of "[65, 66, 67]"] u(1,4)
  have "rs_status (w_resp w') = 200"
    by (simp add: sample_login_email sample_hash empty_db_def)
  moreover have "m_lockout m ''ann@example.org'' \<noteq> None"
    by (simp add: m_def LockoutTracker_RecordFailure_def Let_def)
  ultimately show ?thesis using m run by auto
qed

end
