(* ===== verification/Config.thy ===== *)
theory Config
  imports GoError
begin

text \<open>
  \<open>internal/config\<close>: loading the server's settings from the environment, over the functions
  of \<open>strconv\<close> and \<open>time\<close> it calls.  Two things are arguments, in the record \<open>std\<close>: the
  floating-point product with which \<open>time.ParseDuration\<close> adds a decimal fraction, and the host
  name \<open>net/url\<close> finds in a URL.  Error texts end where the code quotes the offending value.
\<close>

subsection \<open>\<open>strconv.Atoi\<close>\<close>

definition digit :: "char \<Rightarrow> bool" where
  "digit c = (48 \<le> (of_char c :: nat) \<and> of_char c \<le> (57 :: nat))"

definition digit_val :: "char \<Rightarrow> int" where
  "digit_val c = of_char c - 48"

definition digits_val :: "string \<Rightarrow> int" where
  "digits_val s = foldl (\<lambda>n c. n * 10 + digit_val c) 0 s"

text \<open>An optional sign, then at least one digit, in the range of a 64-bit \<open>int\<close>.\<close>

definition Atoi :: "string \<Rightarrow> int option" where
  "Atoi s =
     (let neg = (take 1 s = ''-'');
          ds = (if neg \<or> take 1 s = ''+'' then drop 1 s else s);
          n = (if neg then - digits_val ds else digits_val ds)
      in if ds = [] \<or> \<not> list_all digit ds then None
         else if n < - (2 ^ 63) \<or> 2 ^ 63 - 1 < n then None else Some n)"

subsection \<open>\<open>time.ParseDuration\<close>\<close>

record std =
  std_frac :: "int \<Rightarrow> int \<Rightarrow> int \<Rightarrow> int"   \<comment> \<open>\<open>uint64(float64(f) * (float64(unit) / scale))\<close>\<close>
  std_hostname :: "string \<Rightarrow> err + string"   \<comment> \<open>\<open>url.Parse(s)\<close> and \<open>u.Hostname()\<close>\<close>

text \<open>\<open>leadingInt\<close>: the value and the rest, \<open>None\<close> on overflow.\<close>

fun leadingInt :: "int \<Rightarrow> string \<Rightarrow> (int \<times> string) option" where
  "leadingInt x [] = Some (x, [])"
| "leadingInt x (c # cs) =
     (if \<not> digit c then Some (x, c # cs)
      else if x > 2 ^ 63 div 10 then None
      else let x' = x * 10 + digit_val c in if x' > 2 ^ 63 then None else leadingInt x' cs)"

text \<open>\<open>leadingFraction\<close>: digits that no longer fit are skipped.\<close>

fun leadingFraction :: "bool \<Rightarrow> int \<Rightarrow> int \<Rightarrow> string \<Rightarrow> int \<times> int \<times> string" where
  "leadingFraction overflow x scale [] = (x, scale, [])"
| "leadingFraction overflow x scale (c # cs) =
     (if \<not> digit c then (x, scale, c # cs)
      else if overflow \<or> x > (2 ^ 63 - 1) div 10 then leadingFraction True x scale cs
      else let y = x * 10 + digit_val c
           in if y > 2 ^ 63 then leadingFraction True x scale cs
              else leadingFraction False y (scale * 10) cs)"

text \<open>\<open>if s != "" && s[0] == '.'\<close>: the optional fraction.\<close>

definition fraction :: "string \<Rightarrow> int \<times> int \<times> string" where
  "fraction s = (if take 1 s = ''.'' then leadingFraction False 0 1 (tl s) else (0, 1, s))"

definition unitMap :: "(string \<times> int) list" where
  "unitMap =
     [(''ns'', 1), (''us'', 1000), ([CHR 0xC2, CHR 0xB5, CHR ''s''], 1000),
      ([CHR 0xCE, CHR 0xBC, CHR ''s''], 1000), (''ms'', 1000000), (''s'', 1000000000),
      (''m'', 60000000000), (''h'', 3600000000000)]"

text \<open>One number with its unit: the nanoseconds and the rest of the text.\<close>

definition duration_term :: "std \<Rightarrow> string \<Rightarrow> (int \<times> string) option" where
  "duration_term sd s =
     (if \<not> (hd s = CHR ''.'' \<or> digit (hd s)) then None
      else case leadingInt 0 s of
        None \<Rightarrow> None
      | Some (v, s1) \<Rightarrow>
         (let pre = length s \<noteq> length s1;
              (f, scale, s2) = fraction s1;
              post = (take 1 s1 = ''.'' \<and> length (tl s1) \<noteq> length s2);
              u = takeWhile (\<lambda>c. c \<noteq> CHR ''.'' \<and> \<not> digit c) s2;
              s3 = dropWhile (\<lambda>c. c \<noteq> CHR ''.'' \<and> \<not> digit c) s2
          in if \<not> pre \<and> \<not> post then None
             else if u = [] then None
             else case map_of unitMap u of
               None \<Rightarrow> None
             | Some unt \<Rightarrow>
                 if v > 2 ^ 63 div unt then None
                 else let v' = (if f > 0 then v * unt + std_frac sd f unt scale else v * unt)
                      in if f > 0 \<and> v' > 2 ^ 63 then None else Some (v', s3)))"

lemma leadingInt_rest: "leadingInt x s = Some (y, r) \<Longrightarrow> length r \<le> length s"
  by (induction x s rule: leadingInt.induct) (auto simp: Let_def split: if_splits)

lemma leadingFraction_rest: "leadingFraction o1 x sc s = (y, sc', r) \<Longrightarrow> length r \<le> length s"
  by (induction o1 x sc s rule: leadingFraction.induct) (force simp: Let_def split: if_splits)+

lemma dropWhile_shorter: "takeWhile P s \<noteq> [] \<Longrightarrow> length (dropWhile P s) < length s"
  by (cases s) (auto simp: less_Suc_eq_le length_dropWhile_le split: if_splits)

lemma duration_term_shorter:
  assumes "duration_term sd s = Some (v, rest)"
  shows "length rest < length s"
proof -
  obtain x s1 where 1: "leadingInt 0 s = Some (x, s1)" 
    using assms by (auto simp: duration_term_def split: if_splits option.splits)
  obtain f sc s2 where 2: "fraction s1 = (f, sc, s2)" by (metis prod_cases3)
  have "takeWhile (\<lambda>c. c \<noteq> CHR ''.'' \<and> \<not> digit c) s2 \<noteq> []" "rest = dropWhile (\<lambda>c. c \<noteq> CHR ''.'' \<and> \<not> digit c) s2"
    using assms by (auto simp: duration_term_def 1 2 Let_def split: if_splits option.splits)
  then have "length rest < length s2" using dropWhile_shorter by metis
  moreover have "length s2 \<le> length s1"
    using 2 leadingFraction_rest [of False 0 1 "tl s1" f sc s2] by (auto simp: fraction_def split: if_splits)
  ultimately show ?thesis using leadingInt_rest [OF 1] by simp
qed

text \<open>\<open>for s != ""\<close>: the sum is a \<open>uint64\<close>.\<close>

function duration_terms :: "std \<Rightarrow> int \<Rightarrow> string \<Rightarrow> int option" where
  "duration_terms sd d s =
     (if s = [] then Some d
      else case duration_term sd s of
        None \<Rightarrow> None
      | Some (v, rest) \<Rightarrow>
          (let d' = (d + v) mod 2 ^ 64
           in if d' > 2 ^ 63 then None else duration_terms sd d' rest))"
  by pat_completeness auto

termination
  by (relation "measure (\<lambda>(sd, d, s). length s)") (auto dest: duration_term_shorter)

declare duration_terms.simps [simp del]

definition ParseDuration :: "std \<Rightarrow> string \<Rightarrow> duration option" where
  "ParseDuration sd s =
     (let neg = (take 1 s = ''-'');
          s' = (if neg \<or> take 1 s = ''+'' then drop 1 s else s)
      in if s' = ''0'' then Some 0
         else if s' = [] then None
         else case duration_terms sd 0 s' of
           None \<Rightarrow> None
         | Some d \<Rightarrow> if neg then Some (- d) else if d > 2 ^ 63 - 1 then None else Some d)"

subsection \<open>\<open>Load\<close>\<close>

type_synonym environment = "string \<rightharpoonup> string"

record Config =
  cfg_Addr :: string
  cfg_ReadHeaderTimeout :: duration
  cfg_ReadTimeout :: duration
  cfg_WriteTimeout :: duration
  cfg_IdleTimeout :: duration
  cfg_DatabaseDSN :: string
  cfg_AllowedOrigin :: string
  cfg_AccessTokenDuration :: duration
  cfg_RefreshTokenDuration :: duration

definition Getenv :: "environment \<Rightarrow> string \<Rightarrow> string" where
  "Getenv env key = (case env key of None \<Rightarrow> [] | Some v \<Rightarrow> v)"

definition getenv :: "environment \<Rightarrow> string \<Rightarrow> string \<Rightarrow> string" where
  "getenv env key fallback =
     (case env key of Some v \<Rightarrow> if v \<noteq> [] then v else fallback | None \<Rightarrow> fallback)"

text \<open>\<open>if raw := os.Getenv(key); raw != "" { d, err := time.ParseDuration(raw) ... }\<close>\<close>

definition duration_setting :: "std \<Rightarrow> environment \<Rightarrow> string \<Rightarrow> string \<Rightarrow> duration \<Rightarrow> err + duration" where
  "duration_setting sd env key msg dflt =
     (let raw = Getenv env key in
      if raw \<noteq> [] then (case ParseDuration sd raw of None \<Rightarrow> Inl (ErrText msg) | Some d \<Rightarrow> Inr d)
      else Inr dflt)"

definition local_host :: "string \<Rightarrow> bool" where
  "local_host host = (host = ''localhost'' \<or> host = ''127.0.0.1'' \<or> host = ''::1'' \<or> HasSuffix host ''.localhost'')"

definition check_origin :: "std \<Rightarrow> string \<Rightarrow> err option" where
  "check_origin sd origin =
     (if HasPrefix origin ''https://'' then None
      else case std_hostname sd origin of
        Inl e \<Rightarrow> Some (Wrap ''ALLOWED_ORIGIN is not a valid URL'' e)
      | Inr host \<Rightarrow> if \<not> local_host host then Some (ErrText ''ALLOWED_ORIGIN uses HTTP with a non-localhost host'')
          else None)"

definition Load :: "std \<Rightarrow> environment \<Rightarrow> err + Config" where
  "Load sd env =
     (let port = getenv env ''PORT'' ''8080'' in
      if Atoi port = None then Inl (ErrText ''PORT must be a number, got '')
      else let dsn = Getenv env ''DATABASE_URL'' in
      if dsn = [] then Inl (ErrText ''DATABASE_URL is required but not set'')
      else case duration_setting sd env ''ACCESS_TOKEN_DURATION''
          ''ACCESS_TOKEN_DURATION must be a valid duration (e.g. 15m), got '' (15 * Minute) of
        Inl e \<Rightarrow> Inl e
      | Inr accessDuration \<Rightarrow>
     (case duration_setting sd env ''REFRESH_TOKEN_DURATION''
          ''REFRESH_TOKEN_DURATION must be a valid duration (e.g. 168h), got '' (168 * Hour) of
        Inl e \<Rightarrow> Inl e
      | Inr refresh0 \<Rightarrow>
     (case duration_setting sd env ''SESSION_DURATION''
          ''SESSION_DURATION must be a valid duration (e.g. 24h), got '' refresh0 of
        Inl e \<Rightarrow> Inl e
      | Inr refreshDuration \<Rightarrow>
         (let allowedOrigin = getenv env ''ALLOWED_ORIGIN'' ''http://localhost:5173'' in
          case check_origin sd allowedOrigin of
            Some e \<Rightarrow> Inl e
          | None \<Rightarrow> Inr \<lparr>cfg_Addr = '':'' @ port, cfg_ReadHeaderTimeout = 5 * Second, cfg_ReadTimeout = 15 * Second,
              cfg_WriteTimeout = 15 * Second, cfg_IdleTimeout = 60 * Second, cfg_DatabaseDSN = dsn,
              cfg_AllowedOrigin = allowedOrigin, cfg_AccessTokenDuration = accessDuration,
              cfg_RefreshTokenDuration = refreshDuration\<rparr>))))"

subsection \<open>Properties\<close>

lemma duration_terms_bound: "0 \<le> d \<Longrightarrow> d \<le> 2 ^ 63 \<Longrightarrow> duration_terms sd d s = Some n \<Longrightarrow> 0 \<le> n \<and> n \<le> 2 ^ 63"
proof (induction sd d s rule: duration_terms.induct)
  case (1 sd d s)
  show ?case
  proof (cases "s = []")
    case True
    then show ?thesis using "1.prems" by (simp add: duration_terms.simps)
  next
    case False
    then obtain v rest where t: "duration_term sd s = Some (v, rest)"
      using "1.prems"(3) by (auto simp: duration_terms.simps [of sd d s] split: option.splits)
    have "\<not> (d + v) mod 2 ^ 64 > 2 ^ 63" "duration_terms sd ((d + v) mod 2 ^ 64) rest = Some n"
      using "1.prems"(3) False t by (auto simp: duration_terms.simps [of sd d s] Let_def split: if_splits)
    then show ?thesis using "1.IH" [OF False t refl refl] by simp
  qed
qed

text \<open>
  \<open>time.ParseDuration\<close> always returns, and what it accepts is a 64-bit duration; a minus
  sign negates the result, so that negative durations are accepted down to the least one.
\<close>

theorem parse_duration_in_range:
  "case ParseDuration sd s of
     None \<Rightarrow> True
   | Some d \<Rightarrow> - (2 ^ 63) \<le> d \<and> d \<le> 2 ^ 63 - 1 \<and> (take 1 s \<noteq> ''-'' \<longrightarrow> 0 \<le> d)"
proof -
  have b: "0 \<le> n \<and> n \<le> 2 ^ 63" if "duration_terms sd 0 s' = Some n" for n s'
    by (rule duration_terms_bound [OF _ _ that]) simp_all
  show ?thesis
    by (auto simp: ParseDuration_def Let_def split: option.split dest!: b)
qed

text \<open>
  The server never starts half-configured.  When \<open>Load\<close> succeeds, the port is a number, the
  database is named, and the one origin CORS allows is an \<open>https\<close> URL or points to the local
  host; each lifetime is the given duration or its default, \<open>SESSION_DURATION\<close> taking
  precedence over \<open>REFRESH_TOKEN_DURATION\<close>.
\<close>

theorem loaded_config_is_complete:
  assumes "Load sd env = Inr cfg"
  shows "(\<exists>port. cfg_Addr cfg = '':'' @ port \<and> Atoi port \<noteq> None) \<and>
    cfg_DatabaseDSN cfg = Getenv env ''DATABASE_URL'' \<and> cfg_DatabaseDSN cfg \<noteq> [] \<and>
    (HasPrefix (cfg_AllowedOrigin cfg) ''https://'' \<or>
       (\<exists>host. std_hostname sd (cfg_AllowedOrigin cfg) = Inr host \<and> local_host host)) \<and>
    (if Getenv env ''ACCESS_TOKEN_DURATION'' = [] then cfg_AccessTokenDuration cfg = 900 * Second
     else ParseDuration sd (Getenv env ''ACCESS_TOKEN_DURATION'') = Some (cfg_AccessTokenDuration cfg)) \<and>
    (let raw = (if Getenv env ''SESSION_DURATION'' \<noteq> [] then Getenv env ''SESSION_DURATION''
                else Getenv env ''REFRESH_TOKEN_DURATION'')
     in if raw = [] then cfg_RefreshTokenDuration cfg = 604800 * Second
        else ParseDuration sd raw = Some (cfg_RefreshTokenDuration cfg))"
proof -
  let ?A = "duration_setting sd env ''ACCESS_TOKEN_DURATION''
          ''ACCESS_TOKEN_DURATION must be a valid duration (e.g. 15m), got '' (15 * Minute)"
  let ?R = "duration_setting sd env ''REFRESH_TOKEN_DURATION''
          ''REFRESH_TOKEN_DURATION must be a valid duration (e.g. 168h), got '' (168 * Hour)"
  let ?S = "duration_setting sd env ''SESSION_DURATION''
          ''SESSION_DURATION must be a valid duration (e.g. 24h), got ''"
  obtain a r0 r where arr: "?A = Inr a" "?R = Inr r0" "?S r0 = Inr r"
    and origin: "check_origin sd (getenv env ''ALLOWED_ORIGIN'' ''http://localhost:5173'') = None"
    and dsn: "Getenv env ''DATABASE_URL'' \<noteq> []" "Atoi (getenv env ''PORT'' ''8080'') \<noteq> None"
    and cfg: "cfg_Addr cfg = '':'' @ getenv env ''PORT'' ''8080''" "cfg_DatabaseDSN cfg = Getenv env ''DATABASE_URL''"
      "cfg_AllowedOrigin cfg = getenv env ''ALLOWED_ORIGIN'' ''http://localhost:5173''"
      "cfg_AccessTokenDuration cfg = a" "cfg_RefreshTokenDuration cfg = r"
    using assms by (auto simp: Load_def Let_def split: if_splits sum.splits option.splits)
  have "HasPrefix (cfg_AllowedOrigin cfg) ''https://'' \<or>
       (\<exists>host. std_hostname sd (cfg_AllowedOrigin cfg) = Inr host \<and> local_host host)"
    using origin by (auto simp: cfg check_origin_def split: if_splits sum.splits)
  moreover have "if Getenv env ''ACCESS_TOKEN_DURATION'' = [] then a = 900 * Second
     else ParseDuration sd (Getenv env ''ACCESS_TOKEN_DURATION'') = Some a"
    using arr(1) by (auto simp: duration_setting_def Let_def split: option.splits if_splits)
  moreover have "let raw = (if Getenv env ''SESSION_DURATION'' \<noteq> [] then Getenv env ''SESSION_DURATION''
                else Getenv env ''REFRESH_TOKEN_DURATION'')
     in if raw = [] then r = 604800 * Second else ParseDuration sd raw = Some r"
    using arr(2,3) by (auto simp: duration_setting_def Let_def split: option.splits if_splits)
  ultimately show ?thesis using dsn cfg(1) unfolding cfg by blast
qed

definition sample_std :: std where
  "sample_std = \<lparr>std_frac = (\<lambda>f unt scale. f * unt div scale), std_hostname = (\<lambda>s. Inr ''localhost'')\<rparr>"

definition sample_env :: environment where
  "sample_env = [''DATABASE_URL'' \<mapsto> ''postgres://db'', ''ACCESS_TOKEN_DURATION'' \<mapsto> ''1h30m'']"

lemma sample_load:
  "Load sample_std sample_env = Inr \<lparr>cfg_Addr = '':8080'', cfg_ReadHeaderTimeout = 5 * Second,
     cfg_ReadTimeout = 15 * Second, cfg_WriteTimeout = 15 * Second, cfg_IdleTimeout = 60 * Second,
     cfg_DatabaseDSN = ''postgres://db'', cfg_AllowedOrigin = ''http://localhost:5173'',
     cfg_AccessTokenDuration = 90 * Minute, cfg_RefreshTokenDuration = 168 * Hour\<rparr>"
  by code_simp

theorem loaded_config_is_complete_witness:
  "\<exists>cfg. Load sample_std sample_env = Inr cfg \<and> cfg_DatabaseDSN cfg = ''postgres://db'' \<and>
     ParseDuration sample_std ''1h30m'' = Some (cfg_AccessTokenDuration cfg)"
  using loaded_config_is_complete [OF sample_load] sample_load
  by (simp add: Getenv_def sample_env_def)

end
