(* ===== verification/Startup.thy ===== *)
theory Startup
  imports SessionLife Config
begin

text \<open>
  The two command-line programs.  \<open>cmd/server\<close>: configuration, database, session manager and
  router are put together, requests are served until the listener fails or a signal arrives.
  What the operating system decides is the record \<open>host\<close>.  \<open>cmd/sri\<close> prints the integrity
  attribute of a file.
\<close>

subsection \<open>\<open>cmd/server\<close>\<close>

datatype stop =
    ListenFailed err     \<comment> \<open>\<open>ListenAndServe\<close> failed with another error than \<open>ErrServerClosed\<close>\<close>
  | Signalled            \<comment> \<open>an interrupt or \<open>SIGTERM\<close>\<close>

record host =
  ho_env :: environment
  ho_pool :: "err option"       \<comment> \<open>the error of \<open>pgxpool.New\<close>\<close>
  ho_ping :: "err option"       \<comment> \<open>the error of the first ping\<close>
  ho_stop :: stop
  ho_shutdown :: "err option"   \<comment> \<open>the error of \<open>srv.Shutdown\<close>\<close>

definition storage_New :: "host \<Rightarrow> err + unit" where
  "storage_New h =
     (case ho_pool h of
        Some e \<Rightarrow> Inl (Wrap ''open pgxpool'' e)
      | None \<Rightarrow> (case ho_ping h of Some e \<Rightarrow> Inl (Wrap ''ping database'' e) | None \<Rightarrow> Inr ()))"

text \<open>The state \<open>auth.NewManager\<close> and \<open>NewServer\<close> start with.\<close>

definition boot :: "Config \<Rightarrow> unit prog" where
  "boot cfg = State (\<lambda>w. ((), w\<lparr>
     w_auth := NewManager (cfg_AccessTokenDuration cfg) (cfg_RefreshTokenDuration cfg), w_alerts := NewTracker\<rparr>))"

fun serve_all :: "lib \<Rightarrow> json option option \<Rightarrow> string \<Rightarrow> string \<Rightarrow> request list \<Rightarrow> response list prog" where
  "serve_all l spec page origin [] = ret []"
| "serve_all l spec page origin (r # rs) = do {
     serve l spec page origin r;
     answer \<leftarrow> State (\<lambda>w. (w_resp w, w));
     answers \<leftarrow> serve_all l spec page origin rs;
     ret (answer # answers)
   }"

definition run :: "lib \<Rightarrow> std \<Rightarrow> json option option \<Rightarrow> string \<Rightarrow> host \<Rightarrow> request list \<Rightarrow>
    (err + response list) prog" where
  "run l sd spec page h rs =
     (case Load sd (ho_env h) of
        Inl e \<Rightarrow> ret (Inl (Wrap ''invalid configuration'' e))
      | Inr cfg \<Rightarrow>
         (case storage_New h of
            Inl e \<Rightarrow> ret (Inl (Wrap ''database'' e))
          | Inr _ \<Rightarrow> do {
              boot cfg;
              answers \<leftarrow> serve_all l spec page (cfg_AllowedOrigin cfg) rs;
              (case ho_stop h of
                 ListenFailed e \<Rightarrow> ret (Inl (Wrap ''server error'' e))
               | Signalled \<Rightarrow>
                   (case ho_shutdown h of
                      Some e \<Rightarrow> ret (Inl (Wrap ''graceful shutdown failed'' e))
                    | None \<Rightarrow> ret (Inr answers)))
            }))"

text \<open>The exit status.\<close>

definition main_exit :: "err + 'a \<Rightarrow> int" where
  "main_exit r = (case r of Inl _ \<Rightarrow> 1 | Inr _ \<Rightarrow> 0)"

subsection \<open>\<open>cmd/sri\<close>\<close>

text \<open>The file is its content or the error of opening or reading it; \<open>Inl\<close> is \<open>log.Fatalf\<close>.\<close>

definition sri_main :: "lib \<Rightarrow> string list \<Rightarrow> (string \<Rightarrow> err + bytes) \<Rightarrow> err + string" where
  "sri_main l args open_file =
     (case args of
        [prog, path] \<Rightarrow>
          (case open_file path of
             Inl e \<Rightarrow> Inl e
           | Inr content \<Rightarrow> Inr (''sha384-'' @ base64_encode (sha384 l content) @ [CHR 0x0A]))
      | _ \<Rightarrow> Inl (ErrText ''usage: sri <file>''))"

subsection \<open>Properties\<close>

context store_relation_all
begin

lemma serve_all_within: "within_ids F R (serve_all l spec page origin rs)"
proof (induction rs)
  case Nil
  then show ?case by (simp add: within_return)
next
  case (Cons r rs)
  have "within_ids F R (State (\<lambda>w. (w_resp w, w)))" by (rule within_pure) simp
  with Cons show ?case by (simp, intro within_bind within_return serve_within)
qed

end

lemma within_stop:
  "(\<And>e. within inv_step (f e)) \<Longrightarrow> within inv_step p \<Longrightarrow>
   within inv_step (case s of ListenFailed e \<Rightarrow> f e | Signalled \<Rightarrow> p)"
  by (cases s) simp_all

lemma serve_all_length: "run_state (serve_all l spec page origin rs) v = (as, v') \<Longrightarrow> length as = length rs"
proof (induction rs arbitrary: v as v')
  case Nil
  then show ?case by simp
next
  case (Cons r rs)
  obtain out v1 where 1: "run_state (serve l spec page origin r) v = (out, v1)" by fastforce
  obtain bs v2 where 2: "run_state (serve_all l spec page origin rs) v1 = (bs, v2)" by fastforce
  show ?case using Cons.prems Cons.IH [OF 2] by (auto simp: 1 2)
qed

lemma run_succeeds:
  assumes "run_state (run l sd spec page h rs) w = (Inr answers, w')"
  shows "\<exists>cfg as. Load sd (ho_env h) = Inr cfg \<and> ho_ping h = None \<and> Inr answers = (Inr as :: err + response list) \<and>
    length as = length rs"
proof (cases "Load sd (ho_env h)")
  case (Inl e)
  then show ?thesis using assms by (simp add: run_def)
next
  case (Inr cfg)
  obtain v where v: "run_state (boot cfg) w = ((), v)" by (simp add: boot_def)
  obtain bs v2 where 2: "run_state (serve_all l spec page (cfg_AllowedOrigin cfg) rs) v = (bs, v2)" by fastforce
  show ?thesis
    using assms serve_all_length [OF 2]
    by (cases "storage_New h"; cases "ho_stop h"; cases "ho_shutdown h")
       (auto simp: run_def Inr v 2 storage_New_def split: option.splits)
qed


definition sample_host :: host where
  "sample_host = \<lparr>ho_env = sample_env, ho_pool = None, ho_ping = None, ho_stop = Signalled, ho_shutdown = None\<rparr>"


text \<open>
  Lifetimes are not checked.  \<open>Load\<close> accepts a negative \<open>ACCESS_TOKEN_DURATION\<close>, and in a
  server booted with one, every session is refused from the moment it is created.
\<close>

theorem negative_lifetime_locks_out:
  assumes "Load sd env = Inr cfg" and "cfg_AccessTokenDuration cfg < 0"
    and w: "calm w" "rand_ok w" "user_exists (w_db w) uid" "session_fresh w l"
    and "w_auth w = NewManager (cfg_AccessTokenDuration cfg) (cfg_RefreshTokenDuration cfg)"
    and create: "run_state (Manager_CreateSessionPair l uid) w = (Inr (access, refresh), w')"
    and v: "calm v" "sessions (w_db v) = sessions (w_db w')" "w_clock w 0 \<le> w_clock v 0"
  shows "fst (run_state (Manager_ValidateAccess l access) v) = Inl ErrSessionInvalid"
proof -
  have run: "access = token_at w 0" "sessions (w_db v) = sessions (w_db w) @ [session_row w l uid]"
    using create v(2) by (auto simp: run_CreateSessionPair [OF w])
  have "find (\<lambda>s. s_access s = hashToken l access) (sessions (w_db v)) = Some (session_row w l uid)"
    unfolding run using w(4) by (subst find_snoc) (auto simp: session_fresh_def session_row_def)
  moreover have "m_accessTTL (w_auth w) < 0" using assms(2,7) by (simp add: NewManager_def)
  ultimately show ?thesis
    using v(1,3) by (simp add: run_ValidateAccess session_row_def)
qed

definition negative_env :: environment where
  "negative_env = [''DATABASE_URL'' \<mapsto> ''postgres://db'', ''ACCESS_TOKEN_DURATION'' \<mapsto> ''-1h'']"

lemma negative_load: "\<exists>cfg. Load sample_std negative_env = Inr cfg \<and> cfg_AccessTokenDuration cfg = - Hour"
proof -
  have "(case Load sample_std negative_env of Inl _ \<Rightarrow> None | Inr cfg \<Rightarrow> Some (cfg_AccessTokenDuration cfg)) = Some (- Hour)"
    by code_simp
  then show ?thesis by (auto split: sum.splits)
qed

theorem negative_lifetime_locks_out_witness:
  "\<exists>cfg access refresh w'. Load sample_std negative_env = Inr cfg \<and>
     run_state (Manager_CreateSessionPair sample_lib (UUID 1)) ((sample_world (sample_db\<lparr>sessions := []\<rparr>))
       \<lparr>w_auth := NewManager (cfg_AccessTokenDuration cfg) (cfg_RefreshTokenDuration cfg)\<rparr>) = (Inr (access, refresh), w') \<and>
     fst (run_state (Manager_ValidateAccess sample_lib access) w') = Inl ErrSessionInvalid"
proof -
  obtain cfg where cfg: "Load sample_std negative_env = Inr cfg" "cfg_AccessTokenDuration cfg = - Hour"
    using negative_load by blast
  let ?w = "(sample_world (sample_db\<lparr>sessions := []\<rparr>))
       \<lparr>w_auth := NewManager (cfg_AccessTokenDuration cfg) (cfg_RefreshTokenDuration cfg)\<rparr>"
  have w: "calm ?w" "rand_ok ?w" "user_exists (w_db ?w) (UUID 1)" "session_fresh ?w sample_lib"
    by (simp_all add: calm_def rand_ok_def sample_rng_def user_exists_def sample_db_def sample_user_def session_fresh_def)
  obtain w' where create: "run_state (Manager_CreateSessionPair sample_lib (UUID 1)) ?w =
      (Inr (token_at ?w 0, token_at ?w 32), w')" "calm w'" "w_clock ?w 0 \<le> w_clock w' 0"
    using run_CreateSessionPair [OF w] w(1) by (simp add: calm_def tick_def drawn_def)
  from negative_lifetime_locks_out [OF cfg(1) _ w _ create(1,2) refl create(3)] cfg
  have "fst (run_state (Manager_ValidateAccess sample_lib (token_at ?w 0)) w') = Inl ErrSessionInvalid" by simp
  with cfg(1) create(1) show ?thesis by blast
qed

end
