(* ===== verification/Limits.thy ===== *)
theory Limits
  imports Liveness Startup
begin

text \<open>
  The login limits of the running server.  Serving a request, whatever it is and whatever
  fails, moves the manager's limits only along the step relation \<open>used\<close>; so the gates of a
  server reopen after any history of requests.
\<close>

definition limits_step :: "world \<Rightarrow> world \<Rightarrow> bool" where
  "limits_step w w' = (\<forall>t. (\<forall>i. w_clock w i \<le> t) \<longrightarrow> used t (w_auth w) \<longrightarrow>
     (\<forall>i. w_clock w' i \<le> t) \<and> used t (w_auth w'))"

lemma limits_step_refl: "limits_step w w"
  by (simp add: limits_step_def)

lemma limits_step_trans: "limits_step w w1 \<Longrightarrow> limits_step w1 w2 \<Longrightarrow> limits_step w w2"
  by (simp add: limits_step_def)

text \<open>One reading of the clock and one operation of the manager.\<close>

lemma timed_step:
  assumes "\<And>t s m. used t m \<Longrightarrow> s \<le> t \<Longrightarrow> used t (snd (f s m))"
  shows "keeps limits_step (do { now \<leftarrow> time_Now; lift_auth (f now) })"
  using assms by (auto simp: keeps_def limits_step_def run_time_Now run_lift_auth)

lemma allow_ip: "keeps limits_step (allow_with m_loginIP m_loginIP_update ip)"
  unfolding allow_with_def
  by (rule timed_step) (simp add: case_prod_beta used_ip)

lemma allow_acct: "keeps limits_step (allow_with m_loginAcct m_loginAcct_update e)"
  unfolding allow_with_def
  by (rule timed_step) (simp add: case_prod_beta used_acct)

lemma allow_register: "keeps limits_step (allow_with m_registerIP m_registerIP_update ip)"
  unfolding allow_with_def
  by (rule timed_step) (simp add: case_prod_beta used_register)

lemma check_locked: "keeps limits_step (Manager_IsLoginLocked e)"
  unfolding Manager_IsLoginLocked_def
  by (rule timed_step) (simp add: case_prod_beta used_check)

lemma record_failure: "keeps limits_step (Manager_RecordLoginFailure e)"
  unfolding Manager_RecordLoginFailure_def
  by (rule timed_step) (simp add: case_prod_beta used_fail)

lemma reset_limits: "keeps limits_step (Manager_ResetLoginLimit ip e)"
  unfolding Manager_ResetLoginLimit_def
  by (auto simp: keeps_def limits_step_def run_lift_auth intro: used_reset)

interpretation pace: world_frame limits_step
  by unfold_locales (fact limits_step_refl, fact limits_step_trans)

interpretation limits: server_frame limits_step
proof unfold_locales
  show "keeps limits_step (Manager_CheckLoginLimit ip email)" for ip email
    unfolding Manager_CheckLoginLimit_def by (intro pace.keeps_rules allow_ip allow_acct)
  show "keeps limits_step (Manager_CheckRegisterLimit ip)" for ip
    unfolding Manager_CheckRegisterLimit_def by (rule allow_register)
qed (auto simp: check_locked record_failure reset_limits, auto simp: limits_step_def)

lemma serve_all_steps: "keeps limits_step (serve_all l spec page origin rs)"
proof (induction rs)
  case Nil
  then show ?case by (simp add: pace.keeps_return)
next
  case (Cons r rs)
  have "keeps limits_step (State (\<lambda>w. (w_resp w, w)))" by (simp add: keeps_def limits_step_refl)
  with Cons show ?case by (simp, intro pace.keeps_bind pace.keeps_return limits.serve_keeps)
qed

subsection \<open>Properties\<close>

text \<open>
  Serving requests refines the step relation of the limits.  Whatever requests the server
  answers, under any failure and interference, if the clock has not passed \<open>t\<close> then the
  limits end in a state that \<open>used t\<close> reaches: no request touches them in any other way.
\<close>

theorem requests_step_limits:
  assumes "used t (w_auth w)" and "\<And>i. w_clock w i \<le> t"
    and "run_state (serve_all l spec page origin rs) w = (answers, w')"
  shows "used t (w_auth w')"
proof -
  have "limits_step w w'" by (rule keepsD [OF serve_all_steps assms(3)])
  then show ?thesis using assms(1,2) by (simp add: limits_step_def)
qed

lemma limits_after_requests:
  assumes "w_auth w = NewManager a b" and "\<And>i. w_clock w i \<le> t"
    and "run_state (serve_all l spec page origin rs) w = (answers, w')"
  shows "used t (w_auth w')"
proof -
  have "limits_step w w'" by (rule keepsD [OF serve_all_steps assms(3)])
  then show ?thesis using assms(1,2) used_start by (simp add: limits_step_def)
qed

text \<open>
  C30: the login gates reopen.  A server is started and answers any requests, from anyone, up
  to time \<open>t\<close>.  A login with the right password more than fifteen minutes later succeeds,
  whatever those requests were: 200, both cookies, a new session of that user.
\<close>

theorem service_recovers:
  assumes boot: "w_auth w = NewManager a b" and past: "\<And>i. w_clock w i \<le> t" and "0 \<le> t"
    and history: "run_state (serve_all l spec page origin rs) w = (answers, w1)"
    and now: "w_auth v = w_auth w1" "\<And>i. t + 15 * Minute < w_clock v i"
    and v: "calm v" "rand_ok v" "w_resp v = fresh_response" "session_fresh (passed v) l"
    and body: "decodeJSON l (LoginRequest_fields l) zero_LoginRequest r = Some body"
      "decode_auth_hash (lr_auth_hash body) = Some h"
    and u: "find (\<lambda>u. u_email u = NormalizeEmail l (lr_email body)) (users (w_db v)) = Some u"
      "DeriveServerAuthHash l h (u_auth_salt u) DefaultServerAuthParams = Inr (u_auth_hash u)"
      "\<not> u_totp_enabled u" "gen_KDFParams_Unmarshal l (u_kdf u) = Some k"
    and run: "run_state (PostLogin l r) v = ((), v')"
  shows "rs_status (w_resp v') = 200 \<and> length (sent_cookies (w_resp v')) = 2 \<and>
    (\<exists>s. sessions (w_db v') = sessions (w_db v) @ [s] \<and> s_user s = u_id u)"
proof -
  have "used t (w_auth v)" unfolding now(1) by (rule limits_after_requests [OF boot past history])
  from lockout_is_temporary [OF this \<open>0 \<le> t\<close> now(2) v body u run] show ?thesis .
qed

lemma clock_bound: "\<And>i. w_clock (w\<lparr>w_clock := (\<lambda>_. c)\<rparr>) i \<le> (c :: time)"
  by simp

theorem requests_step_limits_witness:
  "\<exists>answers w'. run_state (serve_all sample_lib None [] [] [sample_login, sample_login])
      ((sample_world sample_db)\<lparr>w_clock := (\<lambda>_. 1000)\<rparr>) = (answers, w') \<and> used 1000 (w_auth w')"
proof -
  let ?w = "(sample_world sample_db)\<lparr>w_clock := (\<lambda>_. 1000)\<rparr>"
  obtain as w' where run: "run_state (serve_all sample_lib None [] [] [sample_login, sample_login]) ?w = (as, w')"
    by fastforce
  have "used 1000 (w_auth ?w)" by (simp add: used_start)
  from requests_step_limits [OF this clock_bound run] run show ?thesis by blast
qed

theorem service_recovers_witness:
  "\<exists>u as w1 v'. run_state (serve_all sample_lib None [] [] [sample_login, sample_login])
      ((sample_world sample_db)\<lparr>w_clock := (\<lambda>_. 1000)\<rparr>) = (as, w1) \<and>
    run_state (PostLogin sample_lib sample_login) ((sample_world (empty_db\<lparr>users := [u]\<rparr>))
       \<lparr>w_auth := w_auth w1, w_clock := (\<lambda>i. 2000 + 15 * Minute)\<rparr>) = ((), v') \<and> rs_status (w_resp v') = 200"
proof -
  define u where "u = sample_user\<lparr>u_auth_salt := [7], u_auth_hash := argon2_IDKey sample_lib [65, 66, 67] [7] 2 19456 1 32,
      u_kdf := gen_KDFParams_json defaultGenKDFParams\<rparr>"
  let ?w = "(sample_world sample_db)\<lparr>w_clock := (\<lambda>_. 1000)\<rparr>"
  obtain as w1 where past: "run_state (serve_all sample_lib None [] [] [sample_login, sample_login]) ?w = (as, w1)"
    by fastforce
  let ?v = "(sample_world (empty_db\<lparr>users := [u]\<rparr>))\<lparr>w_auth := w_auth w1, w_clock := (\<lambda>i. 2000 + 15 * Minute)\<rparr>"
  obtain v' where run: "run_state (PostLogin sample_lib sample_login) ?v = ((), v')" using run_unit by blast
  have u: "u_email u = ''ann@example.org''" "\<not> u_totp_enabled u"
      "gen_KDFParams_Unmarshal sample_lib (u_kdf u) = Some defaultGenKDFParams"
      "DeriveServerAuthHash sample_lib [65, 66, 67] (u_auth_salt u) DefaultServerAuthParams = Inr (u_auth_hash u)"
    by (simp_all add: u_def sample_user_def DeriveServerAuthHash_default gen_KDFParams_roundtrip default_kdf_ok)
  have boot: "w_auth ?w = NewManager (15 * Minute) (168 * Hour)" by simp
  have "session_fresh (passed ?v) sample_lib" by (simp add: session_fresh_def empty_db_def)
  from service_recovers [OF boot clock_bound _ past _ _ _ _ _ this sample_login_body _ _ _ u(2,3) run, of "[65, 66, 67]"] u(1,4)
  have "rs_status (w_resp v') = 200"
    by (simp add: sample_login_email sample_hash empty_db_def)
  with past run show ?thesis by blast
qed

end
