(* ===== verification/LoginRace.thy ===== *)
theory LoginRace
  imports Limits
begin

text \<open>
  The login limits under concurrency.  \<open>PostLogin\<close> consults the manager in several critical
  sections: \<open>IsLocked\<close>, \<open>Allow\<close> on the address, \<open>Allow\<close> on the account, then either
  \<open>RecordFailure\<close> or three \<open>Reset\<close>s.  Each takes one mutex and reads the clock under it, but
  nothing holds the sections together.  The step relation below interleaves the sections of
  any number of requests; request \<open>i\<close> comes from address \<open>fst (who i)\<close> and names the account
  \<open>snd (who i)\<close>.  A stage after the limits carries the time the account limit let it through.
\<close>

datatype stage = Arrived | NotLocked | AddressOK | Refused
  | Admitted time | Failed time | AddressReset time | AccountReset time | Succeeded time

record contest =
  ct_mgr :: manager
  ct_now :: time
  ct_stage :: "nat \<Rightarrow> stage"
  ct_since :: "string history"   \<comment> \<open>who was let through since the account's last reset\<close>

definition admitted_at :: "stage \<Rightarrow> time option" where
  "admitted_at st = (case st of Admitted t \<Rightarrow> Some t | Failed t \<Rightarrow> Some t | AddressReset t \<Rightarrow> Some t
     | AccountReset t \<Rightarrow> Some t | Succeeded t \<Rightarrow> Some t | _ \<Rightarrow> None)"

definition was_admitted :: "stage \<Rightarrow> bool" where
  "was_admitted st = (admitted_at st \<noteq> None)"

definition account_reset :: "stage \<Rightarrow> bool" where
  "account_reset st = (case st of AccountReset t \<Rightarrow> True | Succeeded t \<Rightarrow> True | _ \<Rightarrow> False)"

definition enter :: "nat \<Rightarrow> stage \<Rightarrow> manager \<Rightarrow> contest \<Rightarrow> contest" where
  "enter i st m s = s\<lparr>ct_mgr := m, ct_stage := (ct_stage s)(i := st)\<rparr>"

inductive login_step :: "(nat \<Rightarrow> string \<times> string) \<Rightarrow> contest \<Rightarrow> contest \<Rightarrow> bool" for who where
  time_passes: "ct_now s \<le> t \<Longrightarrow> login_step who s (s\<lparr>ct_now := t\<rparr>)"
| registration: "RateLimiter_Allow (ct_now s) ip (m_registerIP (ct_mgr s)) = (ok, rl) \<Longrightarrow>
     login_step who s (s\<lparr>ct_mgr := ct_mgr s\<lparr>m_registerIP := rl\<rparr>\<rparr>)"
| ask_lockout: "ct_stage s i = Arrived \<Longrightarrow>
     LockoutTracker_IsLocked (ct_now s) (snd (who i)) (m_lockout (ct_mgr s)) = (locked, k) \<Longrightarrow>
     login_step who s (enter i (if locked then Refused else NotLocked) (ct_mgr s\<lparr>m_lockout := k\<rparr>) s)"
| ask_address: "ct_stage s i = NotLocked \<Longrightarrow>
     RateLimiter_Allow (ct_now s) (fst (who i)) (m_loginIP (ct_mgr s)) = (ok, rl) \<Longrightarrow>
     login_step who s (enter i (if ok then AddressOK else Refused) (ct_mgr s\<lparr>m_loginIP := rl\<rparr>) s)"
| admit: "ct_stage s i = AddressOK \<Longrightarrow>
     RateLimiter_Allow (ct_now s) (snd (who i)) (m_loginAcct (ct_mgr s)) = (True, rl) \<Longrightarrow>
     login_step who s (enter i (Admitted (ct_now s)) (ct_mgr s\<lparr>m_loginAcct := rl\<rparr>) s
       \<lparr>ct_since := hist_hit (ct_now s) (snd (who i)) (ct_since s)\<rparr>)"
| refuse: "ct_stage s i = AddressOK \<Longrightarrow>
     RateLimiter_Allow (ct_now s) (snd (who i)) (m_loginAcct (ct_mgr s)) = (False, rl) \<Longrightarrow>
     login_step who s (enter i Refused (ct_mgr s\<lparr>m_loginAcct := rl\<rparr>) s)"
| fail_login: "ct_stage s i = Admitted t \<Longrightarrow>
     LockoutTracker_RecordFailure (ct_now s) (snd (who i)) (m_lockout (ct_mgr s)) = (d, k) \<Longrightarrow>
     login_step who s (enter i (Failed t) (ct_mgr s\<lparr>m_lockout := k\<rparr>) s)"
| reset_address: "ct_stage s i = Admitted t \<Longrightarrow>
     login_step who s (enter i (AddressReset t)
       (ct_mgr s\<lparr>m_loginIP := RateLimiter_Reset (fst (who i)) (m_loginIP (ct_mgr s))\<rparr>) s)"
| reset_account: "ct_stage s i = AddressReset t \<Longrightarrow>
     login_step who s (enter i (AccountReset t)
       (ct_mgr s\<lparr>m_loginAcct := RateLimiter_Reset (snd (who i)) (m_loginAcct (ct_mgr s))\<rparr>) s
       \<lparr>ct_since := hist_forget (snd (who i)) (ct_since s)\<rparr>)"
| reset_lockout: "ct_stage s i = AccountReset t \<Longrightarrow>
     login_step who s (enter i (Succeeded t)
       (ct_mgr s\<lparr>m_lockout := LockoutTracker_Reset (snd (who i)) (m_lockout (ct_mgr s))\<rparr>) s)"

inductive reachable_login :: "(nat \<Rightarrow> string \<times> string) \<Rightarrow> contest \<Rightarrow> bool" for who where
  open_doors: "reachable_login who
     \<lparr>ct_mgr = NewManager a r, ct_now = t, ct_stage = (\<lambda>_. Arrived), ct_since = (\<lambda>_. [])\<rparr>"
| next_section: "reachable_login who s \<Longrightarrow> login_step who s s' \<Longrightarrow> reachable_login who s'"

lemma enter_fields [simp]:
  "ct_mgr (enter i st m s) = m" "ct_now (enter i st m s) = ct_now s"
  "ct_stage (enter i st m s) = (ct_stage s)(i := st)" "ct_since (enter i st m s) = ct_since s"
  by (simp_all add: enter_def)

subsection \<open>The account limiter and the history of admissions\<close>

definition since_ok :: "time \<Rightarrow> rate_limiter \<Rightarrow> string history \<Rightarrow> bool" where
  "since_ok now r h = (rlw.agrees now r h \<and> rl_limit r = loginAccountLimit \<and> rl_window r = loginAccountWindow \<and>
     (\<forall>e. (\<forall>t \<in> set (h e). t \<le> now) \<and>
       (\<forall>T. length (filter (\<lambda>t. T - loginAccountWindow < t \<and> t \<le> T) (h e)) \<le> nat loginAccountLimit)))"

lemma since_ok_start: "since_ok now (newRateLimiter loginAccountLimit loginAccountWindow) (\<lambda>_. [])"
  by (simp add: since_ok_def newRateLimiter_agrees) (simp add: newRateLimiter_def)

lemma since_ok_later: "since_ok now r h \<Longrightarrow> now \<le> t \<Longrightarrow> since_ok t r h"
  by (fastforce simp: since_ok_def intro: rlw.agrees_later)

lemma since_ok_refused:
  "since_ok now r h \<Longrightarrow> RateLimiter_Allow now e r = (False, r') \<Longrightarrow> since_ok now r' h"
  by (auto simp: since_ok_def Allow_eq rlw.agrees_tidy split: if_splits)

lemma since_ok_admitted:
  assumes "since_ok now r h" and "RateLimiter_Allow now e r = (True, r')"
  shows "since_ok now r' (hist_hit now e h)"
proof -
  have r': "r' = rl_hit now e r" and few: "length (recent_in loginAccountWindow now (h e)) < nat loginAccountLimit"
    using assms rlw.agrees_count [of now r h e] by (auto simp: since_ok_def Allow_eq rl_recent_def split: if_splits)
  have "length (filter (\<lambda>t. T - loginAccountWindow < t \<and> t \<le> T) (h e @ [now])) \<le> nat loginAccountLimit" for T
    by (rule recent_bound_extend [OF _ few]) (use assms(1) in \<open>auto simp: since_ok_def\<close>)
  then show ?thesis
    using assms(1) rlw.agrees_hit [of now r h e] unfolding since_ok_def r' by (auto simp: hist_hit_def)
qed

lemma since_ok_reset: "since_ok now r h \<Longrightarrow> since_ok now (RateLimiter_Reset e r) (hist_forget e h)"
  using rlw.agrees_forget [of now r h e] by (simp add: since_ok_def) (simp add: hist_forget_def)

subsection \<open>The invariant\<close>

text \<open>
  Of the requests let through for an account in a window, those since its last reset are
  bounded by the limiter; every earlier stretch ends with the reset of some request.
\<close>

definition let_through :: "(nat \<Rightarrow> string \<times> string) \<Rightarrow> string \<Rightarrow> time \<Rightarrow> (nat \<Rightarrow> stage) \<Rightarrow> nat set" where
  "let_through who e T f =
     {i. snd (who i) = e \<and> (\<exists>t. admitted_at (f i) = Some t \<and> T - loginAccountWindow < t \<and> t \<le> T)}"

definition resetters :: "(nat \<Rightarrow> string \<times> string) \<Rightarrow> string \<Rightarrow> (nat \<Rightarrow> stage) \<Rightarrow> nat set" where
  "resetters who e f = {i. snd (who i) = e \<and> account_reset (f i)}"

definition contest_inv :: "(nat \<Rightarrow> string \<times> string) \<Rightarrow> contest \<Rightarrow> bool" where
  "contest_inv who s = (since_ok (ct_now s) (m_loginAcct (ct_mgr s)) (ct_since s) \<and>
     finite {i. ct_stage s i \<noteq> Arrived} \<and>
     (\<forall>e T. card (let_through who e T (ct_stage s)) \<le> nat loginAccountLimit * card (resetters who e (ct_stage s)) +
        length (filter (\<lambda>t. T - loginAccountWindow < t \<and> t \<le> T) (ct_since s e))))"

lemma sets_moved:
  assumes "admitted_at st = admitted_at (f i)" and "account_reset st = account_reset (f i)"
  shows "let_through who e T (f(i := st)) = let_through who e T f" "resetters who e (f(i := st)) = resetters who e f"
  using assms by (auto simp: let_through_def resetters_def)

lemma finite_moved: "finite {j. f j \<noteq> Arrived} \<Longrightarrow> finite {j. (f(i := st)) j \<noteq> Arrived}"
  by (rule finite_subset [of _ "insert i {j. f j \<noteq> Arrived}"]) auto

lemma finite_sets:
  assumes "finite {j. f j \<noteq> Arrived}"
  shows "finite (let_through who e T f)" "finite (resetters who e f)"
  by (auto intro!: finite_subset [OF _ assms] simp: let_through_def resetters_def admitted_at_def account_reset_def)

text \<open>A section that admits nobody and resets no account.\<close>

lemma inv_moved:
  assumes "contest_inv who s" and "since_ok (ct_now s) (m_loginAcct m) (ct_since s)"
    and "admitted_at st = admitted_at (ct_stage s i)" and "account_reset st = account_reset (ct_stage s i)"
  shows "contest_inv who (enter i st m s)"
  using assms(1,2) finite_moved [of "ct_stage s" i st] sets_moved [of st "ct_stage s" i, OF assms(3,4)] by (simp add: contest_inv_def)

lemma inv_admitted:
  assumes inv: "contest_inv who s" and st: "ct_stage s i = AddressOK"
    and r: "RateLimiter_Allow (ct_now s) (snd (who i)) (m_loginAcct (ct_mgr s)) = (True, rl)"
  shows "contest_inv who (enter i (Admitted (ct_now s)) (ct_mgr s\<lparr>m_loginAcct := rl\<rparr>) s
       \<lparr>ct_since := hist_hit (ct_now s) (snd (who i)) (ct_since s)\<rparr>)"
proof -
  let ?f = "ct_stage s" and ?g = "(ct_stage s)(i := Admitted (ct_now s))"
  let ?in = "\<lambda>T t. T - loginAccountWindow < t \<and> t \<le> T"
  have fin: "finite {j. ?f j \<noteq> Arrived}" using inv by (simp add: contest_inv_def)
  have rs: "resetters who e ?g = resetters who e ?f" for e
    by (auto simp: resetters_def account_reset_def st)
  have lt: "let_through who e T ?g = (if snd (who i) = e \<and> ?in T (ct_now s) then insert i else id) (let_through who e T ?f)"
    for e T by (auto simp: let_through_def admitted_at_def st)
  have "card (let_through who e T ?g) \<le> nat loginAccountLimit * card (resetters who e ?f) +
      length (filter (?in T) (hist_hit (ct_now s) (snd (who i)) (ct_since s) e))" for e T
  proof -
    have old: "card (let_through who e T ?f) \<le> nat loginAccountLimit * card (resetters who e ?f) +
        length (filter (?in T) (ct_since s e))" using inv by (simp add: contest_inv_def)
    have "i \<notin> let_through who e T ?f" by (simp add: let_through_def admitted_at_def st)
    with old finite_sets(1) [OF fin] show ?thesis by (auto simp: lt hist_hit_def)
  qed
  moreover have "since_ok (ct_now s) rl (hist_hit (ct_now s) (snd (who i)) (ct_since s))"
    by (rule since_ok_admitted [OF _ r]) (use inv in \<open>simp add: contest_inv_def\<close>)
  ultimately show ?thesis
    using finite_moved [OF fin] by (simp add: contest_inv_def rs)
qed

lemma inv_reset:
  assumes inv: "contest_inv who s" and st: "ct_stage s i = AddressReset t"
  shows "contest_inv who (enter i (AccountReset t)
       (ct_mgr s\<lparr>m_loginAcct := RateLimiter_Reset (snd (who i)) (m_loginAcct (ct_mgr s))\<rparr>) s
       \<lparr>ct_since := hist_forget (snd (who i)) (ct_since s)\<rparr>)"
proof -
  let ?f = "ct_stage s" and ?g = "(ct_stage s)(i := AccountReset t)"
  let ?in = "\<lambda>T t. T - loginAccountWindow < t \<and> t \<le> T"
  have fin: "finite {j. ?f j \<noteq> Arrived}" using inv by (simp add: contest_inv_def)
  have lt: "let_through who e T ?g = let_through who e T ?f" for e T
    by (auto simp: let_through_def admitted_at_def st)
  have rs: "resetters who e ?g = (if snd (who i) = e then insert i else id) (resetters who e ?f)" for e
    by (auto simp: resetters_def account_reset_def st)
  have "card (let_through who e T ?g) \<le> nat loginAccountLimit * card (resetters who e ?g) +
      length (filter (?in T) (hist_forget (snd (who i)) (ct_since s) e))" for e T
  proof -
    have old: "card (let_through who e T ?f) \<le> nat loginAccountLimit * card (resetters who e ?f) +
        length (filter (?in T) (ct_since s e))" "length (filter (?in T) (ct_since s e)) \<le> nat loginAccountLimit"
      using inv by (simp_all add: contest_inv_def since_ok_def)
    have "i \<notin> resetters who e ?f" by (simp add: resetters_def account_reset_def st)
    with old finite_sets(2) [OF fin] show ?thesis by (auto simp: lt rs hist_forget_def)
  qed
  moreover have "since_ok (ct_now s) (RateLimiter_Reset (snd (who i)) (m_loginAcct (ct_mgr s)))
      (hist_forget (snd (who i)) (ct_since s))"
    by (rule since_ok_reset) (use inv in \<open>simp add: contest_inv_def\<close>)
  ultimately show ?thesis
    using finite_moved [OF fin] by (simp add: contest_inv_def)
qed

lemma login_step_inv: "login_step who s s' \<Longrightarrow> contest_inv who s \<Longrightarrow> contest_inv who s'"
proof (induction rule: login_step.induct)
  case (time_passes s t)
  then show ?case by (auto simp: contest_inv_def intro: since_ok_later)
next
  case (registration s ip ok rl)
  then show ?case by (simp add: contest_inv_def)
next
  case (admit s i rl)
  then show ?case by (blast intro: inv_admitted)
next
  case (refuse s i rl)
  then have "since_ok (ct_now s) rl (ct_since s)"
    by (auto simp: contest_inv_def intro: since_ok_refused)
  with refuse show ?case by (auto intro!: inv_moved simp: admitted_at_def account_reset_def)
next
  case (reset_account s i t)
  then show ?case by (blast intro: inv_reset)
qed (auto intro!: inv_moved simp: admitted_at_def account_reset_def, auto simp: contest_inv_def)

lemma reachable_login_inv: "reachable_login who s \<Longrightarrow> contest_inv who s"
proof (induction rule: reachable_login.induct)
  case (open_doors a r t)
  show ?case
    using since_ok_start [of t]
    by (simp add: contest_inv_def NewManager_def let_through_def admitted_at_def)
next
  case (next_section s s')
  then show ?case by (blast intro: login_step_inv)
qed

subsection \<open>The sections are the code's\<close>

text \<open>
  \<open>facing s w\<close>: a handler running in world \<open>w\<close> sees the manager of \<open>s\<close> and a clock that does not
  run backwards.  \<open>simulates who i X p Y\<close>: from a stage in \<open>X\<close>, a run of \<open>p\<close> is a sequence of
  sections of request \<open>i\<close>, to a stage in \<open>Y\<close>; both may mention the number of Argon2id runs.
\<close>

definition facing :: "contest \<Rightarrow> world \<Rightarrow> bool" where
  "facing s w = (ct_mgr s = w_auth w \<and> ct_now s \<le> w_clock w 0 \<and> (\<forall>n. w_clock w n \<le> w_clock w (Suc n)))"

definition login_steps :: "(nat \<Rightarrow> string \<times> string) \<Rightarrow> nat \<Rightarrow> contest \<Rightarrow> contest \<Rightarrow> bool" where
  "login_steps who i s s' = ((login_step who)\<^sup>*\<^sup>* s s' \<and> (\<forall>j. j \<noteq> i \<longrightarrow> ct_stage s' j = ct_stage s j))"

definition simulates :: "(nat \<Rightarrow> string \<times> string) \<Rightarrow> nat \<Rightarrow> (stage \<Rightarrow> nat \<Rightarrow> bool) \<Rightarrow> 'a prog \<Rightarrow>
    ('a \<Rightarrow> stage \<Rightarrow> nat \<Rightarrow> bool) \<Rightarrow> bool" where
  "simulates who i X p Y = (\<forall>w s x w'. facing s w \<longrightarrow> X (ct_stage s i) (w_kdf w) \<longrightarrow> run_state p w = (x, w') \<longrightarrow>
     (\<exists>s'. login_steps who i s s' \<and> facing s' w' \<and> Y x (ct_stage s' i) (w_kdf w')))"

lemma simulatesD:
  "simulates who i X p Y \<Longrightarrow> facing s w \<Longrightarrow> X (ct_stage s i) (w_kdf w) \<Longrightarrow> run_state p w = (x, w') \<Longrightarrow>
     \<exists>s'. login_steps who i s s' \<and> facing s' w' \<and> Y x (ct_stage s' i) (w_kdf w')"
  by (simp add: simulates_def)

lemma login_steps_refl: "login_steps who i s s"
  by (simp add: login_steps_def)

lemma login_steps_trans: "login_steps who i s t \<Longrightarrow> login_steps who i t u \<Longrightarrow> login_steps who i s u"
  by (auto simp: login_steps_def)

lemma login_steps_one:
  "login_step who s s' \<Longrightarrow> (\<And>j. j \<noteq> i \<Longrightarrow> ct_stage s' j = ct_stage s j) \<Longrightarrow> login_steps who i s s'"
  by (auto simp: login_steps_def)

lemma sim_bind:
  assumes "simulates who i X p Y" and "\<And>x. simulates who i (Y x) (f x) Z"
  shows "simulates who i X (State_Monad.bind p f) Z"
  unfolding simulates_def
proof (intro allI impI)
  fix w s x w'
  assume w: "facing s w" "X (ct_stage s i) (w_kdf w)" and run: "run_state (State_Monad.bind p f) w = (x, w')"
  obtain y w1 where 1: "run_state p w = (y, w1)" by fastforce
  with run have 2: "run_state (f y) w1 = (x, w')" by simp
  from simulatesD [OF assms(1) w 1] obtain s1 where
    s1: "login_steps who i s s1" "facing s1 w1" "Y y (ct_stage s1 i) (w_kdf w1)" by blast
  from simulatesD [OF assms(2) s1(2,3) 2] s1(1) show
    "\<exists>s'. login_steps who i s s' \<and> facing s' w' \<and> Z x (ct_stage s' i) (w_kdf w')"
    by (blast intro: login_steps_trans)
qed

lemma sim_return: "(\<And>st k. X st k \<Longrightarrow> Y x st k) \<Longrightarrow> simulates who i X (State_Monad.return x) Y"
  by (auto simp: simulates_def intro: login_steps_refl)

lemma sim_weaken:
  "simulates who i X p Y \<Longrightarrow> (\<And>st k. X' st k \<Longrightarrow> X st k) \<Longrightarrow> (\<And>x st k. Y x st k \<Longrightarrow> Y' x st k) \<Longrightarrow>
     simulates who i X' p Y'"
  unfolding simulates_def by blast

text \<open>Parts of a handler outside the limits.\<close>

definition still :: "world \<Rightarrow> world \<Rightarrow> bool" where
  "still w w' = (w_auth w' = w_auth w \<and> (\<exists>n. w_clock w' = (\<lambda>j. w_clock w (n + j))))"

lemma still_now: "w_auth w' = w_auth w \<Longrightarrow> w_clock w' = w_clock w \<Longrightarrow> still w w'"
  unfolding still_def by (rule conjI, assumption, rule exI [of _ 0]) simp

lemma still_trans: "still w w1 \<Longrightarrow> still w1 w2 \<Longrightarrow> still w w2"
  unfolding still_def by (elim conjE exE, intro conjI, simp, metis add.assoc)

interpretation quiet: quiet_frame still
  by unfold_locales (simp_all add: still_now still_trans, auto simp: still_def intro: exI [of _ "Suc 0"] still_trans)

lemma facing_still: "facing s w \<Longrightarrow> still w w' \<Longrightarrow> facing s w'"
proof -
  assume f: "facing s w" and "still w w'"
  then obtain n where w': "w_auth w' = w_auth w" "w_clock w' = (\<lambda>j. w_clock w (n + j))" by (auto simp: still_def)
  have "w_clock w 0 \<le> w_clock w n" by (induction n) (use f in \<open>auto simp: facing_def intro: order_trans\<close>)
  with f w' show ?thesis by (auto simp: facing_def)
qed

lemma sim_quiet:
  assumes "keeps still p"
  shows "simulates who i (\<lambda>st k. Z st) p (\<lambda>x st k. Z st)"
  unfolding simulates_def by (blast intro: login_steps_refl facing_still keepsD [OF assms])

lemma sim_write: "simulates who i X (writeJSON n j) (\<lambda>x. X)"
  by (auto simp: simulates_def writeJSON_def respond_def facing_def intro!: login_steps_refl)

text \<open>One section: the clock is read and the manager moves.\<close>

lemma sim_section:
  assumes sec: "\<And>s k. X (ct_stage s i) k \<Longrightarrow> \<exists>s'. login_steps who i s s' \<and> ct_now s' = ct_now s \<and>
     ct_mgr s' = snd (f (ct_now s) (ct_mgr s)) \<and> Y (fst (f (ct_now s) (ct_mgr s))) (ct_stage s' i) k"
  shows "simulates who i X (do { now \<leftarrow> time_Now; lift_auth (f now) }) Y"
  unfolding simulates_def
proof (intro allI impI)
  fix w s x w'
  assume w: "facing s w" "X (ct_stage s i) (w_kdf w)" and run: "run_state (do { now \<leftarrow> time_Now; lift_auth (f now) }) w = (x, w')"
  let ?s = "s\<lparr>ct_now := w_clock w 0\<rparr>"
  have 1: "login_steps who i s ?s"
    by (rule login_steps_one [OF login_step.time_passes]) (use w(1) in \<open>simp_all add: facing_def\<close>)
  have "X (ct_stage ?s i) (w_kdf w)" using w(2) by simp
  from sec [OF this] obtain s' where s': "login_steps who i ?s s'" "ct_now s' = w_clock w 0"
    "ct_mgr s' = snd (f (w_clock w 0) (w_auth w))" "Y (fst (f (w_clock w 0) (w_auth w))) (ct_stage s' i) (w_kdf w)"
    using w(1) by (auto simp: facing_def)
  with run w(1) have "facing s' w' \<and> Y x (ct_stage s' i) (w_kdf w')"
    by (auto simp: run_time_Now run_lift_auth facing_def split: prod.splits)
  with login_steps_trans [OF 1 s'(1)] show
    "\<exists>s'. login_steps who i s s' \<and> facing s' w' \<and> Y x (ct_stage s' i) (w_kdf w')" by blast
qed

lemma section_step:
  "login_step who s s' \<Longrightarrow> ct_stage s' = (ct_stage s)(i := st) \<Longrightarrow> ct_now s' = ct_now s \<Longrightarrow> ct_mgr s' = m \<Longrightarrow> Y st \<Longrightarrow>
     \<exists>s'. login_steps who i s s' \<and> ct_now s' = ct_now s \<and> ct_mgr s' = m \<and> Y (ct_stage s' i)"
  by (intro exI [of _ s']) (simp add: login_steps_one)

lemma sim_locked:
  "simulates who i (\<lambda>st k. st = Arrived \<and> k = k0) (Manager_IsLoginLocked (snd (who i)))
     (\<lambda>b st k. st = (if b then Refused else NotLocked) \<and> k = k0)"
  unfolding Manager_IsLoginLocked_def
proof (rule sim_section, goal_cases)
  case (1 s k)
  obtain b l where bl: "LockoutTracker_IsLocked (ct_now s) (snd (who i)) (m_lockout (ct_mgr s)) = (b, l)" by fastforce
  have "login_step who s (enter i (if b then Refused else NotLocked) (ct_mgr s\<lparr>m_lockout := l\<rparr>) s)"
    using 1 bl by (intro login_step.ask_lockout) auto
  then show ?case by (rule section_step) (use 1 bl in simp_all)
qed

lemma sim_address:
  "simulates who i (\<lambda>st k. st = NotLocked \<and> k = k0) (allow_with m_loginIP m_loginIP_update (fst (who i)))
     (\<lambda>b st k. st = (if b then AddressOK else Refused) \<and> k = k0)"
  unfolding allow_with_def
proof (rule sim_section, goal_cases)
  case (1 s k)
  obtain b rl where bl: "RateLimiter_Allow (ct_now s) (fst (who i)) (m_loginIP (ct_mgr s)) = (b, rl)" by fastforce
  have "login_step who s (enter i (if b then AddressOK else Refused) (ct_mgr s\<lparr>m_loginIP := rl\<rparr>) s)"
    using 1 bl by (intro login_step.ask_address) auto
  then show ?case by (rule section_step) (use 1 bl in simp_all)
qed

definition passed_limits :: "stage \<Rightarrow> bool" where
  "passed_limits st = (case st of Admitted t \<Rightarrow> True | _ \<Rightarrow> False)"

lemma passed_limitsD: "passed_limits st \<Longrightarrow> \<exists>t. st = Admitted t"
  by (simp add: passed_limits_def split: stage.splits)

lemma sim_account:
  "simulates who i (\<lambda>st k. st = AddressOK \<and> k = k0) (allow_with m_loginAcct m_loginAcct_update (snd (who i)))
     (\<lambda>b st k. (if b then passed_limits st else st = Refused) \<and> k = k0)"
  unfolding allow_with_def
proof (rule sim_section, goal_cases)
  case (1 s k)
  obtain b rl where bl: "RateLimiter_Allow (ct_now s) (snd (who i)) (m_loginAcct (ct_mgr s)) = (b, rl)" by fastforce
  show ?case
  proof (cases b)
    case True
    have "login_step who s (enter i (Admitted (ct_now s)) (ct_mgr s\<lparr>m_loginAcct := rl\<rparr>) s
       \<lparr>ct_since := hist_hit (ct_now s) (snd (who i)) (ct_since s)\<rparr>)"
      using 1 bl True by (intro login_step.admit) auto
    then show ?thesis by (rule section_step [where st = "Admitted (ct_now s)"]) (use 1 bl True in \<open>simp_all add: passed_limits_def\<close>)
  next
    case False
    have "login_step who s (enter i Refused (ct_mgr s\<lparr>m_loginAcct := rl\<rparr>) s)"
      using 1 bl False by (intro login_step.refuse) auto
    then show ?thesis by (rule section_step) (use 1 bl False in simp_all)
  qed
qed

lemma sim_limit:
  "simulates who i (\<lambda>st k. st = NotLocked \<and> k = k0) (Manager_CheckLoginLimit (fst (who i)) (snd (who i)))
     (\<lambda>b st k. (if b then passed_limits st else st = Refused) \<and> k = k0)"
  unfolding Manager_CheckLoginLimit_def
proof (rule sim_bind [OF sim_address])
  show "simulates who i (\<lambda>st k. st = (if b then AddressOK else Refused) \<and> k = k0)
      (if b then allow_with m_loginAcct m_loginAcct_update (snd (who i)) else State_Monad.return False)
      (\<lambda>b st k. (if b then passed_limits st else st = Refused) \<and> k = k0)" for b
    using sim_account [of who i k0] by (cases b) (simp_all add: sim_return)
qed

lemma sim_failure:
  "simulates who i (\<lambda>st k. passed_limits st) (Manager_RecordLoginFailure (snd (who i)))
     (\<lambda>d st k. was_admitted st)"
  unfolding Manager_RecordLoginFailure_def
proof (rule sim_section, goal_cases)
  case (1 s k)
  then obtain t where t: "ct_stage s i = Admitted t" by (auto dest: passed_limitsD)
  obtain d l where dl: "LockoutTracker_RecordFailure (ct_now s) (snd (who i)) (m_lockout (ct_mgr s)) = (d, l)" by fastforce
  have "login_step who s (enter i (Failed t) (ct_mgr s\<lparr>m_lockout := l\<rparr>) s)"
    using t dl by (intro login_step.fail_login) auto
  then show ?case
    by (rule section_step [where st = "Failed t"]) (use dl in \<open>simp_all add: was_admitted_def admitted_at_def\<close>)
qed

text \<open>The three resets of a success are three sections.\<close>

lemma sim_reset:
  "simulates who i (\<lambda>st k. passed_limits st) (Manager_ResetLoginLimit (fst (who i)) (snd (who i)))
     (\<lambda>d st k. was_admitted st)"
  unfolding simulates_def
proof (intro allI impI)
  fix w s x w'
  assume w: "facing s w" "passed_limits (ct_stage s i)"
    and run: "run_state (Manager_ResetLoginLimit (fst (who i)) (snd (who i))) w = (x, w')"
  from w(2) obtain t where t: "ct_stage s i = Admitted t" by (auto dest: passed_limitsD)
  note 1 = login_step.reset_address [OF t, of who]
  let ?s1 = "enter i (AddressReset t) (ct_mgr s\<lparr>m_loginIP := RateLimiter_Reset (fst (who i)) (m_loginIP (ct_mgr s))\<rparr>) s"
  have "ct_stage ?s1 i = AddressReset t" by simp
  note 2 = login_step.reset_account [OF this, of who]
  let ?s2 = "enter i (AccountReset t) (ct_mgr ?s1\<lparr>m_loginAcct := RateLimiter_Reset (snd (who i)) (m_loginAcct (ct_mgr ?s1))\<rparr>) ?s1
       \<lparr>ct_since := hist_forget (snd (who i)) (ct_since ?s1)\<rparr>"
  have "ct_stage ?s2 i = AccountReset t" by simp
  note 3 = login_step.reset_lockout [OF this, of who]
  let ?s3 = "enter i (Succeeded t) (ct_mgr ?s2\<lparr>m_lockout := LockoutTracker_Reset (snd (who i)) (m_lockout (ct_mgr ?s2))\<rparr>) ?s2"
  have "login_steps who i s ?s3"
    by (rule login_steps_trans [OF login_steps_one [OF 1] login_steps_trans [OF login_steps_one [OF 2] login_steps_one [OF 3]]])
      simp_all
  moreover have "facing ?s3 w'"
    using w(1) run by (auto simp: facing_def Manager_ResetLoginLimit_def run_lift_auth)
  moreover have "was_admitted (ct_stage ?s3 i)" by (simp add: was_admitted_def admitted_at_def)
  ultimately show "\<exists>s'. login_steps who i s s' \<and> facing s' w' \<and> was_admitted (ct_stage s' i)" by blast
qed

text \<open>The parts of \<open>PostLogin\<close> after the limits.\<close>

lemma sim_reject:
  "simulates who i (\<lambda>st k. passed_limits st) (reject_login (snd (who i))) (\<lambda>x st k. was_admitted st)"
  unfolding reject_login_def
  by (intro sim_bind [OF sim_failure] sim_quiet quiet.more_steps)

lemma passed_admitted: "passed_limits st \<Longrightarrow> was_admitted st"
  by (auto simp: passed_limits_def was_admitted_def admitted_at_def split: stage.splits)

lemma sim_after:
  "keeps still p \<Longrightarrow> simulates who i (\<lambda>st k. passed_limits st) p (\<lambda>x st k. was_admitted st)"
  by (rule sim_weaken [OF sim_quiet]) (auto dest: passed_admitted)

lemma sim_known:
  assumes "who i = (clientIP r, e)"
  shows "simulates who i (\<lambda>st k. passed_limits st) (login_known l r e h user) (\<lambda>x st k. was_admitted st)"
  unfolding login_known_def
proof (rule sim_bind [OF sim_quiet], fact quiet.prims, goal_cases)
  case (1 c)
  have ip: "fst (who i) = clientIP r" "snd (who i) = e" using assms by simp_all
  note reset = sim_reset [of who i, unfolded ip] and reject = sim_reject [of who i, unfolded ip]
  show ?case
  proof (cases c)
    case (Inl err)
    then show ?thesis by (simp add: sim_after quiet.helpers_keep)
  next
    case (Inr cand)
    show ?thesis
      unfolding Inr sum.case
      by (cases "ConstantTimeCompare cand (u_auth_hash user) \<noteq> 1")
        (simp_all, intro sim_bind [OF sim_quiet reject] quiet.record_keeps,
          intro sim_bind [OF reset] conjI impI sim_quiet quiet.challenge_keeps quiet.logins_keep)
  qed
qed

lemma sim_PostLogin:
  assumes "\<And>body. decodeJSON l (LoginRequest_fields l) zero_LoginRequest r = Some body \<Longrightarrow>
      who i = (clientIP r, NormalizeEmail l (lr_email body))"
  shows "simulates who i (\<lambda>st k. st = Arrived \<and> k = k0) (PostLogin l r) (\<lambda>x st k. was_admitted st \<or> k = k0)"
proof (cases "decodeJSON l (LoginRequest_fields l) zero_LoginRequest r")
  case None
  show ?thesis
    unfolding PostLogin_def None option.case
    by (rule sim_weaken [OF sim_write [where X = "\<lambda>st k. st = Arrived \<and> k = k0"]]) auto
next
  case (Some body)
  let ?e = "NormalizeEmail l (lr_email body)" and ?Y = "\<lambda>b st k. (if b then st = Refused else passed_limits st) \<and> k = k0"
  have who: "who i = (clientIP r, ?e)" by (rule assms [OF Some])
  note parts = sim_locked [of who i k0, unfolded who snd_conv] sim_limit [of who i k0, unfolded who fst_conv snd_conv]
    sim_reject [of who i, unfolded who snd_conv]
  have limit: "simulates who i (\<lambda>st k. st = (if locked then Refused else NotLocked) \<and> k = k0)
      (if locked then State_Monad.return True
       else do { ok \<leftarrow> Manager_CheckLoginLimit (clientIP r) ?e; State_Monad.return (\<not> ok) }) ?Y" for locked
    using sim_bind [OF parts(2) sim_return [where Y = "?Y"]] by (cases locked) (simp_all add: sim_return)
  have rest: "simulates who i (\<lambda>st k. passed_limits st)
      (case decode_auth_hash (lr_auth_hash body) of
         None \<Rightarrow> writeJSON 400 (gen_Error ''auth_hash must be valid base64'')
       | Some h \<Rightarrow> do {
           res \<leftarrow> UsersRepo_GetByEmail ?e;
           case res of Inl err \<Rightarrow>
               if errors_Is err ErrNotFound then do { dummy_work l h; reject_login ?e }
               else fail500 r ''login: get user'' err internal
           | Inr user \<Rightarrow> login_known l r ?e h user }) (\<lambda>x st k. was_admitted st)"
  proof (cases "decode_auth_hash (lr_auth_hash body)")
    case None
    then show ?thesis by (simp add: sim_after quiet.writes)
  next
    case (Some h)
    show ?thesis
      unfolding Some option.case
    proof (rule sim_bind [OF sim_quiet], fact quiet.repos_keep, goal_cases)
      case (1 res)
      show ?case
        by (cases res)
          (simp_all, intro conjI impI sim_bind [OF sim_quiet parts(3)] sim_after quiet.helpers_keep, rule sim_known, rule who)
    qed
  qed
  show ?thesis
    unfolding PostLogin_def Some option.case Let_def
  proof (rule sim_bind [OF parts(1)], rule sim_bind [OF limit], goal_cases)
    case (1 locked b)
    show ?case
      by (cases b) (auto intro!: sim_weaken [OF rest] sim_weaken [OF sim_write [where X = "\<lambda>st k. k = k0"]])
  qed
qed

subsection \<open>Properties\<close>

text \<open>
  C28: no interleaving of login requests gets more guesses at a password than the account limit.
  In every reachable state, of the requests that name an account at most five per success on it,
  and five more, were let through to the password check within any fifteen minutes.
\<close>

theorem concurrent_guesses_bounded:
  assumes "reachable_login who s"
  shows "card {i. snd (who i) = e \<and> (\<exists>t. admitted_at (ct_stage s i) = Some t \<and> T - 15 * Minute < t \<and> t \<le> T)}
    \<le> 5 * (1 + card {i. snd (who i) = e \<and> account_reset (ct_stage s i)})"
proof -
  have "card (let_through who e T (ct_stage s)) \<le> nat loginAccountLimit * card (resetters who e (ct_stage s)) +
      length (filter (\<lambda>t. T - loginAccountWindow < t \<and> t \<le> T) (ct_since s e))"
    and "length (filter (\<lambda>t. T - loginAccountWindow < t \<and> t \<le> T) (ct_since s e)) \<le> nat loginAccountLimit"
    using reachable_login_inv [OF assms] by (simp_all add: contest_inv_def since_ok_def)
  then show ?thesis by (simp add: let_through_def resetters_def manager_consts)
qed

text \<open>
  C29: the race covers the code.  A run of \<open>PostLogin\<close> as request \<open>i\<close>, in any world whose clock
  does not run backwards, is a sequence of sections of that request, ends with the same
  manager, and runs Argon2id only if the limits admitted the request.
\<close>

theorem login_refines_race:
  assumes "facing s w" and "ct_stage s i = Arrived"
    and "\<And>body. decodeJSON l (LoginRequest_fields l) zero_LoginRequest r = Some body \<Longrightarrow>
      who i = (clientIP r, NormalizeEmail l (lr_email body))"
    and "run_state (PostLogin l r) w = ((), w')"
  shows "\<exists>s'. login_steps who i s s' \<and> ct_mgr s' = w_auth w' \<and>
    (w_kdf w' \<noteq> w_kdf w \<longrightarrow> admitted_at (ct_stage s' i) \<noteq> None)"
  using simulatesD [OF sim_PostLogin assms(1) _ assms(4), of who i "w_kdf w"] assms(2,3)
  by (auto simp: facing_def was_admitted_def)

subsection \<open>A concrete race\<close>

definition ann_logs_in :: "nat \<Rightarrow> string \<times> string" where
  "ann_logs_in i = (clientIP sample_login, ''ann@example.org'')"

definition doors :: contest where
  "doors = \<lparr>ct_mgr = NewManager (15 * Minute) (168 * Hour), ct_now = 1000, ct_stage = (\<lambda>_. Arrived), ct_since = (\<lambda>_. [])\<rparr>"

lemma reachable_doors: "reachable_login who doors"
  unfolding doors_def by (rule reachable_login.open_doors)

lemma facing_doors: "facing doors (sample_world d)"
  by (simp add: facing_def doors_def)

theorem login_refines_race_witness:
  "\<exists>s' w'. run_state (PostLogin sample_lib sample_login) (sample_world empty_db) = ((), w') \<and>
     login_steps ann_logs_in 7 doors s' \<and> ct_mgr s' = w_auth w'"
proof -
  obtain w' where run: "run_state (PostLogin sample_lib sample_login) (sample_world empty_db) = ((), w')"
    using run_unit by blast
  have "ann_logs_in 7 = (clientIP sample_login, NormalizeEmail sample_lib (lr_email body))"
    if "decodeJSON sample_lib (LoginRequest_fields sample_lib) zero_LoginRequest sample_login = Some body" for body
    using that sample_login_body by (auto simp: ann_logs_in_def sample_login_email)
  from login_refines_race [where i = 7 and who = ann_logs_in, OF facing_doors _ this run] run show ?thesis by (auto simp: doors_def)
qed

theorem concurrent_guesses_bounded_witness:
  "\<exists>s. reachable_login ann_logs_in s \<and> ct_stage s 7 = Admitted 1000 \<and>
     card {i. snd (ann_logs_in i) = ''ann@example.org'' \<and>
         (\<exists>t. admitted_at (ct_stage s i) = Some t \<and> 1000 - 15 * Minute < t \<and> t \<le> 1000)}
       \<le> 5 * (1 + card {i. snd (ann_logs_in i) = ''ann@example.org'' \<and> account_reset (ct_stage s i)})"
proof -
  let ?e = "''ann@example.org''" and ?m = "NewManager (15 * Minute) (168 * Hour)"
  have open_limits: "fst (RateLimiter_Allow 1000 k (newRateLimiter n w))" if "0 < n" for k n w
    using that by (simp add: RateLimiter_Allow_def newRateLimiter_def rl_existing_def keep_after_filter Let_def)
  let ?s1 = "enter 7 NotLocked ?m doors"
  have "login_step ann_logs_in doors (enter 7 (if False then Refused else NotLocked) (ct_mgr doors\<lparr>m_lockout := newLockoutTracker\<rparr>) doors)"
    by (rule login_step.ask_lockout)
      (simp_all add: doors_def NewManager_def LockoutTracker_IsLocked_def newLockoutTracker_def)
  then have 1: "login_step ann_logs_in doors ?s1" by (simp add: doors_def NewManager_def)
  obtain r2 where r2: "RateLimiter_Allow 1000 (fst (ann_logs_in 7)) (m_loginIP ?m) = (True, r2)"
    using open_limits [of loginIPLimit "fst (ann_logs_in 7)" loginIPWindow]
    by (cases "RateLimiter_Allow 1000 (fst (ann_logs_in 7)) (m_loginIP ?m)") (auto simp: NewManager_def manager_consts)
  let ?s2 = "enter 7 (if True then AddressOK else Refused) (?m\<lparr>m_loginIP := r2\<rparr>) ?s1"
  have 2: "login_step ann_logs_in ?s1 ?s2"
    using login_step.ask_address [of ?s1 7 ann_logs_in True r2] r2 by (simp add: doors_def)
  obtain r3 where r3: "RateLimiter_Allow 1000 (snd (ann_logs_in 7)) (m_loginAcct ?m) = (True, r3)"
    using open_limits [of loginAccountLimit "snd (ann_logs_in 7)" loginAccountWindow]
    by (cases "RateLimiter_Allow 1000 (snd (ann_logs_in 7)) (m_loginAcct ?m)") (auto simp: NewManager_def manager_consts)
  obtain s3 where 3: "login_step ann_logs_in ?s2 s3" "ct_stage s3 7 = Admitted 1000"
    using login_step.admit [of ?s2 7 ann_logs_in r3] r3 by (auto simp: doors_def)
  have "reachable_login ann_logs_in s3"
    by (intro reachable_login.next_section [OF reachable_login.next_section [OF reachable_login.next_section
            [OF reachable_doors 1] 2]] 3(1))
  from this 3(2) concurrent_guesses_bounded [OF this, of ?e 1000] show ?thesis by blast
qed

end
