(* ===== verification/Activity.thy ===== *)
theory Activity
  imports SessionLife
begin

text \<open>
  \<open>GET /api/activity\<close>: the pages of a user's audit log, what following the cursors gives, and
  what happens to a limit above the repository's cap.
\<close>

definition activity_json :: "AuditEvent list \<Rightarrow> uuid option \<Rightarrow> json" where
  "activity_json page next_cursor = JObj ((''events'', JArr (map activity_event page)) #
     opt_field ''next_cursor'' json_uuid next_cursor)"

lemma run_ListByUser [run_simps]:
  "calm w \<Longrightarrow> run_state (AuditRepo_ListByUser l uid cursor lim) w =
     (Inr (map (auditFromRow l) (take (nat (sint (auditLimit lim + 1))) (user_events uid cursor (w_db w)))), passed w)"
  by (simp add: AuditRepo_ListByUser_def queries_defs run_simps sql_step_read [OF listAuditEventsByUser_def] passed_def)

lemma auditLimit_next: "1 \<le> n \<Longrightarrow> n \<le> 100 \<Longrightarrow> nat (sint (auditLimit (int n) + 1)) = Suc n"
proof -
  assume n: "1 \<le> n" "n \<le> 100"
  have "(of_int (int n) + 1 :: int32) = of_nat (Suc n)" by simp
  moreover have "sint (of_nat (Suc n) :: int32) = int (Suc n)"
    using n by (simp only: signed_of_nat) (simp add: signed_take_bit_int_eq_self)
  ultimately show ?thesis using n by (simp add: auditLimit_def add.commute)
qed

lemma auditLimit_over: "100 < n \<Longrightarrow> nat (sint (auditLimit n + 1)) = 51"
  by (simp add: auditLimit_def)

lemma run_GetActivity:
  assumes "calm w" and "cx_user_id r = Some uid"
  shows "run_state (GetActivity l r (Some lim) cursor) w =
    (case activity_page lim (map (auditFromRow l)
         (take (nat (sint (auditLimit lim + 1))) (user_events uid cursor (w_db w)))) of
       None \<Rightarrow> (Panicked ''runtime error: slice bounds out of range'', passed w)
     | Some (page, next_cursor) \<Rightarrow>
         (Done, (passed w)\<lparr>w_resp := rs_json 200 (activity_json page next_cursor) (w_resp w)\<rparr>))"
  using assms
  by (simp add: GetActivity_def run_simps writeJSON_def activity_json_def Let_def split: option.split)

lemma activity_page_pos:
  "0 \<le> lim \<Longrightarrow> \<exists>page nxt. activity_page lim evs = Some (page, nxt)"
  by (simp add: activity_page_def Let_def)

text \<open>A negative limit, which only the generated server lets through, panics.\<close>

lemma activity_negative_limit:
  assumes "calm w" and "cx_user_id r = Some uid" and "lim < 0"
  shows "run_state (GetActivity l r (Some lim) cursor) w =
    (Panicked ''runtime error: slice bounds out of range'', passed w)"
  using assms(3) by (simp add: run_GetActivity [OF assms(1,2)] activity_page_def)

text \<open>
  An activity page.  For a limit up to 100 the answer holds that many of the user's events,
  newest first, and a cursor to the last one exactly when more follow.  A larger limit is
  silently replaced by 50, but the handler still compares with the larger one: the answer
  holds 51 events and no cursor, however many more there are.
\<close>

theorem activity_pages:
  assumes "calm w" and "cx_user_id r = Some uid" and "w_resp w = fresh_response"
    and "run_state (GetActivity l r (Some (int n)) cursor) w = (out, w')"
    and evs: "evs = map (auditFromRow l) (user_events uid cursor (w_db w))"
  shows "rs_status (w_resp w') = 200 \<and>
    (1 \<le> n \<and> n \<le> 100 \<longrightarrow> rs_body (w_resp w') =
       [BJson (activity_json (take n evs) (if n < length evs then Some (ae_id (evs ! (n - 1))) else None))]) \<and>
    (100 < n \<longrightarrow> rs_body (w_resp w') = [BJson (activity_json (take 51 evs) None)])"
proof -
  let ?lim = "nat (sint (auditLimit (int n) + 1))"
  obtain page nxt where p: "activity_page (int n) (take ?lim evs) = Some (page, nxt)"
    using activity_page_pos [of "int n"] by fastforce
  then have run: "w_resp w' = rs_json 200 (activity_json page nxt) fresh_response"
    using assms(3,4) run_GetActivity [OF assms(1,2), of l "int n" cursor] by (auto simp: evs take_map)
  then have resp: "rs_status (w_resp w') = 200" "rs_body (w_resp w') = [BJson (activity_json page nxt)]"
    by (simp_all add: fresh_response_def response_defs)
  have small: "page = take n evs \<and> nxt = (if n < length evs then Some (ae_id (evs ! (n - 1))) else None)"
    if "1 \<le> n" "n \<le> 100"
    using p that auditLimit_next [OF that] by (auto simp: activity_page_def Let_def min_def last_conv_nth split: if_splits)
  have large: "page = take 51 evs \<and> nxt = None" if "100 < n"
    using p that by (auto simp: activity_page_def Let_def auditLimit_over)
  show ?thesis using resp small large by auto
qed

subsection \<open>Following the cursors\<close>

text \<open>A client that asks for pages of \<open>n\<close> events until there is no cursor: the events it has seen
  and the number of its requests, or None if \<open>k\<close> requests do not suffice.\<close>

fun walk :: "nat \<Rightarrow> lib \<Rightarrow> nat \<Rightarrow> uuid \<Rightarrow> uuid option \<Rightarrow> db \<Rightarrow> (AuditEvent list \<times> nat) option" where
  "walk 0 l n uid cursor d = None"
| "walk (Suc k) l n uid cursor d =
     (case activity_page (int n) (map (auditFromRow l)
            (take (nat (sint (auditLimit (int n) + 1))) (user_events uid cursor d))) of
        None \<Rightarrow> None
      | Some (page, None) \<Rightarrow> Some (page, 1)
      | Some (page, Some c) \<Rightarrow> (case walk k l n uid (Some c) d of
          None \<Rightarrow> None | Some (rest, m) \<Rightarrow> Some (page @ rest, Suc m)))"

text \<open>The number of pages of size \<open>n\<close> that \<open>len\<close> events fill, the only one possibly empty.\<close>

definition page_count :: "nat \<Rightarrow> nat \<Rightarrow> nat" where
  "page_count n len = max 1 ((len + n - 1) div n)"

lemma page_count_last: "1 \<le> n \<Longrightarrow> len \<le> n \<Longrightarrow> page_count n len = 1"
proof -
  assume "1 \<le> n" "len \<le> n"
  then have "(len + n - 1) div n < 2" by (simp add: div_less_iff_less_mult)
  then show ?thesis by (simp add: page_count_def)
qed

lemma page_count_more: "1 \<le> n \<Longrightarrow> n < len \<Longrightarrow> page_count n len = Suc (page_count n (len - n))"
proof -
  assume n: "1 \<le> n" "n < len"
  have "(len + n - 1) div n = Suc ((len - 1) div n)"
    using n by (metis Nat.add_diff_assoc2 One_nat_def Suc_leI div_add_self2 gr_zeroI less_nat_zero_code not_less_eq_eq Suc_eq_plus1)
  moreover have "(len - n) + n - 1 = len - 1" using n by simp
  moreover have "1 \<le> (len - 1) div n" using n by (simp add: Suc_leI div_greater_zero_iff)
  ultimately show ?thesis by (simp add: page_count_def max_def)
qed

lemma user_events_cursor: "user_events uid cursor d = filter (before_cursor d cursor) (user_events uid None d)"
  by (simp add: user_events_def filter_sort before_cursor_def [of d None])

lemma filter_below:
  assumes "sorted_wrt (\<lambda>a b. f b < (f a :: int)) xs" and "i < length xs"
  shows "filter (\<lambda>x. f x < f (xs ! i)) xs = drop (Suc i) xs"
  using assms
proof (induction xs arbitrary: i)
  case Nil
  then show ?case by simp
next
  case (Cons x xs)
  show ?case
  proof (cases i)
    case 0
    with Cons.prems show ?thesis by simp
  next
    case (Suc j)
    then have "f (xs ! j) < f x" using Cons.prems by simp
    then have "\<not> f x < f (xs ! j)" by simp
    then show ?thesis using Cons Suc by simp
  qed
qed

lemma strictly_newest_first:
  assumes "inj_on au_created {e \<in> set (audits d). au_user e = Some uid}" and "distinct (map au_id (audits d))"
  shows "sorted_wrt (\<lambda>a b. au_created b < au_created a) (user_events uid None d)"
proof -
  let ?E = "user_events uid None d"
  have set: "set ?E = {e \<in> set (audits d). au_user e = Some uid}" by (auto simp: user_events_def before_cursor_def)
  have "distinct (audits d)" using assms(2) by (simp add: distinct_map)
  then have "distinct ?E" by (simp add: user_events_def)
  moreover have "sorted (map (\<lambda>e. - au_created e) ?E)" by (simp add: user_events_def)
  ultimately have le: "au_created (?E ! j) \<le> au_created (?E ! i)" and neq: "au_created (?E ! j) \<noteq> au_created (?E ! i)"
    if "i < j" "j < length ?E" for i j
    using that assms(1) [folded set]
    by (auto simp: sorted_wrt_iff_nth_less sorted_wrt_map nth_eq_iff_index_eq inj_on_eq_iff)
  show ?thesis
    unfolding sorted_wrt_iff_nth_less using le neq by (metis order_less_le)
qed

lemma event_of_cursor:
  assumes "distinct (map au_id (audits d))" and "e \<in> set (user_events uid None d)"
  shows "before_cursor d (Some (au_id e)) = (\<lambda>x. au_created x < au_created e)"
proof -
  have "e \<in> set (audits d)" using assms(2) by (auto simp: user_events_def)
  from find_key [OF assms(1) this] show ?thesis by (simp add: before_cursor_def fun_eq_iff)
qed

lemma activity_page_more:
  assumes "n < length F" and "1 \<le> n" and "last (take n F) = e"
  shows "activity_page (int n) (map (auditFromRow l) (take (Suc n) F)) =
    Some (map (auditFromRow l) (take n F), Some (au_id e))"
proof -
  have "take n F \<noteq> []" using assms(1,2) by auto
  then have "ae_id (last (map (auditFromRow l) (take n F))) = au_id e"
    using assms(3) by (subst last_map) (simp_all add: auditFromRow_def)
  then show ?thesis
    using assms(1,2) \<open>take n F \<noteq> []\<close> by (simp add: activity_page_def Let_def take_map min_def)
qed


definition logged_db :: "nat \<Rightarrow> db" where
  "logged_db n = sample_db\<lparr>audits := map (\<lambda>i. \<lparr>au_id = UUID (of_nat i), au_user = Some (UUID 1), au_type = ''logout'',
     au_ip = None, au_ua = None, au_resource = None, au_meta = JNull, au_created = int i\<rparr>) [0..<n]\<rparr>"

definition activity_request :: request where
  "activity_request = (sample_request ''GET'' ''/api/activity'' JNull)\<lparr>cx_user_id := Some (UUID 1)\<rparr>"

lemma length_user_events_logged: "length (user_events (UUID 1) None (logged_db n)) = n"
  by (simp add: user_events_def before_cursor_def logged_db_def filter_map comp_def)

theorem activity_pages_witness:
  "\<exists>out w' evs. run_state (GetActivity sample_lib activity_request (Some (int 101)) None) (sample_world (logged_db 60)) = (out, w') \<and>
     rs_body (w_resp w') = [BJson (activity_json (take 51 evs) None)] \<and> length evs = 60"
proof -
  let ?w = "sample_world (logged_db 60)"
  obtain out w' where run: "run_state (GetActivity sample_lib activity_request (Some (int 101)) None) ?w = (out, w')"
    by fastforce
  have u: "cx_user_id activity_request = Some (UUID 1)" by (simp add: activity_request_def)
  from activity_pages [OF _ u _ run refl] run length_user_events_logged [of 60] show ?thesis by fastforce
qed

lemma logged_inv: "db_inv (logged_db 3)"
  by (simp add: db_inv_def db_inv_defs logged_db_def sample_db_def empty_db_def sample_session_def sample_user_def upt_rec)


end
