(* ===== verification/Guessing.thy ===== *)
theory Guessing
  imports SecondFactor
begin

text \<open>
  How often a second factor may be guessed.  \<open>PostLogin\<close> clears the limits of the account and
  of the address as soon as the password is right, before the second factor, and
  \<open>PostLoginMfa\<close> touches no limit: whoever knows the password has any number of guesses.
\<close>

subsection \<open>Programs that leave accounts and limits alone\<close>

definition steady :: "world \<Rightarrow> world \<Rightarrow> bool" where
  "steady w w' = (calm w \<and> rand_ok w \<longrightarrow> calm w' \<and> rand_ok w' \<and> users (w_db w') = users (w_db w) \<and>
     w_auth w' = w_auth w)"

interpretation still: world_frame steady
  by unfold_locales (auto simp: steady_def)

lemma steady_prims:
  "keeps steady time_Now" "keeps steady (lift_alerts k)" "keeps steady (log_it e)" "keeps steady (get_auth q)"
  "keeps steady (respond f)" "keeps steady (writeJSON n j)" "keeps steady (server_hash l h s)"
  by (simp_all add: keeps_def steady_def run_simps writeJSON_def server_hash_def Let_def)

lemma steady_random: "keeps steady (lift_rng (rand_Read n))"
  by (auto simp: keeps_def steady_def run_simps)

lemma steady_exec: "(\<And>now fresh d. users (snd (s now fresh d)) = users d) \<Longrightarrow> keeps steady (db_exec s)"
  by (auto simp: keeps_def steady_def run_exec sql_step_def Let_def split: prod.split) (metis snd_conv)

lemma steady_statements:
  "keeps steady (db_exec (getUserByID u))" "keeps steady (db_exec (createSessionPair u a b c d))"
  "keeps steady (db_exec (createMFAChallenge u h t))" "keeps steady (db_exec (consumeMFAChallenge h))"
  "keeps steady (db_exec (listUnusedRecoveryCodes u))" "keeps steady (db_exec (markRecoveryCodeUsed u))"
  "keeps steady (db_exec (appendAuditEvent ou ty ip ua res m))" "keeps steady (db_exec (recordDeviceHash u h))"
  by (rule steady_exec, simp add: getUserByID_def createSessionPair_def createMFAChallenge_def
      consumeMFAChallenge_def listUnusedRecoveryCodes_def markRecoveryCodeUsed_def appendAuditEvent_def
      recordDeviceHash_def Let_def split: option.split)+

lemmas steady_steps = still.keeps_rules steady_prims steady_random steady_statements

lemma steady_record: "keeps steady (recordEvent l r u ty res m)"
  unfolding recordEvent_def audit_repo_defs queries_defs try_prog_def by (intro steady_steps)

lemma steady_loop: "keeps steady (consume_loop m cs)"
  by (induction cs) (auto simp: try_prog_def queries_defs intro!: steady_steps)

lemma steady_challenge: "keeps steady (challenge_login l r u)"
  unfolding challenge_login_def createMFAToken_def authGenerateToken_def mfa_repo_defs queries_defs fail500_def
    logInternalError_def try_prog_def
  by (intro steady_steps steady_record)

lemma steady_complete: "keeps steady (completeLogin l r u)"
  unfolding completeLogin_def manager_session_defs setAuthCookies_def sessions_repo_defs queries_defs scan_defs
    fail500_def logInternalError_def try_prog_def
  by (intro steady_steps steady_record)

lemma steady_second_factor: "check_second_factor l u body = Some p \<Longrightarrow> keeps steady p"
  by (auto simp: check_second_factor_def ValidateTOTP_def mfa_repo_defs queries_defs try_prog_def
      intro!: steady_steps steady_loop split: option.splits list.splits prod.splits)

lemma steady_LoginMfa: "keeps steady (PostLoginMfa l r)"
  unfolding PostLoginMfa_def validateMFAToken_def MFARepo_ConsumeChallenge_def users_repo_defs queries_defs scan_defs
    fail500_def logInternalError_def try_prog_def
  by (intro steady_steps steady_record steady_complete steady_second_factor; assumption)

subsection \<open>A right password clears the limits\<close>

definition clean :: "manager \<Rightarrow> string \<Rightarrow> string \<Rightarrow> bool" where
  "clean m ip e = (rl_existing (m_loginIP m) ip = [] \<and> rl_existing (m_loginAcct m) e = [] \<and> m_lockout m e = None \<and>
     0 < rl_limit (m_loginIP m) \<and> 0 < rl_limit (m_loginAcct m))"

lemma Allow_empty: "rl_existing r k = [] \<Longrightarrow> 0 < rl_limit r \<Longrightarrow> fst (RateLimiter_Allow now k r)"
  by (simp add: Allow_eq rl_recent_def recent_in_def)

lemma clean_open: "clean (w_auth w) ip e \<Longrightarrow> login_open w ip e"
  by (simp add: clean_def login_open_def Allow_empty LockoutTracker_IsLocked_def)

lemma Allow_limit: "rl_limit (snd (RateLimiter_Allow now k r)) = rl_limit r"
  by (simp add: RateLimiter_Allow_def Let_def)

lemma Allow_positive: "fst (RateLimiter_Allow now k r) \<Longrightarrow> 0 < rl_limit r"
  by (auto simp: Allow_eq split: if_splits)

lemma Reset_existing: "rl_existing (RateLimiter_Reset k r) k = []" "rl_limit (RateLimiter_Reset k r) = rl_limit r"
  by (simp_all add: RateLimiter_Reset_def rl_existing_upd)

text \<open>The state in which \<open>PostLogin\<close> looks at the password, and what a right one does next.\<close>

lemma right_password:
  assumes w: "calm w" "rand_ok w"
    and body: "decodeJSON l (LoginRequest_fields l) zero_LoginRequest r = Some body"
      "decode_auth_hash (lr_auth_hash body) = Some h"
    and u: "find (\<lambda>u. u_email u = NormalizeEmail l (lr_email body)) (users (w_db w)) = Some u" "password_ok l u h"
    and gate: "login_open w (clientIP r) (NormalizeEmail l (lr_email body))"
  obtains w3 where "calm w3" "rand_ok w3" "users (w_db w3) = users (w_db w)" "w_resp w3 = w_resp w"
    "w_db w3 = w_db w" "\<And>i. token_at w3 i = token_at w i" "\<And>i. w_clock w3 i = w_clock w (i + 3)"
    "clean (w_auth w3) (clientIP r) (NormalizeEmail l (lr_email body))"
    "run_state (PostLogin l r) w =
       run_state (if u_totp_enabled u then challenge_login l r u else completeLogin l r u) w3"
proof -
  let ?e = "NormalizeEmail l (lr_email body)"
  obtain w1 w2 where g: "run_state (Manager_IsLoginLocked ?e) w = (False, w1)"
      "run_state (Manager_CheckLoginLimit (clientIP r) ?e) w1 = (True, w2)"
    and w2: "calm w2" "rand_ok w2" "w_db w2 = w_db w" "w_resp w2 = w_resp w" "\<And>i. token_at w2 i = token_at w i"
      "\<And>i. w_clock w2 i = w_clock w (i + 3)"
    using login_open_run [OF gate w] by metis
  have lim: "rl_limit (m_loginIP (w_auth w2)) = rl_limit (m_loginIP (w_auth w))"
      "rl_limit (m_loginAcct (w_auth w2)) = rl_limit (m_loginAcct (w_auth w))"
    using g by (auto simp: Manager_IsLoginLocked_def Manager_CheckLoginLimit_def allow_with_def run_simps Let_def
        case_prod_beta Allow_limit split: if_splits)
  have pos: "0 < rl_limit (m_loginIP (w_auth w))" "0 < rl_limit (m_loginAcct (w_auth w))"
    using gate Allow_positive by (auto simp: login_open_def)
  define m where "m = (w_auth w2)\<lparr>m_loginIP := RateLimiter_Reset (clientIP r) (m_loginIP (w_auth w2)),
      m_loginAcct := RateLimiter_Reset ?e (m_loginAcct (w_auth w2)),
      m_lockout := LockoutTracker_Reset ?e (m_lockout (w_auth w2))\<rparr>"
  define w3 where "w3 = (passed w2)\<lparr>w_kdf := w_kdf w2 + 1, w_auth := m\<rparr>"
  have "clean m (clientIP r) ?e"
    using lim pos by (simp add: m_def clean_def Reset_existing LockoutTracker_Reset_def)
  moreover have "run_state (PostLogin l r) w =
       run_state (if u_totp_enabled u then challenge_login l r u else completeLogin l r u) w3"
    using u(2) w2 u(1)
    by (simp add: PostLogin_def body g login_known_def run_simps server_hash_def password_ok_def ConstantTimeCompare_eq
        Manager_ResetLoginLimit_def w3_def m_def Let_def)
  moreover have "token_at w3 i = token_at w i" for i
    using w2(5) [of i] by (simp add: w3_def token_at_def passed_def)
  ultimately show ?thesis using that [of w3] w2(1-4,6) by (simp add: w3_def)
qed

lemma login_challenges:
  assumes w: "calm w" "rand_ok w" "w_resp w = fresh_response" "challenge_fresh w l"
    and body: "decodeJSON l (LoginRequest_fields l) zero_LoginRequest r = Some body"
      "decode_auth_hash (lr_auth_hash body) = Some h"
    and u: "find (\<lambda>u. u_email u = NormalizeEmail l (lr_email body)) (users (w_db w)) = Some u" "password_ok l u h"
      "u_totp_enabled u" "gen_KDFParams_Unmarshal l (u_kdf u) = Some k"
    and gate: "login_open w (clientIP r) (NormalizeEmail l (lr_email body))"
    and run: "run_state (PostLogin l r) w = ((), w')"
  shows "rs_status (w_resp w') = 200 \<and> rs_cookies (w_resp w') = [] \<and>
    rs_body (w_resp w') = [BJson (LoginResponse k (Some True) (Some (token_at w 0)) (u_psk u) (Some (derefString (u_ptotp u))))] \<and>
    users (w_db w') = users (w_db w) \<and> sessions (w_db w') = sessions (w_db w) \<and>
    challenges (w_db w') = challenges (w_db w) @ [challenge_row w l (w_clock w 3) (u_id u)]"
proof -
  obtain w3 where w3: "calm w3" "rand_ok w3" "w_resp w3 = w_resp w" "w_db w3 = w_db w" "\<And>i. token_at w3 i = token_at w i"
      "\<And>i. w_clock w3 i = w_clock w (i + 3)"
    and go: "run_state (PostLogin l r) w = run_state (if u_totp_enabled u then challenge_login l r u else completeLogin l r u) w3"
    using right_password [OF w(1,2) body u(1,2) gate] by metis
  have "user_exists (w_db w3) (u_id u)" using u(1) by (auto simp: w3(4) user_exists_def list_ex_iff find_Some_iff)
  moreover have "challenge_fresh w3 l" using w(4) by (simp add: challenge_fresh_def w3(4,5))
  ultimately show ?thesis
    using challenge_calm [OF w3(1,2) _ _ _ u(4), of r] go run u(3) w(3) w3(3-6) by (auto simp: challenge_row_def)
qed

lemma login_leaves_clean:
  assumes w: "calm w" "rand_ok w"
    and body: "decodeJSON l (LoginRequest_fields l) zero_LoginRequest r = Some body"
      "decode_auth_hash (lr_auth_hash body) = Some h"
    and u: "find (\<lambda>u. u_email u = NormalizeEmail l (lr_email body)) (users (w_db w)) = Some u" "password_ok l u h"
    and gate: "login_open w (clientIP r) (NormalizeEmail l (lr_email body))"
    and run: "run_state (PostLogin l r) w = ((), w')"
  shows "calm w' \<and> rand_ok w' \<and> users (w_db w') = users (w_db w) \<and>
    clean (w_auth w') (clientIP r) (NormalizeEmail l (lr_email body))"
proof -
  obtain w3 where 3: "calm w3" "rand_ok w3" "users (w_db w3) = users (w_db w)"
      "clean (w_auth w3) (clientIP r) (NormalizeEmail l (lr_email body))"
    and go: "run_state (if u_totp_enabled u then challenge_login l r u else completeLogin l r u) w3 = ((), w')"
    using right_password [OF w body u gate] run by metis
  have "keeps steady (if u_totp_enabled u then challenge_login l r u else completeLogin l r u)"
    by (simp add: steady_challenge steady_complete)
  from keepsD [OF this go] 3 show ?thesis by (simp add: steady_def)
qed

subsection \<open>Properties\<close>

text \<open>
  A client that knows the password: log in, answer the challenge as it likes, and again.  Of
  every round it notes the answer to the password step and the challenges then stored.
\<close>

fun guess_rounds :: "lib \<Rightarrow> request \<Rightarrow> (response \<Rightarrow> request) list \<Rightarrow> (response \<times> challenge_row list) list prog" where
  "guess_rounds l r [] = ret []"
| "guess_rounds l r (g # gs) = do {
     respond (\<lambda>_. fresh_response);
     PostLogin l r;
     (answer, stored) \<leftarrow> State (\<lambda>w. ((w_resp w, challenges (w_db w)), w));
     respond (\<lambda>_. fresh_response);
     PostLoginMfa l (g answer);
     rounds \<leftarrow> guess_rounds l r gs;
     ret ((answer, stored) # rounds)
   }"

text \<open>The answer carries the token of a stored challenge for the account.\<close>

definition challenged :: "lib \<Rightarrow> User \<Rightarrow> gen_KDFParams \<Rightarrow> string \<Rightarrow> response \<times> challenge_row list \<Rightarrow> bool" where
  "challenged l u k tok = (\<lambda>(a, cs). rs_status a = 200 \<and> rs_cookies a = [] \<and>
     rs_body a = [BJson (LoginResponse k (Some True) (Some tok) (u_psk u) (Some (derefString (u_ptotp u))))] \<and>
     (\<exists>c \<in> set cs. ch_user c = u_id u \<and> ch_token c = sha256 l (to_bytes tok)))"

text \<open>The next \<open>N\<close> tokens hash apart, and no stored challenge has one of these hashes.\<close>

definition tokens_fresh :: "lib \<Rightarrow> nat \<Rightarrow> world \<Rightarrow> bool" where
  "tokens_fresh l N w = (inj_on (\<lambda>n. sha256 l (to_bytes (token_at w (32 * n)))) {..<N} \<and>
     (\<forall>c \<in> set (challenges (w_db w)). \<forall>n < N. ch_token c \<noteq> sha256 l (to_bytes (token_at w (32 * n)))))"

text \<open>One round uses the first token and at most two more.\<close>

lemma tokens_fresh_next:
  assumes "tokens_fresh l (N + 3) w" and "m \<le> 2"
    and "\<And>i. token_at w2 i = token_at w (i + 32 * (m + 1))"
    and "set (challenges (w_db w2)) \<subseteq> insert (challenge_row w l t uid) (set (challenges (w_db w)))"
  shows "tokens_fresh l N w2"
proof -
  have tok: "token_at w2 (32 * n) = token_at w (32 * (n + (m + 1)))" for n
    using assms(3) [of "32 * n"] by (simp add: algebra_simps)
  have inj: "inj_on (\<lambda>n. sha256 l (to_bytes (token_at w (32 * n)))) {..<N + 3}"
    and old: "\<And>c n. c \<in> set (challenges (w_db w)) \<Longrightarrow> n < N + 3 \<Longrightarrow> ch_token c \<noteq> sha256 l (to_bytes (token_at w (32 * n)))"
    using assms(1) by (auto simp: tokens_fresh_def)
  have "inj_on (\<lambda>n. sha256 l (to_bytes (token_at w2 (32 * n)))) {..<N}"
  proof (rule inj_onI)
    fix a b assume ab: "a \<in> {..<N}" "b \<in> {..<N}"
      and "sha256 l (to_bytes (token_at w2 (32 * a))) = sha256 l (to_bytes (token_at w2 (32 * b)))"
    then have "a + (m + 1) = b + (m + 1)"
      using inj_onD [OF inj, of "a + (m + 1)" "b + (m + 1)"] assms(2) by (simp add: tok)
    then show "a = b" by simp
  qed
  moreover have "ch_token c \<noteq> sha256 l (to_bytes (token_at w2 (32 * n)))"
    if c: "c \<in> set (challenges (w_db w2))" and n: "n < N" for c n
  proof (cases "c \<in> set (challenges (w_db w))")
    case True
    then show ?thesis using old [of c "n + (m + 1)"] n assms(2) by (simp add: tok)
  next
    case False
    then have "ch_token c = sha256 l (to_bytes (token_at w (32 * 0)))"
      using c assms(4) by (auto simp: challenge_row_def)
    moreover have "sha256 l (to_bytes (token_at w (32 * 0))) \<noteq> sha256 l (to_bytes (token_at w (32 * (n + (m + 1)))))"
      using inj_onD [OF inj, of 0 "n + (m + 1)"] n assms(2) by auto
    ultimately show ?thesis by (simp add: tok)
  qed
  ultimately show ?thesis by (simp add: tokens_fresh_def)
qed

lemma guessing_round:
  assumes w: "calm w" "rand_ok w" "w_resp w = fresh_response"
    and body: "decodeJSON l (LoginRequest_fields l) zero_LoginRequest r = Some body"
      "decode_auth_hash (lr_auth_hash body) = Some h"
    and u: "find (\<lambda>u. u_email u = NormalizeEmail l (lr_email body)) (users (w_db w)) = Some u" "password_ok l u h"
      "u_totp_enabled u" "gen_KDFParams_Unmarshal l (u_kdf u) = Some k"
    and gate: "login_open w (clientIP r) (NormalizeEmail l (lr_email body))"
    and fresh: "tokens_fresh l (N + 3) w"
    and run: "run_state (PostLogin l r) w = ((), w1)" "run_state (PostLoginMfa l q) (w1\<lparr>w_resp := fresh_response\<rparr>) = ((), w2)"
  shows "challenged l u k (token_at w 0) (w_resp w1, challenges (w_db w1)) \<and>
    calm w2 \<and> rand_ok w2 \<and> users (w_db w2) = users (w_db w) \<and>
    clean (w_auth w2) (clientIP r) (NormalizeEmail l (lr_email body)) \<and> tokens_fresh l N w2 \<and>
    (\<exists>m \<le> 2. \<forall>i. token_at w2 i = token_at w (i + 32 * (m + 1)))"
proof -
  let ?e = "NormalizeEmail l (lr_email body)"
  have c1: "calm w1" "rand_ok w1" "users (w_db w1) = users (w_db w)" "clean (w_auth w1) (clientIP r) ?e"
    using login_leaves_clean [OF w(1,2) body u(1,2) gate run(1)] by simp_all
  have c2: "calm w2" "rand_ok w2" "users (w_db w2) = users (w_db w)" "clean (w_auth w2) (clientIP r) ?e"
    using keepsD [OF steady_LoginMfa run(2)] c1 by (simp_all add: steady_def)
  obtain w3 where w3: "calm w3" "rand_ok w3" "w_resp w3 = fresh_response" "w_db w3 = w_db w" "\<And>i. token_at w3 i = token_at w i"
    and go: "run_state (challenge_login l r u) w3 = ((), w1)"
  proof (rule right_password [OF w(1,2) body u(1,2) gate])
    fix w3 assume "calm w3" "rand_ok w3" "w_resp w3 = w_resp w" "w_db w3 = w_db w" "\<And>i. token_at w3 i = token_at w i"
      "run_state (PostLogin l r) w = run_state (if u_totp_enabled u then challenge_login l r u else completeLogin l r u) w3"
    then show thesis using that [of w3] run(1) u(3) w(3) by simp
  qed
  have "user_exists (w_db w3) (u_id u)" using u(1) by (auto simp: w3(4) user_exists_def list_ex_iff find_Some_iff)
  moreover have "challenge_fresh w3 l"
    using fresh w3(4,5) by (auto simp: tokens_fresh_def challenge_fresh_def dest!: bspec spec [of _ 0])
  ultimately obtain a: "rs_status (w_resp w1) = 200" "rs_cookies (w_resp w1) = []"
      "rs_body (w_resp w1) = [BJson (LoginResponse k (Some True) (Some (token_at w 0)) (u_psk u) (Some (derefString (u_ptotp u))))]"
      "challenges (w_db w1) = challenges (w_db w) @ [challenge_row w l (w_clock w3 0) (u_id u)]"
      "\<And>i. token_at w1 i = token_at w (i + 32)"
    using challenge_calm [OF w3(1,2) _ _ w3(3) u(4), of r] go w3(4,5) by (auto simp: challenge_row_def)
  obtain m where m: "m \<le> 2" "set (challenges (w_db w2)) \<subseteq> set (challenges (w_db w1))"
    "\<And>i. rng_bytes (w_rng w2) i = rng_bytes (w_rng (w1\<lparr>w_resp := fresh_response\<rparr>)) (i + 32 * m)"
    by (rule settlesD [OF PostLoginMfa_settles _ _ run(2)]) (use c1 in simp_all)
  have tok: "token_at w2 i = token_at w (i + 32 * (m + 1))" for i
    using token_shift [of w2 w1 "32 * m" i] m(3) a(5) [of "i + 32 * m"] by (simp add: algebra_simps)
  have "tokens_fresh l N w2"
    by (rule tokens_fresh_next [OF fresh m(1) tok, where t = "w_clock w3 0" and uid = "u_id u"]) (use m(2) a(4) in auto)
  moreover have "challenged l u k (token_at w 0) (w_resp w1, challenges (w_db w1))"
    using a(1-4) by (simp add: challenged_def challenge_row_def)
  ultimately show ?thesis using c2 m(1) tok by blast
qed

text \<open>
  C25: the second factor can be guessed without limit.  However often a client with the right
  password starts over, and whatever it answers to the challenges, every round's password
  step is answered 200 with the token of a challenge that is stored for the account, no two
  rounds get the same token, and the failed second factors leave no trace in the lockout and
  the limits.  (The database answers, and the tokens drawn meanwhile - at most three a
  round - hash apart and to no stored challenge.)
\<close>

theorem second_factor_guesses_unlimited:
  assumes w: "calm w" "rand_ok w"
    and body: "decodeJSON l (LoginRequest_fields l) zero_LoginRequest r = Some body"
      "decode_auth_hash (lr_auth_hash body) = Some h"
    and u: "find (\<lambda>u. u_email u = NormalizeEmail l (lr_email body)) (users (w_db w)) = Some u" "password_ok l u h"
      "u_totp_enabled u" "gen_KDFParams_Unmarshal l (u_kdf u) = Some k"
    and gate: "login_open w (clientIP r) (NormalizeEmail l (lr_email body))"
    and fresh: "tokens_fresh l (3 * length gs) w"
    and run: "run_state (guess_rounds l r gs) w = (rounds, w')"
  shows "(\<exists>toks. list_all2 (challenged l u k) toks rounds \<and> distinct toks) \<and> length rounds = length gs \<and>
    login_open w' (clientIP r) (NormalizeEmail l (lr_email body)) \<and>
    (gs \<noteq> [] \<longrightarrow> m_lockout (w_auth w') (NormalizeEmail l (lr_email body)) = None)"
proof -
  let ?e = "NormalizeEmail l (lr_email body)"
  have "(\<exists>ns. list_all2 (\<lambda>n. challenged l u k (token_at w (32 * n))) ns rounds \<and> sorted_wrt (<) ns \<and>
      (\<forall>n \<in> set ns. n < 3 * length gs)) \<and> length rounds = length gs \<and> login_open w' (clientIP r) ?e \<and>
    (gs \<noteq> [] \<longrightarrow> m_lockout (w_auth w') ?e = None)"
    using w u(1) gate fresh run
  proof (induction gs arbitrary: w rounds)
    case Nil
    then show ?case by auto
  next
    case (Cons g gs)
    define v where "v = w\<lparr>w_resp := fresh_response\<rparr>"
    have v: "calm v" "rand_ok v" "w_resp v = fresh_response" "find (\<lambda>u. u_email u = ?e) (users (w_db v)) = Some u"
        "login_open v (clientIP r) ?e" "\<And>i. token_at v i = token_at w i" "w_db v = w_db w"
      using Cons.prems(1-4) by (simp_all add: v_def login_open_def token_at_def)
    have vf: "tokens_fresh l (3 * length gs + 3) v" using Cons.prems(5) v(6,7) by (simp add: tokens_fresh_def add.commute)
    obtain w1 where 1: "run_state (PostLogin l r) v = ((), w1)" using run_unit by blast
    obtain w2 where 2: "run_state (PostLoginMfa l (g (w_resp w1))) (w1\<lparr>w_resp := fresh_response\<rparr>) = ((), w2)"
      using run_unit by blast
    from guessing_round [OF v(1-3) body v(4) u(2-4) v(5) vf 1 2]
    obtain m where a: "challenged l u k (token_at v 0) (w_resp w1, challenges (w_db w1))"
      and c2: "calm w2" "rand_ok w2" "users (w_db w2) = users (w_db w)" "clean (w_auth w2) (clientIP r) ?e"
        "tokens_fresh l (3 * length gs) w2"
      and m: "m \<le> 2" "\<And>i. token_at w2 i = token_at w (i + 32 * (m + 1))"
      unfolding v(6,7) by blast
    obtain rs where rs: "run_state (guess_rounds l r gs) w2 = (rs, w')" "rounds = (w_resp w1, challenges (w_db w1)) # rs"
      using Cons.prems(6) 1 2 by (auto simp: v_def run_prims split: prod.splits)
    have "find (\<lambda>u. u_email u = ?e) (users (w_db w2)) = Some u" using Cons.prems(3) c2(3) by simp
    note rest = Cons.IH [OF c2(1,2) this clean_open [OF c2(4)] c2(5) rs(1)]
    then obtain ns where ns: "list_all2 (\<lambda>n. challenged l u k (token_at w2 (32 * n))) ns rs" "sorted_wrt (<) ns"
        "\<forall>n \<in> set ns. n < 3 * length gs" by blast
    let ?ns = "0 # map (\<lambda>n. n + (m + 1)) ns"
    have "token_at w2 (32 * n) = token_at w (32 * (n + (m + 1)))" for n
      using m(2) [of "32 * n"] by (simp add: algebra_simps)
    then have "list_all2 (\<lambda>n. challenged l u k (token_at w (32 * n))) ?ns rounds"
      using ns(1) a v(6) by (simp add: rs(2) list_all2_map1)
    moreover have "sorted_wrt (<) ?ns" using ns(2) by (simp add: sorted_wrt_map)
    moreover have "\<forall>n \<in> set ?ns. n < 3 * length (g # gs)" using ns(3) m(1) by fastforce
    moreover have "m_lockout (w_auth w') ?e = None"
      using rest c2(4) rs(1) by (cases gs) (auto simp: clean_def)
    moreover have "length rounds = length (g # gs)" "login_open w' (clientIP r) ?e" using rest rs(2) by simp_all
    ultimately show ?case by blast
  qed
  then obtain ns where ns: "list_all2 (\<lambda>n. challenged l u k (token_at w (32 * n))) ns rounds" "sorted_wrt (<) ns"
      "\<forall>n \<in> set ns. n < 3 * length gs"
    and rest: "length rounds = length gs" "login_open w' (clientIP r) ?e" "gs \<noteq> [] \<longrightarrow> m_lockout (w_auth w') ?e = None"
    by blast
  have "inj_on (\<lambda>n. token_at w (32 * n)) (set ns)"
    using fresh ns(3) unfolding tokens_fresh_def inj_on_def by (metis lessThan_iff)
  moreover have "distinct ns" using ns(2) strict_sorted_iff by blast
  ultimately have "distinct (map (\<lambda>n. token_at w (32 * n)) ns)" by (simp add: distinct_map)
  moreover have "list_all2 (challenged l u k) (map (\<lambda>n. token_at w (32 * n)) ns) rounds"
    using ns(1) by (simp add: list_all2_map1)
  ultimately show ?thesis using rest by blast
qed

text \<open>
  A login of one's own reopens the address.  After it, the window of the address is empty,
  whatever logins for other accounts had filled it: the limit per address does not bound an
  attacker who owns an account.
\<close>

theorem own_login_reopens_address:
  assumes w: "calm w" "rand_ok w"
    and body: "decodeJSON l (LoginRequest_fields l) zero_LoginRequest r = Some body"
      "decode_auth_hash (lr_auth_hash body) = Some h"
    and u: "find (\<lambda>u. u_email u = NormalizeEmail l (lr_email body)) (users (w_db w)) = Some u" "password_ok l u h"
    and gate: "login_open w (clientIP r) (NormalizeEmail l (lr_email body))"
    and run: "run_state (PostLogin l r) w = ((), w')"
  shows "rl_existing (m_loginIP (w_auth w')) (clientIP r) = []"
  using login_leaves_clean [OF w body u gate run] by (simp add: clean_def)

definition guess_user :: User where
  "guess_user = sample_user\<lparr>u_auth_salt := [7], u_auth_hash := argon2_IDKey sample_lib [65, 66, 67] [7] 2 19456 1 32,
     u_kdf := gen_KDFParams_json defaultGenKDFParams, u_totp_enabled := True\<rparr>"

lemma guess_user_ok: "password_ok sample_lib guess_user [65, 66, 67]" "u_totp_enabled guess_user"
    "u_email guess_user = ''ann@example.org''"
    "gen_KDFParams_Unmarshal sample_lib (u_kdf guess_user) = Some defaultGenKDFParams"
  by (simp_all add: guess_user_def sample_user_def password_ok_def DeriveServerAuthHash_default gen_KDFParams_roundtrip
      default_kdf_ok)

lemma sample_tokens_fresh: "challenges d = [] \<Longrightarrow> tokens_fresh sample_lib 6 (sample_world d)"
proof -
  assume d: "challenges d = []"
  let ?h = "\<lambda>n. sha256 sample_lib (to_bytes (token_at (sample_world d) (32 * n)))"
  have "hd (?h n) = byte_of_char (hex_digits ! (unat (of_nat (32 * n) :: byte) div 16))" for n
  proof -
    have "[0..<32] = 0 # [Suc 0..<32]" by (simp add: upt_rec)
    then show ?thesis
      by (simp add: token_at_def sample_lib_def pad_to_def to_bytes_def hex_EncodeToString_def hex_byte_def sample_rng_def)
  qed
  then have "distinct (map (\<lambda>n. hd (?h n)) [0..<6])" by (simp add: upt_rec hex_digits_def byte_of_char_def)
  then have "distinct (map ?h [0..<6])" by (auto simp: distinct_map inj_on_def)
  then show ?thesis by (simp add: tokens_fresh_def d distinct_map atLeast0LessThan)
qed

theorem second_factor_guesses_unlimited_witness:
  "\<exists>rounds w'. run_state (guess_rounds sample_lib sample_login [\<lambda>_. mfa_with ''no'', \<lambda>_. sample_login])
      (sample_world (empty_db\<lparr>users := [guess_user]\<rparr>)) = (rounds, w') \<and>
     length rounds = 2 \<and> list_all (\<lambda>(a, cs). rs_status a = 200 \<and> cs \<noteq> []) rounds"
proof -
  let ?w = "sample_world (empty_db\<lparr>users := [guess_user]\<rparr>)" and ?gs = "[\<lambda>_. mfa_with ''no'', \<lambda>_. sample_login]"
  obtain rounds w' where run: "run_state (guess_rounds sample_lib sample_login ?gs) ?w = (rounds, w')"
    by fastforce
  have f: "find (\<lambda>u. u_email u = NormalizeEmail sample_lib ''Ann@Example.org'') (users (w_db ?w)) = Some guess_user"
    by (simp add: sample_login_email guess_user_ok(3))
  have r: "rand_ok ?w" by (simp add: rand_ok_def sample_rng_def)
  have fresh: "tokens_fresh sample_lib (3 * length ?gs) ?w"
    using sample_tokens_fresh [of "empty_db\<lparr>users := [guess_user]\<rparr>"] by (simp add: empty_db_def)
  obtain toks where t: "list_all2 (challenged sample_lib guess_user defaultGenKDFParams) toks rounds" "length rounds = 2"
    using second_factor_guesses_unlimited [OF calm_sample r sample_login_body _ _ guess_user_ok(1,2,4) login_open_sample fresh run]
      f sample_hash by auto
  from t(1) have "list_all (\<lambda>(a, cs). rs_status a = 200 \<and> cs \<noteq> []) rounds"
    by (induction rule: list_all2_induct) (auto simp: challenged_def)
  with run t(2) show ?thesis by blast
qed

theorem own_login_reopens_address_witness:
  "\<exists>w'. run_state (PostLogin sample_lib sample_login) (sample_world (empty_db\<lparr>users := [guess_user]\<rparr>)) = ((), w') \<and>
     rl_existing (m_loginIP (w_auth w')) (clientIP sample_login) = []"
proof -
  let ?w = "sample_world (empty_db\<lparr>users := [guess_user]\<rparr>)"
  obtain w' where run: "run_state (PostLogin sample_lib sample_login) ?w = ((), w')" using run_unit by blast
  have f: "find (\<lambda>u. u_email u = NormalizeEmail sample_lib ''Ann@Example.org'') (users (w_db ?w)) = Some guess_user"
    by (simp add: sample_login_email guess_user_ok(3))
  have r: "rand_ok ?w" by (simp add: rand_ok_def sample_rng_def)
  show ?thesis
    using own_login_reopens_address [OF calm_sample r sample_login_body _ _ guess_user_ok(1) login_open_sample run]
      f sample_hash run by auto
qed

end
