(* ===== verification/KeyRotation.thy ===== *)
theory KeyRotation
  imports Accounts
begin

text \<open>
  Changing the master password (\<open>PUT /api/user/key\<close>, \<open>handlers.go\<close>): what it writes, what a
  later login makes of it, and what it leaves as it was.
\<close>

subsection \<open>The rotated row\<close>

definition rotated_row :: "lib \<Rightarrow> world \<Rightarrow> UpdateKeyRequest \<Rightarrow> bytes \<Rightarrow> User \<Rightarrow> User" where
  "rotated_row l w body h u =
     (let salt = map (rng_bytes (w_rng w)) [0..<16]
      in u\<lparr>u_auth_hash := argon2_IDKey l h salt 2 19456 1 32, u_auth_salt := salt,
           u_kdf := gen_KDFParams_json (uk_kdf body), u_psk := uk_psk body\<rparr>)"

lemma rotated_row_fields [simp]:
  "u_id (rotated_row l w body h u) = u_id u" "u_email (rotated_row l w body h u) = u_email u"
  "u_totp_enabled (rotated_row l w body h u) = u_totp_enabled u"
  "u_psk (rotated_row l w body h u) = uk_psk body"
  "u_kdf (rotated_row l w body h u) = gen_KDFParams_json (uk_kdf body)"
  by (simp_all add: rotated_row_def Let_def)

lemma rotated_password:
  assumes "h \<noteq> []"
  shows "password_ok l (rotated_row l w body h u) h' \<longleftrightarrow> h' \<noteq> [] \<and>
    argon2_IDKey l h' (map (rng_bytes (w_rng w)) [0..<16]) 2 19456 1 32 =
    argon2_IDKey l h (map (rng_bytes (w_rng w)) [0..<16]) 2 19456 1 32"
  using assms by (cases "h' = []") (auto simp: password_ok_def rotated_row_def Let_def
        DeriveServerAuthHash_default, simp_all add: DeriveServerAuthHash_def)

definition rotate :: "lib \<Rightarrow> world \<Rightarrow> UpdateKeyRequest \<Rightarrow> bytes \<Rightarrow> uuid \<Rightarrow> User list \<Rightarrow> User list" where
  "rotate l w body h uid us = map (\<lambda>u. if u_id u = uid then rotated_row l w body h u else u) us"

lemma find_rotated:
  assumes "distinct (map u_email us)" and "distinct (map u_id us)" and "u \<in> set us"
  shows "find (\<lambda>x. u_email x = u_email u) (rotate l w body h (u_id u) us) = Some (rotated_row l w body h u)"
    and "x \<in> set (rotate l w body h (u_id u) us) \<Longrightarrow> u_email x = u_email u \<Longrightarrow> x = rotated_row l w body h u"
proof -
  have only: "x = rotated_row l w body h u"
    if x: "x \<in> set (rotate l w body h (u_id u) us)" "u_email x = u_email u" for x
  proof -
    obtain y where y: "y \<in> set us" "x = (if u_id y = u_id u then rotated_row l w body h y else y)"
      using x(1) by (auto simp: rotate_def)
    then have "u_email y = u_email u" using x(2) by (auto split: if_splits)
    then have "y = u" using y(1) assms(1,3) by (metis inj_onD distinct_map)
    then show ?thesis using y(2) by simp
  qed
  then show "x \<in> set (rotate l w body h (u_id u) us) \<Longrightarrow> u_email x = u_email u \<Longrightarrow> x = rotated_row l w body h u" .
  have "rotated_row l w body h u \<in> set (rotate l w body h (u_id u) us)"
    using assms(3) by (force simp: rotate_def)
  then have "find (\<lambda>x. u_email x = u_email u) (rotate l w body h (u_id u) us) \<noteq> None"
    by (auto simp: find_None_iff)
  then obtain x where x: "find (\<lambda>x. u_email x = u_email u) (rotate l w body h (u_id u) us) = Some x" by blast
  then have "x \<in> set (rotate l w body h (u_id u) us)" "u_email x = u_email u"
    by (auto simp: find_Some_iff)
  with only x show "find (\<lambda>x. u_email x = u_email u) (rotate l w body h (u_id u) us) = Some (rotated_row l w body h u)"
    by simp
qed

lemma run_UpdateAuthCredentials:
  assumes "calm w" and "u \<in> set (users (w_db w))" and "u_id u = uid"
  shows "\<exists>x. run_state (UsersRepo_UpdateAuthCredentials uid h salt kdf psk) w =
    (Inr x, (passed w)\<lparr>w_db := set_users uid
       (\<lambda>u. u\<lparr>u_auth_hash := h, u_auth_salt := salt, u_kdf := kdf, u_psk := psk\<rparr>) (w_db w)\<rparr>)"
proof -
  have "find (\<lambda>u. u_id u = uid) (users (w_db w)) \<noteq> None" using assms(2,3) by (auto simp: find_None_iff)
  then show ?thesis
    using assms(1) by (auto simp: UsersRepo_UpdateAuthCredentials_def queries_defs run_simps sql_step_def
        updateUserAuthCredentials_def scanUser_def one_row_def Let_def passed_def)
qed

lemma rotation_succeeds:
  assumes w: "calm w" "rand_ok w" "rs_sent (w_resp w) = None" and ctx: "cx_user_id r = Some uid"
    and u: "u \<in> set (users (w_db w))" "u_id u = uid"
    and body: "decodeJSON l (UpdateKeyRequest_fields l) zero_UpdateKeyRequest r = Some body"
      "decode_auth_hash (uk_auth_hash body) = Some h" "validateCiphertext (uk_psk body) = None"
  shows "\<exists>w'. run_state (PutUserKey l r) w = ((), w') \<and> rs_status (w_resp w') = 200 \<and>
    users (w_db w') = rotate l w body h uid (users (w_db w)) \<and>
    sessions (w_db w') = sessions (w_db w) \<and> items (w_db w') = items (w_db w)"
proof -
  let ?salt = "map (rng_bytes (w_rng w)) [0..<16]"
  let ?hash = "argon2_IDKey l h ?salt 2 19456 1 32"
  have h: "h \<noteq> []" using body(2) by (auto simp: decode_auth_hash_def split: option.splits if_splits)
  define w1 where "w1 = (drawn 16 w)\<lparr>w_kdf := w_kdf w + 1\<rparr>"
  have 1: "calm w1" "w_db w1 = w_db w" "w_resp w1 = w_resp w" using w(1) by (simp_all add: w1_def)
  define w2 where "w2 = (passed w1)\<lparr>w_db := set_users uid (\<lambda>u. u\<lparr>u_auth_hash := ?hash, u_auth_salt := ?salt,
      u_kdf := gen_KDFParams_json (uk_kdf body), u_psk := uk_psk body\<rparr>) (w_db w)\<rparr>"
  obtain x where upd: "run_state (UsersRepo_UpdateAuthCredentials uid ?hash ?salt (gen_KDFParams_json (uk_kdf body))
      (uk_psk body)) w1 = (Inr x, w2)"
    using run_UpdateAuthCredentials [OF 1(1) _ u(2), of ?hash ?salt "gen_KDFParams_json (uk_kdf body)" "uk_psk body"]
      u(1) 1(2) w2_def by auto
  have 2: "calm w2" "w_resp w2 = w_resp w" using 1 by (simp_all add: w2_def)
  have "users (w_db w2) = rotate l w body h uid (users (w_db w))" "sessions (w_db w2) = sessions (w_db w)"
    "items (w_db w2) = items (w_db w)"
    by (simp_all add: w2_def set_users_def rotate_def rotated_row_def Let_def)
  moreover have "EventKeyRotation \<noteq> EventLoginFailure" "EventKeyRotation \<noteq> EventLoginSuccess"
    by (simp_all add: EventKeyRotation_def EventLoginFailure_def EventLoginSuccess_def)
  then have "run_state (recordEvent l r (Some uid) EventKeyRotation None JNull) w2 =
      ((), recorded l r (Some uid) EventKeyRotation None JNull w2)"
    using run_recordEvent [OF 2(1)] by blast
  then have "run_state (PutUserKey l r) w = ((), (recorded l r (Some uid) EventKeyRotation None JNull w2)
      \<lparr>w_resp := rs_write_header 200 (w_resp w2)\<rparr>)"
    using w(2) h upd by (simp add: PutUserKey_def ctx body run_NewServerSalt run_server_hash w1_def
        WriteHeader_def run_prims)
  ultimately show ?thesis
    using w(3) 2(2) by (simp add: recorded_tables rs_write_header_fresh)
qed


subsection \<open>A concrete rotation\<close>

definition sample_rotation :: request where
  "sample_rotation = (sample_request ''PUT'' ''/api/user/key''
     (JObj [(''auth_hash'', JStr ''QUJD''), (''kdf_params'', gen_KDFParams_json defaultGenKDFParams),
        (''protected_symmetric_key'', JStr ''QUI='')]))\<lparr>cx_user_id := Some (UUID 1)\<rparr>"

lemma UpdateKeyRequest_find [simp]:
  "find_field l (UpdateKeyRequest_fields l) ''auth_hash'' = Some (dec_string (\<lambda>s q. q\<lparr>uk_auth_hash := s\<rparr>))"
  "find_field l (UpdateKeyRequest_fields l) ''kdf_params'' =
     Some (dec_nested l True gen_KDFParams_fields uk_kdf (\<lambda>k q. q\<lparr>uk_kdf := k\<rparr>))"
  "find_field l (UpdateKeyRequest_fields l) ''protected_symmetric_key'' = Some (dec_string (\<lambda>s q. q\<lparr>uk_psk := s\<rparr>))"
  by (simp_all add: find_field_def fold_name_def UpdateKeyRequest_fields_def ascii_upper_def ascii_def)

lemma sample_rotation_body:
  "decodeJSON sample_lib (UpdateKeyRequest_fields sample_lib) zero_UpdateKeyRequest sample_rotation =
     Some \<lparr>uk_auth_hash = ''QUJD'', uk_kdf = defaultGenKDFParams, uk_psk = ''QUI=''\<rparr>"
  by (simp add: decodeJSON_def sample_rotation_def sample_request_def
      decode_struct_def [of _ _ "UpdateKeyRequest_fields _"] zero_UpdateKeyRequest_def dec_string_def
      dec_nested_def gen_KDFParams_decode default_kdf_ok)


end
