(* ===== verification/Deletion.thy ===== *)
theory Deletion
  imports SecondFactor
begin

text \<open>
  Deleting an account (\<open>DELETE /api/user\<close>), and replacing its recovery codes in one
  transaction.
\<close>

subsection \<open>Account deletion\<close>

definition no_trace :: "uuid \<Rightarrow> db \<Rightarrow> bool" where
  "no_trace uid d = (
     (\<forall>u \<in> set (users d). u_id u \<noteq> uid) \<and> (\<forall>i \<in> set (items d). i_user i \<noteq> uid) \<and>
     (\<forall>s \<in> set (sessions d). s_user s \<noteq> uid) \<and> (\<forall>r \<in> set (recovery d). rc_user r \<noteq> uid) \<and>
     (\<forall>c \<in> set (challenges d). ch_user c \<noteq> uid) \<and> (\<forall>e \<in> set (audits d). au_user e \<noteq> Some uid) \<and>
     (\<forall>(u, h) \<in> set (devices d). u \<noteq> uid))"

lemma no_trace_cascade: "no_trace uid (cascade_user uid d)"
  by (auto simp: no_trace_def cascade_user_def)

lemma append_after_delete:
  "\<not> user_exists d uid \<Longrightarrow> \<exists>e. appendAuditEvent (Some uid) ty ip ua res m now fresh d = (Inl e, d)"
  by (simp add: appendAuditEvent_def)

lemma cascade_removes_user: "\<not> user_exists (cascade_user uid d) uid"
  by (auto simp: user_exists_def cascade_user_def list_ex_iff)

lemma cascade_sessions: "cascade_user uid (d\<lparr>sessions := filter (\<lambda>s. s_user s \<noteq> uid) (sessions d)\<rparr>) = cascade_user uid d"
  by (simp add: cascade_user_def)



subsection \<open>Replacing recovery codes\<close>

text \<open>The recovery rows of a user after a set of hashes was inserted with the given ids.\<close>

lemma tx_inserts:
  "tx_stmts es (map (\<lambda>h. (''insert recovery code'', insertRecoveryCode uid h)) hs) d = (Inr (), d', es') \<Longrightarrow>
   \<exists>rows. recovery d' = recovery d @ rows \<and> map rc_hash rows = hs \<and>
     (\<forall>r \<in> set rows. rc_user r = uid \<and> rc_used r = None) \<and> d' = d\<lparr>recovery := recovery d @ rows\<rparr>"
proof (induction hs arbitrary: es d)
  case Nil
  then show ?case by (intro exI [of _ "[]"]) simp
next
  case (Cons h hs)
  let ?e = "es 0"
  obtain q d1 where s: "insertRecoveryCode uid h (ev_now ?e) (ev_uuid ?e) d = (q, d1)" by fastforce
  from Cons.prems s have q: "q = Inr ()" and rest:
    "tx_stmts (\<lambda>i. es (Suc i)) (map (\<lambda>h. (''insert recovery code'', insertRecoveryCode uid h)) hs) d1 = (Inr (), d', es')"
    by (auto simp: Let_def split: trip.splits sum.splits)
  let ?row = "\<lparr>rc_id = ev_uuid ?e, rc_user = uid, rc_hash = h, rc_used = None\<rparr>"
  have d1: "d1 = d\<lparr>recovery := recovery d @ [?row]\<rparr>"
    using s q by (auto simp: insertRecoveryCode_def split: if_splits)
  from Cons.IH [OF rest] obtain rows where
    "recovery d' = recovery d1 @ rows" "map rc_hash rows = hs"
    "\<forall>r \<in> set rows. rc_user r = uid \<and> rc_used r = None" "d' = d1\<lparr>recovery := recovery d1 @ rows\<rparr>" by blast
  then show ?case by (intro exI [of _ "?row # rows"]) (simp add: d1)
qed

definition replaced_codes :: "uuid \<Rightarrow> bytes list \<Rightarrow> db \<Rightarrow> db \<Rightarrow> bool" where
  "replaced_codes uid hashes d d' = (\<exists>rows. map rc_hash rows = hashes \<and>
     (\<forall>r \<in> set rows. rc_user r = uid \<and> rc_used r = None) \<and>
     d' = d\<lparr>recovery := filter (\<lambda>r. rc_user r \<noteq> uid) (recovery d) @ rows\<rparr>)"

lemma tx_replaces:
  assumes "tx_stmts es ((''delete recovery codes'', deleteRecoveryCodesForUser uid) #
      map (\<lambda>h. (''insert recovery code'', insertRecoveryCode uid h)) hs) d = (Inr (), d', es')"
  shows "replaced_codes uid hs d d'"
proof -
  let ?d1 = "d\<lparr>recovery := filter (\<lambda>r. rc_user r \<noteq> uid) (recovery d)\<rparr>"
  have "tx_stmts (\<lambda>i. es (Suc i)) (map (\<lambda>h. (''insert recovery code'', insertRecoveryCode uid h)) hs) ?d1 =
      (Inr (), d', es')"
    using assms by (auto simp: Let_def deleteRecoveryCodesForUser_def split: trip.splits)
  from tx_inserts [OF this] show ?thesis unfolding replaced_codes_def by fastforce
qed

text \<open>
  Recovery codes are replaced all or not at all.  Whatever fails on the way, a
  replacement leaves the database as it found it or with exactly the new codes, unused, in
  place of all codes the user had; when it reports success it is the latter.
\<close>

theorem recovery_codes_replaced_atomically:
  assumes "\<And>n d. ev_others (w_events w n) d = d"
    and run: "run_state (MFARepo_ReplaceRecoveryCodes uid hashes) w = (res, w')"
  shows "(w_db w' = w_db w \<or> replaced_codes uid hashes (w_db w) (w_db w')) \<and>
    (res = Inr () \<longrightarrow> replaced_codes uid hashes (w_db w) (w_db w'))"
proof -
  let ?ss = "(''delete recovery codes'', deleteRecoveryCodesForUser uid) #
      map (\<lambda>h. (''insert recovery code'', insertRecoveryCode uid h)) hashes"
  have d: "w_db (next_event w) = w_db w" using assms(1) by (simp add: next_event_def)
  obtain q d' es' where t: "tx_stmts (w_events (next_event w)) ?ss (w_db w) = (q, d', es')"
    by (metis prod_cases3)
  have "q = Inr () \<Longrightarrow> replaced_codes uid hashes (w_db w) d'" using tx_replaces t by blast
  then show ?thesis
    using run t d
    by (auto simp: MFARepo_ReplaceRecoveryCodes_def db_tx_def Let_def split: trip.splits sum.splits)
qed

theorem recovery_codes_replaced_atomically_witness:
  "\<exists>res w'. run_state (MFARepo_ReplaceRecoveryCodes (UUID 1) [[2], [3]]) (sample_world mfa_db) = (res, w') \<and>
     (w_db w' = mfa_db \<or> replaced_codes (UUID 1) [[2], [3]] mfa_db (w_db w'))"
proof -
  obtain res w' where run: "run_state (MFARepo_ReplaceRecoveryCodes (UUID 1) [[2], [3]]) (sample_world mfa_db) = (res, w')"
    by fastforce
  then show ?thesis
    using recovery_codes_replaced_atomically [OF _ run] by auto
qed

end
