(* ===== verification/Enrolment.thy ===== *)
theory Enrolment
  imports Deletion Accounts
begin

text \<open>
  Enabling the second factor (\<open>POST /api/user/2fa/enroll\<close>, \<open>handlers_phase5.go\<close>): two writes
  that are not one transaction, and what is left when the second one fails.
\<close>

interpretation beside_codes: db_relation UNIV "\<lambda>d d'. users d' = users d \<and> recovery d' = recovery d"
  by unfold_locales auto

lemma append_beside: "stmt_within (\<lambda>d d'. users d' = users d \<and> recovery d' = recovery d) (appendAuditEvent uo ty ip ua res m)"
  by (auto simp: stmt_within_def appendAuditEvent_def Let_def)

lemma device_beside: "stmt_within (\<lambda>d d'. users d' = users d \<and> recovery d' = recovery d) (recordDeviceHash u h)"
  by (auto simp: stmt_within_def recordDeviceHash_def Let_def)

lemma record_beside: "within (\<lambda>d d'. users d' = users d \<and> recovery d' = recovery d) (recordEvent l r uo ty res m)"
  unfolding recordEvent_def audit_repo_defs queries_defs
  by (intro beside_codes.within_rules beside_codes.within_exec append_beside device_beside)

definition alone :: "world \<Rightarrow> bool" where
  "alone w = (\<forall>n d. ev_others (w_events w n) d = d)"

lemma run_status_served:
  assumes "alone w" and "ev_trip (w_events w 0) = Served" and "find (\<lambda>u. u_id u = uid) (users (w_db w)) = Some u"
  shows "run_state (MFARepo_GetTOTPStatus uid) w = (Inr (u_totp_enabled u, u_ptotp u), passed w)"
  using assms by (simp add: MFARepo_GetTOTPStatus_def queries_defs run_try run_exec_served alone_def
      getUserTOTPStatus_def one_row_def passed_def)

definition with_totp :: "uuid \<Rightarrow> string \<Rightarrow> db \<Rightarrow> db" where
  "with_totp uid secret = set_users uid (\<lambda>u. u\<lparr>u_totp_enabled := True, u_ptotp := Some secret\<rparr>)"

lemma run_enable_served:
  assumes "alone w" and "ev_trip (w_events w 0) = Served" and "find (\<lambda>u. u_id u = uid) (users (w_db w)) = Some u"
  shows "run_state (MFARepo_EnableTOTP uid secret) w =
    (Inr (), (passed w)\<lparr>w_db := with_totp uid secret (w_db w)\<rparr>)"
proof -
  have "filter (\<lambda>u. u_id u = uid) (users (w_db w)) \<noteq> []"
    using assms(3) by (auto simp: filter_empty_conv find_Some_iff)
  then show ?thesis
    using assms(1,2) by (simp add: MFARepo_EnableTOTP_def queries_defs run_try run_exec_served alone_def
        enableUserTOTP_def with_totp_def passed_def)
qed

lemma find_with_totp:
  assumes "find (\<lambda>u. u_id u = uid) (users d) = Some u"
  obtains v where "find (\<lambda>u. u_id u = uid) (users (with_totp uid secret d)) = Some v" "u_totp_enabled v"
proof -
  have "find (\<lambda>u. u_id u = uid) (map (\<lambda>u. if u_id u = uid then u\<lparr>u_totp_enabled := True, u_ptotp := Some secret\<rparr> else u) us)
      = map_option (\<lambda>u. u\<lparr>u_totp_enabled := True, u_ptotp := Some secret\<rparr>) (find (\<lambda>u. u_id u = uid) us)" for us
    by (induction us) auto
  note find_map = this
  show ?thesis
    by (rule that [of "u\<lparr>u_totp_enabled := True, u_ptotp := Some secret\<rparr>"])
       (use find_map [of "users d"] assms in \<open>simp_all add: with_totp_def set_users_def\<close>)
qed

text \<open>Issuing the codes: what a success stored, and that only the codes change.\<close>

interpretation users_kept: db_relation UNIV "\<lambda>d d'. users d' = users d"
  by unfold_locales auto

lemma codes_keep_users: "within (\<lambda>d d'. users d' = users d) (issue_recovery_codes l uid a b)"
  unfolding issue_recovery_codes_def MFARepo_ReplaceRecoveryCodes_def
  by (intro users_kept.within_rules users_kept.within_tx)
     (auto simp: list_all_iff stmt_within_def deleteRecoveryCodesForUser_def insertRecoveryCode_def)

lemma issue_codes_resp: "w_resp (snd (run_state (issue_recovery_codes l uid a b) w)) = w_resp w"
  by (simp add: issue_recovery_codes_def MFARepo_ReplaceRecoveryCodes_def prims_keep_resp split_beta split: sum.split)

lemma issue_codes_run:
  assumes "alone w" and run: "run_state (issue_recovery_codes l uid a b) w = (res, w')"
  shows "users (w_db w') = users (w_db w) \<and> w_resp w' = w_resp w \<and> alone w'"
    and "res = Inr codes \<Longrightarrow> length codes = 10 \<and> replaced_codes uid (map (HashRecoveryCode l) codes) (w_db w) (w_db w')"
    and "ev_trip (w_events w 0) \<noteq> Served \<Longrightarrow> \<exists>x. res = Inl x \<and> recovery (w_db w') = recovery (w_db w)"
proof -
  have "rely (\<lambda>d d'. users d' = users d) w" using assms(1) by (simp add: alone_def rely_def)
  from withinD [OF codes_keep_users this run]
  have u: "users (w_db w') = users (w_db w)" and e: "range (w_events w') \<subseteq> range (w_events w)" by auto
  have "alone w'" unfolding alone_def
  proof (intro allI)
    fix n d
    obtain m where "w_events w' n = w_events w m" using e by (metis rangeE range_subsetD)
    then show "ev_others (w_events w' n) d = d" using assms(1) by (simp add: alone_def)
  qed
  obtain gen g where gen: "run_state (GenerateRecoveryCodes l) (w_rng w) = (gen, g)" by fastforce
  let ?w1 = "w\<lparr>w_rng := g\<rparr>"
  have lift: "run_state (lift_rng (GenerateRecoveryCodes l)) w = (gen, ?w1)" by (simp add: run_lift_rng gen)
  have 1: "w_db ?w1 = w_db w" "w_resp ?w1 = w_resp w" "w_events ?w1 = w_events w" by simp_all
  show "users (w_db w') = users (w_db w) \<and> w_resp w' = w_resp w \<and> alone w'"
    using u \<open>alone w'\<close> issue_codes_resp run by (metis snd_conv)
  show "length codes = 10 \<and> replaced_codes uid (map (HashRecoveryCode l) codes) (w_db w) (w_db w')" if "res = Inr codes"
  proof (cases gen)
    case (Inl e)
    then show ?thesis using run that by (simp add: issue_recovery_codes_def lift)
  next
    case (Inr p)
    then obtain cs hs where p: "gen = Inr (cs, hs)" by (cases p) auto
    obtain q v where rep: "run_state (MFARepo_ReplaceRecoveryCodes uid hs) ?w1 = (q, v)" by fastforce
    have "res = (case q of Inl e \<Rightarrow> Inl (b, e) | Inr _ \<Rightarrow> Inr cs)" "w' = v"
      using run by (simp_all add: issue_recovery_codes_def lift p rep)
    then have "q = Inr ()" "cs = codes" "w' = v" using that by (auto split: sum.splits)
    moreover have "hs = map (HashRecoveryCode l) cs" "length cs = 10"
      using GenerateRecoveryCodes_Inr(1,2) gen p by blast+
    ultimately show ?thesis
      using recovery_codes_replaced_atomically [OF _ rep] assms(1) 1 by (simp add: alone_def)
  qed
  show "\<exists>x. res = Inl x \<and> recovery (w_db w') = recovery (w_db w)" if f: "ev_trip (w_events w 0) \<noteq> Served"
  proof (cases gen)
    case (Inl e)
    then show ?thesis using run by (auto simp: issue_recovery_codes_def lift)
  next
    case (Inr p)
    then obtain cs hs where p: "gen = Inr (cs, hs)" by (cases p) auto
    obtain q v where rep: "run_state (MFARepo_ReplaceRecoveryCodes uid hs) ?w1 = (q, v)" by fastforce
    have "(\<exists>e. q = Inl e) \<and> w_db v = w_db w"
      using rep f assms(1) unfolding MFARepo_ReplaceRecoveryCodes_def db_tx_def
      by (cases "ev_trip (w_events w 0)") (auto simp: alone_def next_event_def Let_def)
    then show ?thesis using run by (auto simp: issue_recovery_codes_def lift p rep)
  qed
qed

subsection \<open>Enrolling\<close>

text \<open>The hashes of these codes, unused, in place of the user's codes.\<close>

definition codes_issued :: "lib \<Rightarrow> uuid \<Rightarrow> string list \<Rightarrow> db \<Rightarrow> db \<Rightarrow> bool" where
  "codes_issued l uid codes d d' = (\<exists>rows. map rc_hash rows = map (HashRecoveryCode l) codes \<and>
     (\<forall>r \<in> set rows. rc_user r = uid \<and> rc_used r = None) \<and>
     recovery d' = filter (\<lambda>r. rc_user r \<noteq> uid) (recovery d) @ rows)"

lemma replaced_issued:
  "replaced_codes uid (map (HashRecoveryCode l) codes) d1 d2 \<Longrightarrow> recovery d1 = recovery d \<Longrightarrow>
   recovery d' = recovery d2 \<Longrightarrow> codes_issued l uid codes d d'"
  by (auto simp: replaced_codes_def codes_issued_def)

definition good_code :: "lib \<Rightarrow> time \<Rightarrow> Enroll2faRequest \<Rightarrow> bool" where
  "good_code l now body = (let secret = TrimSpace l (ToUpper l (en_secret body)); code = TrimSpace l (en_code body)
     in totp_checkable l secret code \<and> totp_Validate l now code secret)"

lemma run_good_code:
  "good_code l (w_clock w 0) body \<Longrightarrow> run_state (ValidateTOTP l (en_secret body) (en_code body)) w = (True, tick w)"
  by (simp add: good_code_def ValidateTOTP_def Let_def run_time_Now)

lemma enrol_already:
  assumes v: "calm v" "w_resp v = fresh_response" and ctx: "cx_user_id q = Some uid"
    and u: "find (\<lambda>u. u_id u = uid) (users (w_db v)) = Some u" "u_totp_enabled u"
    and body: "decodeJSON l Enroll2faRequest_fields zero_Enroll2faRequest q = Some body"
      "validateCiphertext (en_ptotp body) = None" "good_code l (w_clock v 0) body"
    and run: "run_state (PostUser2faEnroll l q) v = ((), v')"
  shows "rs_status (w_resp v') = 400 \<and> rs_body (w_resp v') = [BJson (gen_Error ''2FA is already enabled'')] \<and>
    w_db v' = w_db v"
proof -
  have a: "alone (tick v)" "ev_trip (w_events (tick v) 0) = Served" using v(1) by (simp_all add: alone_def calm_def)
  have "run_state (ValidateTOTP l (en_secret body) (en_code body)) v = (True, tick v)"
    using body(3) by (rule run_good_code)
  with run_status_served [OF a, of uid u] run u show ?thesis
    by (auto simp: PostUser2faEnroll_def ctx body(1,2) writeJSON_def run_prims v(2) fresh_response_def response_defs)
qed


lemma enrol_outcome:
  assumes w: "alone w" "ev_trip (w_events w 0) = Served" "ev_trip (w_events w 1) = Served" "w_resp w = fresh_response"
    and ctx: "cx_user_id r = Some uid"
    and u: "find (\<lambda>u. u_id u = uid) (users (w_db w)) = Some u" "\<not> u_totp_enabled u"
    and body: "decodeJSON l Enroll2faRequest_fields zero_Enroll2faRequest r = Some body"
      "validateCiphertext (en_ptotp body) = None" "good_code l (w_clock w 0) body"
    and run: "run_state (PostUser2faEnroll l r) w = ((), w')"
  shows "users (w_db w') = users (with_totp uid (en_ptotp body) (w_db w)) \<and>
    (rs_status (w_resp w') = 200 \<and>
       (\<exists>codes. rs_body (w_resp w') = [BJson (RecoveryCodesResponse codes)] \<and> length codes = 10 \<and>
          codes_issued l uid codes (w_db w) (w_db w')) \<or>
     rs_status (w_resp w') = 500 \<and> rs_body (w_resp w') = [BJson (gen_Error internal)]) \<and>
    (ev_trip (w_events w 2) \<noteq> Served \<longrightarrow> rs_status (w_resp w') = 500 \<and> recovery (w_db w') = recovery (w_db w))"
proof -
  define w1 where "w1 = (passed (passed (tick w)))\<lparr>w_db := with_totp uid (en_ptotp body) (w_db w)\<rparr>"
  let ?a = "''2fa enroll: recovery codes''" and ?b = "''2fa enroll: store recovery''"
  obtain res w2 where issue: "run_state (issue_recovery_codes l uid ?a ?b) w1 = (res, w2)" by fastforce
  have a: "alone (tick w)" "alone (passed (tick w))" "alone w1" using w(1) by (simp_all add: alone_def w1_def)
  have t: "ev_trip (w_events (tick w) 0) = Served" "ev_trip (w_events (passed (tick w)) 0) = Served"
    using w(2,3) by simp_all
  have status: "run_state (MFARepo_GetTOTPStatus uid) (tick w) = (Inr (False, u_ptotp u), passed (tick w))"
    using run_status_served [OF a(1) t(1), of uid u] u by simp
  have enable: "run_state (MFARepo_EnableTOTP uid (en_ptotp body)) (passed (tick w)) = (Inr (), w1)"
    using run_enable_served [OF a(2) t(2), of uid u] u(1) by (simp add: w1_def passed_def)
  note start = PostUser2faEnroll_def ctx body(1,2) run_good_code [OF body(3)] status enable issue
  note issued = issue_codes_run [OF a(3) issue]
  have w2: "users (w_db w2) = users (with_totp uid (en_ptotp body) (w_db w))" "w_resp w2 = fresh_response"
    using issued(1) w(4) by (simp_all add: w1_def)
  have rec1: "recovery (w_db w1) = recovery (w_db w)" by (simp add: w1_def with_totp_def set_users_def)
  show ?thesis
  proof (cases res)
    case (Inl oe)
    then have "w_db w' = w_db w2" "w_resp w' = rs_json 500 (gen_Error internal) fresh_response"
      using run w2(2) by (auto simp: start fail500_def logInternalError_def writeJSON_def run_prims split: prod.splits)
    then show ?thesis
      using w2(1) issued(3) rec1 by (auto simp: rs_json_fresh fresh_response_def w1_def numeral_2_eq_2)
  next
    case (Inr codes)
    obtain w3 where audit: "run_state (recordEvent l r (Some uid) Event2FAEnroll None JNull) w2 = ((), w3)"
      using run_unit by blast
    have "rely (\<lambda>d d'. users d' = users d \<and> recovery d' = recovery d) w2"
      using issued(1) by (simp add: alone_def rely_def)
    from withinD [OF record_beside this audit]
    have "users (w_db w3) = users (w_db w2)" "recovery (w_db w3) = recovery (w_db w2)" by auto
    moreover have "w_resp w3 = fresh_response" using keepsD [OF silent_recordEvent audit] w2(2) by simp
    moreover have "w' = w3\<lparr>w_resp := rs_json 200 (RecoveryCodesResponse codes) (w_resp w3)\<rparr>"
      using run by (simp add: start Inr audit writeJSON_def run_prims)
    moreover have "length codes = 10" "codes_issued l uid codes (w_db w) (w_db w3)"
      using issued(2) [OF Inr] replaced_issued [OF _ rec1] calculation(2) by auto
    ultimately show ?thesis
      using w2(1) issued(3) Inr by (auto simp: rs_json_fresh fresh_response_def w1_def numeral_2_eq_2)
  qed
qed

text \<open>
  C26: enrolment is not atomic.  Once the secret is stored, the second factor is on, whatever
  happens next: either the request is answered 200 with ten codes whose hashes have replaced
  the user's codes, or 500 without any, as whenever the transaction that stores them cannot
  begin.  A user left so has a second factor and no recovery code, and cannot repair it by
  enrolling again: every further attempt is answered 400 and changes nothing.
\<close>

theorem enrolment_not_atomic:
  assumes w: "alone w" "ev_trip (w_events w 0) = Served" "ev_trip (w_events w 1) = Served" "w_resp w = fresh_response"
    and ctx: "cx_user_id r = Some uid" "cx_user_id q = Some uid"
    and u: "find (\<lambda>u. u_id u = uid) (users (w_db w)) = Some u" "\<not> u_totp_enabled u"
    and body: "decodeJSON l Enroll2faRequest_fields zero_Enroll2faRequest r = Some body"
      "validateCiphertext (en_ptotp body) = None" "good_code l (w_clock w 0) body"
    and run: "run_state (PostUser2faEnroll l r) w = ((), w')"
    and v: "calm v" "w_resp v = fresh_response" "users (w_db v) = users (w_db w')"
    and again: "decodeJSON l Enroll2faRequest_fields zero_Enroll2faRequest q = Some body'"
      "validateCiphertext (en_ptotp body') = None" "good_code l (w_clock v 0) body'"
      "run_state (PostUser2faEnroll l q) v = ((), v')"
  shows "users (w_db w') = users (with_totp uid (en_ptotp body) (w_db w)) \<and>
    (rs_status (w_resp w') = 200 \<and>
       (\<exists>codes. rs_body (w_resp w') = [BJson (RecoveryCodesResponse codes)] \<and> length codes = 10 \<and>
          codes_issued l uid codes (w_db w) (w_db w')) \<or>
     rs_status (w_resp w') = 500 \<and> rs_body (w_resp w') = [BJson (gen_Error internal)]) \<and>
    (ev_trip (w_events w 2) \<noteq> Served \<longrightarrow> rs_status (w_resp w') = 500 \<and> recovery (w_db w') = recovery (w_db w)) \<and>
    rs_status (w_resp v') = 400 \<and> w_db v' = w_db v"
proof -
  note new = enrol_outcome [OF w ctx(1) u body run]
  obtain x where "find (\<lambda>u. u_id u = uid) (users (w_db v)) = Some x" "u_totp_enabled x"
    using find_with_totp [OF u(1), of "en_ptotp body"] new v(3) by metis
  from enrol_already [OF v(1,2) ctx(2) this again] new show ?thesis by blast
qed

subsection \<open>A concrete enrolment\<close>

definition sample_enrol :: request where
  "sample_enrol = (sample_request ''POST'' ''/api/user/2fa/enroll''
     (JObj [(''protected_totp_secret'', JStr ''QQ==''), (''totp_code'', JStr ''123456''),
        (''totp_secret'', JStr ''ABCDEFGH'')]))\<lparr>cx_user_id := Some (UUID 1)\<rparr>"

lemma sample_enrol_body:
  "decodeJSON sample_lib Enroll2faRequest_fields zero_Enroll2faRequest sample_enrol =
     Some \<lparr>en_ptotp = ''QQ=='', en_code = ''123456'', en_secret = ''ABCDEFGH''\<rparr>"
  by (simp add: decodeJSON_def sample_enrol_def sample_request_def json_defs Enroll2faRequest_fields_def
      zero_Enroll2faRequest_def fold_name_def ascii_upper_def ascii_def)

lemma sample_code: "good_code sample_lib now \<lparr>en_ptotp = p, en_code = ''123456'', en_secret = ''ABCDEFGH''\<rparr>"
  using sample_totp by (simp add: good_code_def Let_def)

definition cut_world :: world where
  "cut_world = (sample_world sample_db)\<lparr>w_events := (\<lambda>n. if n = 2
     then (sample_event n)\<lparr>ev_trip := Unsent ''connection reset''\<rparr> else sample_event n)\<rparr>"

theorem enrolment_not_atomic_witness:
  "\<exists>w' v'. run_state (PostUser2faEnroll sample_lib sample_enrol) cut_world = ((), w') \<and>
     rs_status (w_resp w') = 500 \<and> recovery (w_db w') = [] \<and>
     run_state (PostUser2faEnroll sample_lib sample_enrol)
       (sample_world (sample_db\<lparr>users := users (w_db w')\<rparr>)) = ((), v') \<and> rs_status (w_resp v') = 400"
proof -
  obtain w' where run: "run_state (PostUser2faEnroll sample_lib sample_enrol) cut_world = ((), w')"
    using run_unit by blast
  obtain v' where again: "run_state (PostUser2faEnroll sample_lib sample_enrol)
      (sample_world (sample_db\<lparr>users := users (w_db w')\<rparr>)) = ((), v')" using run_unit by blast
  have w: "alone cut_world" "ev_trip (w_events cut_world 0) = Served" "ev_trip (w_events cut_world 1) = Served"
      "w_resp cut_world = fresh_response" "ev_trip (w_events cut_world 2) \<noteq> Served" "recovery (w_db cut_world) = []"
    by (simp_all add: alone_def cut_world_def sample_db_def empty_db_def)
  have u: "find (\<lambda>u. u_id u = UUID 1) (users (w_db cut_world)) = Some sample_user" "\<not> u_totp_enabled sample_user"
      "cx_user_id sample_enrol = Some (UUID 1)"
    by (simp_all add: cut_world_def sample_db_def sample_user_def sample_enrol_def)
  show ?thesis
    using enrolment_not_atomic [OF w(1-4) u(3,3,1,2) sample_enrol_body _ _ run _ _ _ sample_enrol_body _ _ again]
      run again w(5,6) sample_psk sample_code by auto
qed

end
