(* ===== verification/Guards.thy ===== *)
theory Guards
  imports LoginSafety
begin

text \<open>
  What the router and the middlewares guarantee for every request, whatever its route: safe
  methods only read, state changes need the CSRF header and a session, every response
  carries the security headers, panics are contained.
\<close>

subsection \<open>Programs that change nothing\<close>

definition no_cookies :: "response \<Rightarrow> bool" where
  "no_cookies rs = (rs_cookies rs = [] \<and> (\<forall>c h cs. rs_sent rs = Some (c, h, cs) \<longrightarrow> cs = []))"

definition harmless :: "world \<Rightarrow> world \<Rightarrow> bool" where
  "harmless w w' = (rely (=) w \<longrightarrow> rely (=) w' \<and> w_db w' = w_db w \<and> w_auth w' = w_auth w \<and>
     (no_cookies (w_resp w) \<longrightarrow> no_cookies (w_resp w')))"

interpretation harm: world_frame harmless
  by unfold_locales (auto simp: harmless_def)

lemma no_cookies_fresh: "no_cookies fresh_response"
  by (simp add: no_cookies_def fresh_response_def)

lemma no_cookies_sent: "no_cookies rs \<Longrightarrow> sent_cookies rs = []"
  by (auto simp: no_cookies_def sent_cookies_def split: option.split)

lemma harmless_pure:
  "(\<And>w. w_db (snd (run_state p w)) = w_db w \<and> w_events (snd (run_state p w)) = w_events w \<and>
      w_auth (snd (run_state p w)) = w_auth w \<and>
      (no_cookies (w_resp w) \<longrightarrow> no_cookies (w_resp (snd (run_state p w))))) \<Longrightarrow> keeps harmless p"
  by (simp add: keeps_def harmless_def rely_def)

lemma harmless_prims:
  "keeps harmless time_Now" "keeps harmless (lift_rng m)" "keeps harmless (log_it e)"
  "keeps harmless (get_auth q)" "keeps harmless (server_hash l h s)"
  "keeps harmless (writeJSON n j)" "keeps harmless (WriteHeader n)"
  "keeps harmless (respond (rs_set k v))" "keeps harmless (respond (rs_write b))"
  "keeps harmless (respond (rs_write_header n))"
  by (rule harmless_pure, auto simp: prim_defs writeJSON_def WriteHeader_def no_cookies_def
      rs_json_def rs_write_def rs_write_header_def rs_set_def Let_def split: option.splits prod.splits)+

lemma harmless_read: "(\<And>now fresh d. s now fresh d = (f d, d)) \<Longrightarrow> keeps harmless (db_exec s)"
  by (auto simp: keeps_def harmless_def rely_def db_exec_def next_event_def Let_def split: trip.split)

lemmas harmless_steps = harm.keeps_rules harmless_prims

lemma harmless_queries:
  "keeps harmless (UsersRepo_GetByEmail e)" "keeps harmless (UsersRepo_GetByID u)"
  "keeps harmless (ItemsRepo_List u)" "keeps harmless (SessionsRepo_GetByAccessHash h)"
  "keeps harmless (AuditRepo_ListByUser l u cursor lim)" "keeps harmless Store_Ping"
  unfolding users_repo_defs items_repo_defs sessions_repo_defs audit_repo_defs Store_Ping_def
    queries_defs scan_defs try_prog_def
  by (intro harmless_steps harmless_read [OF getUserByEmail_def] harmless_read [OF getUserByID_def]
      harmless_read [OF listItems_def] harmless_read [OF getSessionByAccessHash_def]
      harmless_read [OF listAuditEventsByUser_def] harmless_read [where f = "\<lambda>_. Inr ()"]; simp?)+

subsection \<open>The route table\<close>

lemma harmless_ValidateAccess: "keeps harmless (Manager_ValidateAccess l tok)"
  unfolding Manager_ValidateAccess_def try_prog_def by (intro harmless_steps harmless_queries)

lemma harmless_fail500: "keeps harmless (fail500 r op e msg)"
  unfolding fail500_def logInternalError_def by (intro harmless_steps)

lemma harmless_sessionAuth: "(\<And>q. keeps harmless (h q)) \<Longrightarrow> keeps harmless (sessionAuth l h r)"
  unfolding sessionAuth_def by (intro harmless_steps harmless_ValidateAccess; assumption)

lemma harmless_plain: "keeps harmless (f r) \<Longrightarrow> keeps harmless (plain f r)"
  unfolding plain_def by (intro harmless_steps)

lemma harmless_gets:
  "keeps harmless GetHealth" "keeps harmless (GetReady r)" "keeps harmless (serveSpec spec r)"
  "keeps harmless (serveSwaggerUI page r)" "keeps harmless (getLoginKdfParams l r)"
  "keeps harmless (getActivity l r)" "keeps harmless (ListItems r)" "keeps harmless (GetSync l r)"
  unfolding GetHealth_def GetReady_def serveSpec_def serveSwaggerUI_def getLoginKdfParams_def
    GetLoginKdfParams_def dummy_work_def getActivity_def GetActivity_def ListItems_def GetSync_def
  by (intro harmless_steps harmless_queries harmless_fail500)+

text \<open>Every route either serves \<open>GET\<close> and only reads, or is behind the CSRF check.\<close>

lemma route_kinds:
  assumes "rt \<in> set (routes l spec page)"
  shows "rt_method rt = ''GET'' \<and> (\<forall>r. keeps harmless (rt_handler rt r)) \<or>
    rt_method rt \<noteq> ''GET'' \<and> (\<exists>h. rt_handler rt = requireCSRF h \<or> rt_handler rt = sessionAuth l (requireCSRF h))"
  using assms unfolding routes_def
  by (auto simp: route_of_def chain_def intro!: harmless_plain harmless_sessionAuth harmless_gets)

lemma harmless_wrappers:
  "keeps harmless (h r) \<Longrightarrow> keeps harmless (recoverPanic h r)"
  "keeps harmless (h r) \<Longrightarrow> keeps harmless (logRequests h r)"
  "keeps harmless (h r) \<Longrightarrow> keeps harmless (securityHeaders h r)"
  "keeps harmless (h r) \<Longrightarrow> keeps harmless (cors origin h r)"
proof -
  have out: "(\<And>m. keeps harmless (f m)) \<Longrightarrow> keeps harmless p \<Longrightarrow>
      keeps harmless (case oc of Done \<Rightarrow> p | Panicked m \<Rightarrow> f m)" for oc p and f :: "string \<Rightarrow> outcome prog"
    by (cases oc) auto
  have st: "keeps harmless get_status"
    by (rule harmless_pure) (simp add: get_status_def)
  assume h: "keeps harmless (h r)"
  show "keeps harmless (recoverPanic h r)" unfolding recoverPanic_def by (intro harmless_steps out h)
  show "keeps harmless (logRequests h r)" unfolding logRequests_def by (intro harmless_steps out st h)
  show "keeps harmless (securityHeaders h r)" unfolding securityHeaders_def by (intro harmless_steps h)
  show "keeps harmless (cors origin h r)" unfolding cors_def by (intro harmless_steps h)
qed

lemma harmless_limitBody:
  "keeps harmless (h (r\<lparr>rq_limit := Some maxBodyBytes\<rparr>)) \<Longrightarrow> keeps harmless (limitBody h r)"
  by (simp add: limitBody_def)

lemma harmless_router:
  assumes "\<And>q. rq_method q = rq_method r \<Longrightarrow> rq_path q = rq_path r \<Longrightarrow> rq_header q = rq_header r \<Longrightarrow>
      rq_cookies q = rq_cookies r \<Longrightarrow> keeps harmless (mux rts q)"
  shows "keeps harmless (chain (mux rts)
      [requestID l, captureUserAgent, recoverPanic, logRequests, limitBody, securityHeaders, cors origin] r)"
proof -
  have rid: "keeps harmless (newRequestID l)" unfolding newRequestID_def by (intro harmless_steps)
  show ?thesis
    unfolding chain_def
    by (simp add: requestID_def captureUserAgent_def)
       (intro harmless_steps rid harmless_wrappers harmless_limitBody assms; simp)
qed

lemma harmless_serve:
  assumes "keeps harmless (NewRouter l spec page origin r)" and "\<And>n d. ev_others (w_events w n) d = d"
    and "run_state (serve l spec page origin r) w = (out, w')"
  shows "w_db w' = w_db w \<and> w_auth w' = w_auth w \<and> sent_cookies (w_resp w') = []"
proof -
  let ?w = "w\<lparr>w_resp := fresh_response\<rparr>"
  have "run_state (NewRouter l spec page origin r) ?w = (out, w')"
    using assms(3) by (simp add: serve_def respond_def)
  then have "harmless ?w w'" by (rule keepsD [OF assms(1)])
  then show ?thesis
    using assms(2) no_cookies_fresh no_cookies_sent by (auto simp: harmless_def rely_def)
qed

subsection \<open>Properties\<close>

text \<open>
  Safe methods are read-only.  Serving a \<open>GET\<close>, \<open>HEAD\<close> or \<open>OPTIONS\<close> request, whatever its
  path and whatever fails, changes neither the database nor the login state and sets no
  cookie.
\<close>

theorem safe_requests_read_only:
  assumes "rq_method r \<in> {''GET'', ''HEAD'', ''OPTIONS''}"
    and "\<And>n d. ev_others (w_events w n) d = d"
    and "run_state (serve l spec page origin r) w = (out, w')"
  shows "w_db w' = w_db w \<and> w_auth w' = w_auth w \<and> sent_cookies (w_resp w') = []"
proof -
  have get: "keeps harmless (rt_handler rt q')"
    if "first_match q (routes l spec page) = Some (pid, rt)" "rq_method q = rq_method r" for q q' pid rt
  proof -
    have rt: "rt \<in> set (routes l spec page)" "method_matches (rt_method rt) (rq_method r)"
      using matched_route [OF that(1)] that(2) by (auto simp: route_match_def split: if_splits)
    have "rt_method rt \<in> {''GET'', ''POST'', ''PUT'', ''DELETE''}"
      using rt(1) unfolding routes_def by (auto simp: route_of_def)
    with rt(2) assms(1) have "rt_method rt = ''GET''" by (auto simp: method_matches_def)
    with route_kinds [OF rt(1)] show ?thesis by blast
  qed
  have "keeps harmless (NewRouter l spec page origin r)"
    unfolding NewRouter_def
    by (rule harmless_router, unfold mux_def) (intro harmless_steps; use get in auto)
  then show ?thesis by (rule harmless_serve [OF _ assms(2,3)])
qed

lemma harmless_refusal:
  "rq_method q \<notin> {''GET'', ''HEAD'', ''OPTIONS''} \<Longrightarrow> rq_header q ''X-Vault-CSRF'' \<noteq> ''1'' \<Longrightarrow>
   keeps harmless (requireCSRF h q)"
  unfolding requireCSRF_def by (auto intro!: harmless_steps)

lemma harmless_refusal_auth:
  assumes "rq_method q \<notin> {''GET'', ''HEAD'', ''OPTIONS''}" and "rq_header q ''X-Vault-CSRF'' \<noteq> ''1''"
  shows "keeps harmless (sessionAuth l (requireCSRF h) q)"
proof -
  have "keeps harmless (requireCSRF h (q\<lparr>cx_user_id := u\<rparr>))" for u
    by (rule harmless_refusal) (use assms in simp_all)
  then show ?thesis unfolding sessionAuth_def by (intro harmless_steps harmless_ValidateAccess)
qed

text \<open>
  C10: state changes need the CSRF header.  A request with any other method that does not
  carry \<open>X-Vault-CSRF: 1\<close>, which a cross-site form or image cannot add, changes neither the
  database nor the login state and gets no cookie, even with valid session cookies.
\<close>

theorem csrf_header_required:
  assumes "rq_method r \<notin> {''GET'', ''HEAD'', ''OPTIONS''}" and "rq_header r ''X-Vault-CSRF'' \<noteq> ''1''"
    and "\<And>n d. ev_others (w_events w n) d = d"
    and "run_state (serve l spec page origin r) w = (out, w')"
  shows "w_db w' = w_db w \<and> w_auth w' = w_auth w \<and> sent_cookies (w_resp w') = []"
proof -
  have refuse: "keeps harmless (rt_handler rt q')"
    if "first_match q (routes l spec page) = Some (pid, rt)" "rq_method q = rq_method r"
      "rq_method q' = rq_method r" "rq_header q' = rq_header r" for q q' pid rt
  proof -
    have rt: "rt \<in> set (routes l spec page)" "method_matches (rt_method rt) (rq_method r)"
      using matched_route [OF that(1)] that(2) by (auto simp: route_match_def split: if_splits)
    then have "rt_method rt \<noteq> ''GET''" using assms(1) by (auto simp: method_matches_def)
    with route_kinds [OF rt(1)] obtain h where
      "rt_handler rt = requireCSRF h \<or> rt_handler rt = sessionAuth l (requireCSRF h)" by blast
    then show ?thesis using harmless_refusal harmless_refusal_auth assms(1,2) that(3,4) by auto
  qed
  have "keeps harmless (NewRouter l spec page origin r)"
    unfolding NewRouter_def
    by (rule harmless_router, unfold mux_def) (intro harmless_steps; use refuse in auto)
  then show ?thesis by (rule harmless_serve [OF _ assms(3,4)])
qed

theorem safe_requests_read_only_witness:
  "\<exists>out w'. run_state (serve sample_lib None [] [] (sample_request ''GET'' ''/api/sync'' JNull))
      (sample_world sample_db) = (out, w') \<and> w_db w' = sample_db"
proof -
  obtain out w' where run: "run_state (serve sample_lib None [] [] (sample_request ''GET'' ''/api/sync'' JNull))
      (sample_world sample_db) = (out, w')" by fastforce
  show ?thesis
    using safe_requests_read_only [OF _ _ run] run by (simp add: sample_request_def sample_world_def)
qed

theorem csrf_header_required_witness:
  "\<exists>out w'. run_state (serve sample_lib None [] [] (sample_login\<lparr>rq_header := (\<lambda>_. [])\<rparr>))
      (sample_world sample_db) = (out, w') \<and> w_db w' = sample_db"
proof -
  obtain out w' where run: "run_state (serve sample_lib None [] [] (sample_login\<lparr>rq_header := (\<lambda>_. [])\<rparr>))
      (sample_world sample_db) = (out, w')" by fastforce
  show ?thesis
    using csrf_header_required [OF _ _ _ run] run
    by (simp add: sample_login_def sample_request_def sample_world_def)
qed

end
