(* ===== verification/Perimeter.thy ===== *)
theory Perimeter
  imports Guards
begin

text \<open>
  What the router and the global chain of \<open>middleware.go\<close> guarantee whatever the handlers do:
  no two routes overlap, every response carries the security headers, a panic becomes a
  generic 500, and only a valid access cookie opens a private route.
\<close>

subsection \<open>The routes do not overlap\<close>

text \<open>Some path matches both patterns.\<close>

fun overlap :: "seg list \<Rightarrow> seg list \<Rightarrow> bool" where
  "overlap [] [] = True"
| "overlap (Lit x # ps) (Lit y # qs) = (x = y \<and> overlap ps qs)"
| "overlap (p # ps) (q # qs) = overlap ps qs"
| "overlap _ _ = False"

lemma match_Nil: "match_segs [] ss \<noteq> None \<longleftrightarrow> ss = []"
  by (cases ss) auto

lemma match_Cons:
  "match_segs (p # ps) ss \<noteq> None \<Longrightarrow> \<exists>s ss'. ss = s # ss' \<and> match_segs ps ss' \<noteq> None \<and> (\<forall>x. p = Lit x \<longrightarrow> x = s)"
  by (cases ss; cases p) (auto split: if_splits option.splits)

lemma overlap_Cons: "overlap (p # ps) (q # qs) \<longleftrightarrow> (\<forall>x y. p = Lit x \<longrightarrow> q = Lit y \<longrightarrow> x = y) \<and> overlap ps qs"
  by (cases p; cases q) auto

lemma match_overlap:
  "match_segs ps ss \<noteq> None \<Longrightarrow> match_segs qs ss \<noteq> None \<Longrightarrow> overlap ps qs"
proof (induction ps arbitrary: qs ss)
  case Nil
  then have "ss = []" using match_Nil by blast
  then show ?case using Nil.prems(2) match_Cons [of _ _ "[]"] by (cases qs) auto
next
  case (Cons p ps)
  obtain s ss' where s: "ss = s # ss'" "match_segs ps ss' \<noteq> None" "\<forall>x. p = Lit x \<longrightarrow> x = s"
    using match_Cons [OF Cons.prems(1)] by blast
  obtain q qs' where q: "qs = q # qs'" using Cons.prems(2) s(1) by (cases qs) (auto simp: match_Nil)
  have "match_segs qs' ss' \<noteq> None" "\<forall>x. q = Lit x \<longrightarrow> x = s"
    using match_Cons [OF Cons.prems(2) [unfolded q]] s(1) by auto
  with Cons.IH [OF s(2)] s(3) q show ?case by (fastforce simp: overlap_Cons)
qed

definition clash :: "string \<times> seg list \<Rightarrow> string \<times> seg list \<Rightarrow> bool" where
  "clash a b = (fst a = fst b \<and> overlap (snd a) (snd b))"

abbreviation pattern :: "route \<Rightarrow> string \<times> seg list" where
  "pattern rt \<equiv> (rt_method rt, rt_path rt)"

definition route_table :: "(string \<times> seg list) list" where
  "route_table =
     [(''GET'', api [''health'']), (''GET'', api [''ready'']), (''GET'', [Lit ''openapi.json'']),
      (''GET'', [Lit ''docs'']), (''POST'', api [''register'']), (''GET'', api [''login'', ''kdf-params'']),
      (''POST'', api [''login'']), (''POST'', api [''login'', ''mfa'']), (''POST'', api [''auth'', ''refresh'']),
      (''POST'', api [''logout'']), (''DELETE'', api [''user'']), (''PUT'', api [''user'', ''key'']),
      (''POST'', api [''user'', ''2fa'', ''enroll'']), (''DELETE'', api [''user'', ''2fa'']),
      (''POST'', api [''user'', ''2fa'', ''recovery-codes'']), (''GET'', api [''activity'']),
      (''GET'', api [''items'']), (''POST'', api [''items'']), (''PUT'', api [''items''] @ [ItemIdWildcard]),
      (''DELETE'', api [''items''] @ [ItemIdWildcard]), (''GET'', api [''sync''])]"

lemma patterns_routes: "map pattern (routes l spec page) = route_table"
  by (simp add: routes_def route_of_def route_table_def)

lemma table_free: "sorted_wrt (\<lambda>a b. \<not> clash a b \<and> \<not> clash b a) route_table"
  by code_simp

lemma methods_table: "m \<in> fst ` set route_table \<Longrightarrow> m \<noteq> ''HEAD''"
  unfolding route_table_def by auto

lemma matching_clash:
  assumes "rt \<in> set (routes l spec page)" "rt' \<in> set (routes l spec page)"
    and "route_match r rt \<noteq> None" "route_match r rt' \<noteq> None" and "rt_method rt = rt_method rt'"
  shows "clash (pattern rt) (pattern rt')"
  using assms match_overlap by (auto simp: clash_def route_match_def split: if_splits)

lemma match_index_unique:
  assumes "i < length (routes l spec page)" and "j < length (routes l spec page)"
    and "route_match r (routes l spec page ! i) \<noteq> None" and "route_match r (routes l spec page ! j) \<noteq> None"
  shows "i = j"
proof (rule ccontr)
  let ?R = "routes l spec page"
  assume "i \<noteq> j"
  have nth: "route_table ! k = pattern (?R ! k)" if "k < length ?R" for k
    using that by (simp add: patterns_routes [symmetric, of l spec page])
  have len: "length route_table = length ?R"
    by (simp add: patterns_routes [symmetric, of l spec page])
  have "\<not> clash (pattern (?R ! i)) (pattern (?R ! j)) \<and> \<not> clash (pattern (?R ! j)) (pattern (?R ! i))"
    using sorted_wrt_nth_less [OF table_free, of i j] sorted_wrt_nth_less [OF table_free, of j i]
      \<open>i \<noteq> j\<close> nth [OF assms(1)] nth [OF assms(2)] assms(1,2) len by (cases "i < j") auto
  moreover have "rt_method (?R ! i) = rt_method (?R ! j)"
  proof -
    have "rt_method (?R ! k) \<noteq> ''HEAD''" if "k < length ?R" for k
      using methods_table [of "rt_method (?R ! k)"] nth [OF that] that len
      by (metis fst_conv image_eqI nth_mem)
    from this [OF assms(1)] this [OF assms(2)] show ?thesis
      using assms by (auto simp: route_match_def method_matches_def split: if_splits)
  qed
  ultimately show False using matching_clash [OF nth_mem nth_mem] assms by blast
qed

lemma match_unique:
  assumes "rt \<in> set (routes l spec page)" and "rt' \<in> set (routes l spec page)"
    and "route_match r rt \<noteq> None" and "route_match r rt' \<noteq> None"
  shows "rt = rt'"
  using assms match_index_unique by (metis in_set_conv_nth)

text \<open>
  C34: the mux is unambiguous.  At most one route matches a request, so the order of the
  registrations does not matter and \<open>ServeMux\<close> never refuses a pattern for a conflict.
\<close>

theorem routes_do_not_overlap:
  assumes "i < length (routes l spec page)" and "j < length (routes l spec page)"
    and "route_match r (routes l spec page ! i) \<noteq> None" and "route_match r (routes l spec page ! j) \<noteq> None"
  shows "i = j"
  by (rule match_index_unique [OF assms])

theorem routes_do_not_overlap_witness:
  "\<exists>!i. i < (21::nat) \<and> route_match sample_login (routes sample_lib None [] ! i) \<noteq> None"
proof
  have len: "length (routes sample_lib None []) = 21" by (simp add: routes_def)
  have m: "route_match sample_login (routes sample_lib None [] ! 6) \<noteq> None"
    by (simp add: routes_def route_of_def route_match_def sample_login_def sample_request_def
        method_matches_def path_segments_def)
  then show "6 < (21::nat) \<and> route_match sample_login (routes sample_lib None [] ! 6) \<noteq> None" by simp
  fix i assume "i < (21::nat) \<and> route_match sample_login (routes sample_lib None [] ! i) \<noteq> None"
  then show "i = 6" using routes_do_not_overlap [OF _ _ _ m, of i] len by simp
qed

subsection \<open>Headers\<close>

definition fixed_headers :: "string \<Rightarrow> (string \<times> string) list" where
  "fixed_headers origin =
     [(''Strict-Transport-Security'', ''max-age=63072000; includeSubDomains; preload''),
      (''X-Content-Type-Options'', ''nosniff''), (''X-Frame-Options'', ''DENY''),
      (''Referrer-Policy'', ''strict-origin-when-cross-origin''),
      (''Permissions-Policy'', ''camera=(), microphone=(), geolocation=()''),
      (''Access-Control-Allow-Origin'', origin), (''Vary'', ''Origin'')]"

definition hard :: "string \<Rightarrow> (string \<rightharpoonup> string) \<Rightarrow> bool" where
  "hard origin h = (list_all (\<lambda>(k, v). h k = Some v) (fixed_headers origin) \<and>
     h ''X-Request-ID'' \<noteq> None \<and> h ''Content-Security-Policy'' \<in> {Some csp, Some docs_csp})"

definition hardened_response :: "string \<Rightarrow> response \<Rightarrow> bool" where
  "hardened_response origin rs = (hard origin (rs_header rs) \<and>
     (case rs_sent rs of None \<Rightarrow> True | Some (c, h, cs) \<Rightarrow> hard origin h))"

lemma hard_upd:
  "hard origin h \<Longrightarrow> k \<notin> fst ` set (fixed_headers origin) \<union> {''X-Request-ID'', ''Content-Security-Policy''} \<Longrightarrow>
   hard origin (h(k \<mapsto> v))"
  by (auto simp: hard_def fixed_headers_def)

lemma hard_docs: "hard origin h \<Longrightarrow> hard origin (h(''Content-Security-Policy'' \<mapsto> docs_csp))"
  by (auto simp: hard_def fixed_headers_def)

interpretation hardened: response_frame "\<lambda>rs rs'. hardened_response origin rs \<longrightarrow> hardened_response origin rs'"
  by unfold_locales
     (auto simp: hardened_response_def rs_set_def rs_set_cookie_def rs_write_header_def rs_write_def Let_def
       fixed_headers_def hard_upd hard_docs split: option.splits)

text \<open>A handler behind the chain: what it finds, and what it may do.\<close>

lemma run_requestID:
  "run_state (requestID l nxt r) w =
     (let (rid, w1) = run_state (newRequestID l) w
      in run_state (nxt (r\<lparr>cx_request_id := Some rid\<rparr>)) (w1\<lparr>w_resp := rs_set ''X-Request-ID'' rid (w_resp w1)\<rparr>))"
  by (simp add: requestID_def respond_def split: prod.split)

lemma run_recoverPanic:
  "run_state (recoverPanic nxt r) w =
     (case run_state (nxt r) w of
        (Done, w1) \<Rightarrow> (Done, w1)
      | (Panicked msg, w1) \<Rightarrow> (Done, w1\<lparr>w_log := w_log w1 @ [LogPanic (cx_request_id r) msg (rq_path r)],
          w_resp := rs_json 500 (gen_Error internal) (w_resp w1)\<rparr>))"
  by (simp add: recoverPanic_def log_it_def writeJSON_def respond_def split: prod.split outcome.split)

lemma run_logRequests:
  "run_state (logRequests nxt r) w =
     (case run_state (nxt r) (tick w) of
        (Panicked msg, w1) \<Rightarrow> (Panicked msg, w1)
      | (Done, w1) \<Rightarrow> (Done, (tick w1)\<lparr>w_log := w_log w1 @ [LogRequest (cx_request_id r) (rq_method r)
          (rq_path r) (rs_status (w_resp w1)) ((w_clock w1 0 - w_clock w 0) div Millisecond)]\<rparr>))"
  by (simp add: logRequests_def log_it_def get_status_def time_Now_def tick_def split: prod.split outcome.split)

definition armored :: "response \<Rightarrow> response" where
  "armored rs = rs_set ''Permissions-Policy'' ''camera=(), microphone=(), geolocation=()''
     (rs_set ''Content-Security-Policy'' csp
     (rs_set ''Referrer-Policy'' ''strict-origin-when-cross-origin''
     (rs_set ''X-Frame-Options'' ''DENY''
     (rs_set ''X-Content-Type-Options'' ''nosniff''
     (rs_set ''Strict-Transport-Security'' ''max-age=63072000; includeSubDomains; preload'' rs)))))"

definition cors_response :: "string \<Rightarrow> response \<Rightarrow> response" where
  "cors_response origin rs = rs_set ''Vary'' ''Origin'' (rs_set ''Access-Control-Allow-Credentials'' ''true''
     (rs_set ''Access-Control-Allow-Origin'' origin rs))"

lemma run_securityHeaders:
  "run_state (securityHeaders nxt r) w = run_state (nxt r) (w\<lparr>w_resp := armored (w_resp w)\<rparr>)"
  by (simp add: securityHeaders_def respond_def armored_def)

lemma run_cors:
  "rq_method r \<noteq> ''OPTIONS'' \<Longrightarrow>
   run_state (cors origin nxt r) w = run_state (nxt r) (w\<lparr>w_resp := cors_response origin (w_resp w)\<rparr>)"
  by (simp add: cors_def respond_def cors_response_def)

definition preflight_response :: "string \<Rightarrow> response \<Rightarrow> response" where
  "preflight_response origin rs = rs_write_header 204 (rs_set ''Access-Control-Max-Age'' ''86400''
     (rs_set ''Access-Control-Allow-Headers'' ''Content-Type, X-Vault-CSRF''
     (rs_set ''Access-Control-Allow-Methods'' ''GET, POST, PUT, DELETE, OPTIONS'' (cors_response origin rs))))"

lemma run_preflight:
  "rq_method r = ''OPTIONS'' \<Longrightarrow>
   run_state (cors origin nxt r) w = (Done, w\<lparr>w_resp := preflight_response origin (w_resp w)\<rparr>)"
  by (simp add: cors_def WriteHeader_def respond_def preflight_response_def cors_response_def)

lemmas run_chain = chain_def run_requestID run_recoverPanic run_logRequests run_securityHeaders
  captureUserAgent_def limitBody_def

lemma hardened_start:
  assumes "rs_sent rs = None" and "rs_header rs ''X-Request-ID'' \<noteq> None"
  shows "hardened_response origin (cors_response origin (armored rs))"
    and "hardened_response origin (preflight_response origin (armored rs))"
  using assms unfolding preflight_response_def cors_response_def armored_def
  by (auto simp: hardened_response_def hard_def fixed_headers_def rs_set_def rs_write_header_def)

lemma hardened_json: "hardened_response origin rs \<Longrightarrow> hardened_response origin (rs_json n j rs)"
  unfolding rs_json_def
  using hardened.Q_type hardened.Q_status hardened.Q_body by blast

lemma hardened_sent:
  "hardened_response origin rs \<Longrightarrow> list_all (\<lambda>(k, v). sent_header k rs = Some v) (fixed_headers origin) \<and>
     sent_header ''X-Request-ID'' rs \<noteq> None \<and> sent_header ''Content-Security-Policy'' rs \<in> {Some csp, Some docs_csp}"
  by (auto simp: hardened_response_def sent_header_def hard_def split: option.splits)

lemma newRequestID_response: "run_state (newRequestID l) w = (rid, w1) \<Longrightarrow> w_resp w1 = w_resp w"
proof -
  have "keeps (\<lambda>w w'. w_resp w' = w_resp w) (lift_rng m)" for m :: "(rng, 'a) state"
    by (simp add: keeps_def prims_keep_resp)
  then have "keeps (\<lambda>w w'. w_resp w' = w_resp w) (newRequestID l)"
    unfolding newRequestID_def by (intro silent.keeps_rules silent_prims)
  then show "run_state (newRequestID l) w = (rid, w1) \<Longrightarrow> w_resp w1 = w_resp w" by (rule keepsD)
qed

text \<open>
  C33: every response is hardened.  Whatever the request and the handler, the answer carries
  HSTS, \<open>nosniff\<close>, \<open>X-Frame-Options: DENY\<close>, a referrer policy, a permissions policy, one of
  the two content security policies, a request id, and names the configured origin alone as
  allowed by CORS.
\<close>

theorem security_headers_always_sent:
  "list_all (\<lambda>(k, v). sent_header k (w_resp (snd (run_state (serve l spec page origin r) w))) = Some v)
     (fixed_headers origin) \<and>
   sent_header ''X-Request-ID'' (w_resp (snd (run_state (serve l spec page origin r) w))) \<noteq> None \<and>
   sent_header ''Content-Security-Policy'' (w_resp (snd (run_state (serve l spec page origin r) w)))
     \<in> {Some csp, Some docs_csp}"
proof (rule hardened_sent)
  obtain rid w1 where id: "run_state (newRequestID l) (w\<lparr>w_resp := fresh_response\<rparr>) = (rid, w1)" by fastforce
  then have "w_resp w1 = fresh_response" using newRequestID_response by fastforce
  then have start: "hardened_response origin (cors_response origin (armored (rs_set ''X-Request-ID'' rid (w_resp w1))))"
    "hardened_response origin (preflight_response origin (armored (rs_set ''X-Request-ID'' rid (w_resp w1))))"
    by (auto intro!: hardened_start simp: rs_set_def fresh_response_def)
  have "hardened_response origin (w_resp w')"
    if "run_state (mux (routes l spec page) q) v = (out, w')" "hardened_response origin (w_resp v)" for q v out w'
    using keepsD [OF hardened.mux_keeps that(1)] that(2) by blast
  then show "hardened_response origin (w_resp (snd (run_state (serve l spec page origin r) w)))"
    using start hardened_json
    by (cases "rq_method r = ''OPTIONS''")
       (auto simp: serve_def NewRouter_def respond_def run_chain run_cors run_preflight id split: prod.split outcome.split)
qed

subsection \<open>Panics\<close>

definition global_chain :: "lib \<Rightarrow> string \<Rightarrow> handler \<Rightarrow> handler" where
  "global_chain l origin h =
     chain h [requestID l, captureUserAgent, recoverPanic, logRequests, limitBody, securityHeaders, cors origin]"

lemma NewRouter_chain: "NewRouter l spec page origin = global_chain l origin (mux (routes l spec page))"
  by (rule ext) (simp add: NewRouter_def global_chain_def)

lemma newRequestID_keeps:
  "run_state (newRequestID l) w = (rid, w1) \<Longrightarrow>
   w_db w1 = w_db w \<and> w_auth w1 = w_auth w \<and> w_log w1 = w_log w \<and> w_resp w1 = w_resp w"
  by (auto simp: newRequestID_def lift_rng_def run_time_Now tick_def Let_def split: prod.splits sum.splits)

text \<open>The request and the world the chain hands to its handler.\<close>

definition handed :: "request \<Rightarrow> string \<Rightarrow> request" where
  "handed r rid = r\<lparr>cx_request_id := Some rid, cx_user_agent := Some (rq_header r ''User-Agent''), rq_limit := Some maxBodyBytes\<rparr>"

definition entered :: "string \<Rightarrow> string \<Rightarrow> world \<Rightarrow> world" where
  "entered origin rid w = (tick w)\<lparr>w_resp := cors_response origin (armored (rs_set ''X-Request-ID'' rid (w_resp w)))\<rparr>"

lemma run_global_chain:
  assumes "run_state (newRequestID l) w = (rid, w1)"
  shows "run_state (global_chain l origin h r) w =
     (if rq_method r = ''OPTIONS''
      then (let rs = preflight_response origin (armored (rs_set ''X-Request-ID'' rid (w_resp w1)))
        in (Done, (tick (tick w1))\<lparr>w_resp := rs, w_log := w_log w1 @ [LogRequest (Some rid) (rq_method r) (rq_path r)
             (rs_status rs) ((w_clock w1 1 - w_clock w1 0) div Millisecond)]\<rparr>))
      else case run_state (h (handed r rid)) (entered origin rid w1) of
         (Done, v) \<Rightarrow> (Done, (tick v)\<lparr>w_log := w_log v @ [LogRequest (Some rid) (rq_method r) (rq_path r)
            (rs_status (w_resp v)) ((w_clock v 0 - w_clock w1 0) div Millisecond)]\<rparr>)
       | (Panicked msg, v) \<Rightarrow> (Done, v\<lparr>w_log := w_log v @ [LogPanic (Some rid) msg (rq_path r)],
            w_resp := rs_json 500 (gen_Error internal) (w_resp v)\<rparr>))"
  by (cases "rq_method r = ''OPTIONS''")
     (simp_all add: global_chain_def run_chain run_cors run_preflight assms handed_def entered_def tick_def Let_def
       split: prod.split outcome.split)

text \<open>
  C32: a panic stays inside its request.  Whatever the handler behind the global chain does on
  the request it is handed, the chain ends normally, keeps what the handler did to the
  database, and adds exactly one entry to the log.  If the handler ends normally, its response
  stands, and the entry is the access-log line with its status.  If it panics, the entry
  is the panic with its text, and the access-log line is left out; the client gets a 500 with the
  generic error and nothing of that text, unless the handler had already written, in which
  case the status and the headers sent stand.  A preflight never reaches the handler.
\<close>

theorem panic_contained:
  assumes "run_state (global_chain l origin h r) w = (out, w')"
  shows "out = Done \<and> (\<exists>rid.
    if rq_method r = ''OPTIONS''
    then w_db w' = w_db w \<and> (\<exists>n dur. w_log w' = w_log w @ [LogRequest (Some rid) ''OPTIONS'' (rq_path r) n dur])
    else \<exists>v x v'. run_state (h (handed r rid)) v = (x, v') \<and>
      w_db v = w_db w \<and> w_auth v = w_auth w \<and> w_log v = w_log w \<and>
      rs_sent (w_resp v) = rs_sent (w_resp w) \<and> rs_body (w_resp v) = rs_body (w_resp w) \<and> w_db w' = w_db v' \<and>
      (case x of
         Done \<Rightarrow> w_resp w' = w_resp v' \<and>
           (\<exists>dur. w_log w' = w_log v' @ [LogRequest (Some rid) (rq_method r) (rq_path r) (rs_status (w_resp v')) dur])
       | Panicked msg \<Rightarrow> w_log w' = w_log v' @ [LogPanic (Some rid) msg (rq_path r)] \<and>
           rs_body (w_resp w') = rs_body (w_resp v') @ [BJson (gen_Error internal)] \<and>
           (if rs_sent (w_resp v') = None then rs_status (w_resp w') = 500
            else rs_sent (w_resp w') = rs_sent (w_resp v'))))"
proof -
  obtain rid w1 where id: "run_state (newRequestID l) w = (rid, w1)" by fastforce
  note w1 = newRequestID_keeps [OF id] and run = run_global_chain [OF id, of origin h r]
  show ?thesis
  proof (cases "rq_method r = ''OPTIONS''")
    case True
    then show ?thesis using run assms w1 by (auto simp: tick_def Let_def)
  next
    case False
    let ?v = "entered origin rid w1"
    obtain x v' where h: "run_state (h (handed r rid)) ?v = (x, v')" by fastforce
    have v: "w_db ?v = w_db w" "w_auth ?v = w_auth w" "w_log ?v = w_log w"
      "rs_sent (w_resp ?v) = rs_sent (w_resp w)" "rs_body (w_resp ?v) = rs_body (w_resp w)"
      using w1 by (simp_all add: entered_def tick_def cors_response_def armored_def rs_set_def)
    have json: "rs_body (rs_json 500 j rs) = rs_body rs @ [BJson j]"
      "rs_sent rs = None \<Longrightarrow> rs_status (rs_json 500 j rs) = 500"
      "rs_sent rs \<noteq> None \<Longrightarrow> rs_sent (rs_json 500 j rs) = rs_sent rs" for j rs
      by (auto simp: response_defs split: option.split)
    have "out = Done \<and> w_db w' = w_db v' \<and> (case x of
         Done \<Rightarrow> w_resp w' = w_resp v' \<and>
           (\<exists>dur. w_log w' = w_log v' @ [LogRequest (Some rid) (rq_method r) (rq_path r) (rs_status (w_resp v')) dur])
       | Panicked msg \<Rightarrow> w_log w' = w_log v' @ [LogPanic (Some rid) msg (rq_path r)] \<and>
           rs_body (w_resp w') = rs_body (w_resp v') @ [BJson (gen_Error internal)] \<and>
           (if rs_sent (w_resp v') = None then rs_status (w_resp w') = 500
            else rs_sent (w_resp w') = rs_sent (w_resp v')))"
      using assms run h False by (cases x) (auto simp: tick_def json)
    with h v False show ?thesis by (intro conjI exI [of _ rid]) (simp, simp only: if_False, blast)
  qed
qed

theorem panic_contained_witness:
  "\<exists>w' rid. run_state (global_chain sample_lib [] (\<lambda>_. ret (Panicked ''secret'')) sample_login) (sample_world empty_db) = (Done, w') \<and>
     w_log w' = [LogPanic (Some rid) ''secret'' ''/api/login''] \<and>
     rs_status (w_resp w') = 500 \<and> rs_body (w_resp w') = [BJson (gen_Error internal)]"
proof -
  obtain out w' where run: "run_state (global_chain sample_lib [] (\<lambda>_. ret (Panicked ''secret'')) sample_login)
      (sample_world empty_db) = (out, w')" by fastforce
  have "rq_method sample_login \<noteq> ''OPTIONS''" "rq_path sample_login = ''/api/login''"
    by (simp_all add: sample_login_def sample_request_def)
  then show ?thesis
    using panic_contained [OF run] run by (auto simp: fresh_response_def)
qed

subsection \<open>Private routes\<close>

definition open_paths :: "string list list" where
  "open_paths = [[''api'', ''health''], [''api'', ''ready''], [''openapi.json''], [''docs''], [''api'', ''register''],
     [''api'', ''login'', ''kdf-params''], [''api'', ''login''], [''api'', ''login'', ''mfa''], [''api'', ''auth'', ''refresh'']]"

text \<open>The request's access cookie opens no session: none, unknown or expired.\<close>

definition no_session :: "lib \<Rightarrow> request \<Rightarrow> world \<Rightarrow> bool" where
  "no_session l r w = (\<forall>v. Cookie AccessCookieName r = Some v \<longrightarrow>
     (\<forall>s \<in> set (sessions (w_db w)). s_access s = hashToken l v \<longrightarrow> (\<forall>n. s_access_exp s < w_clock w n)))"

definition refused :: "response \<Rightarrow> bool" where
  "refused rs = (set (rs_body rs) \<subseteq> {BJson auth_required, BJson (gen_Error internal)} \<and>
     (\<forall>c h cs. rs_sent rs = Some (c, h, cs) \<longrightarrow> c \<in> {204, 301, 401, 404, 405, 500}))"

definition barred :: "lib \<Rightarrow> request \<Rightarrow> world \<Rightarrow> bool" where
  "barred l r w = (rely (=) w \<and> no_session l r w \<and> refused (w_resp w))"

text \<open>In a world that bars the request nothing changes but the response, which stays a refusal.\<close>

definition denied :: "lib \<Rightarrow> request \<Rightarrow> world \<Rightarrow> world \<Rightarrow> bool" where
  "denied l r w w' = (barred l r w \<longrightarrow> barred l r w' \<and> w_db w' = w_db w \<and>
     (rs_sent (w_resp w) \<noteq> None \<longrightarrow> rs_sent (w_resp w') \<noteq> None))"

interpretation deny: world_frame "denied l r"
  by unfold_locales (auto simp: denied_def)

text \<open>\<open>p\<close> only denies, and has answered when it ends.\<close>

definition denies :: "lib \<Rightarrow> request \<Rightarrow> 'a prog \<Rightarrow> bool" where
  "denies l r p = (keeps (denied l r) p \<and> (\<forall>w. barred l r w \<longrightarrow> rs_sent (w_resp (snd (run_state p w))) \<noteq> None))"

lemma denied_pure:
  assumes "\<And>w. w_db (snd (run_state p w)) = w_db w \<and> w_events (snd (run_state p w)) = w_events w \<and>
      range (w_clock (snd (run_state p w))) \<subseteq> range (w_clock w) \<and> w_resp (snd (run_state p w)) = w_resp w"
  shows "keeps (denied l r) p"
proof -
  have "denied l r w (snd (run_state p w))" for w
  proof -
    have "\<exists>m. w_clock (snd (run_state p w)) n = w_clock w m" for n using assms [of w] by blast
    then have "no_session l r (snd (run_state p w))" if "no_session l r w"
      using that assms [of w] unfolding no_session_def by metis
    then show ?thesis using assms [of w] by (auto simp: denied_def barred_def rely_def)
  qed
  then show ?thesis by (simp add: keeps_def)
qed

lemma denied_prims:
  "keeps (denied l r) time_Now" "keeps (denied l r) (lift_rng m)" "keeps (denied l r) (log_it e)" "keeps (denied l r) get_status"
  by (rule denied_pure, force simp: prim_defs get_status_def Let_def split: prod.split)+

lemma denied_respond:
  "(\<And>rs. refused rs \<Longrightarrow> refused (f rs) \<and> (rs_sent rs \<noteq> None \<longrightarrow> rs_sent (f rs) \<noteq> None)) \<Longrightarrow> keeps (denied l r) (respond f)"
  by (auto simp: keeps_def denied_def barred_def respond_def rely_def no_session_def)

lemma denied_set: "keeps (denied l r) (respond (rs_set k v))"
  by (intro denied_respond) (simp add: refused_def rs_set_def)

lemma denies_respond:
  assumes "\<And>rs. refused rs \<Longrightarrow> refused (f rs) \<and> rs_sent (f rs) \<noteq> None"
  shows "denies l r (respond f)"
  unfolding denies_def by (intro conjI denied_respond) (use assms in \<open>auto simp: barred_def respond_def\<close>)

lemma denies_status: "n \<in> {204, 301, 404, 405} \<Longrightarrow> denies l r (respond (rs_write_header n))"
  by (rule denies_respond) (auto simp: refused_def rs_write_header_def split: option.splits)

lemma denies_json:
  "(n, j) \<in> {(401, auth_required), (500, gen_Error internal)} \<Longrightarrow> denies l r (writeJSON n j)"
  unfolding writeJSON_def by (rule denies_respond) (auto simp: refused_def response_defs split: option.splits)

lemma denies_first: "denies l r p \<Longrightarrow> (\<And>x. keeps (denied l r) (f x)) \<Longrightarrow> denies l r (State_Monad.bind p f)"
proof -
  assume p: "denies l r p" and f: "\<And>x. keeps (denied l r) (f x)"
  have "rs_sent (w_resp (snd (run_state (State_Monad.bind p f) w))) \<noteq> None" if w: "barred l r w" for w
  proof -
    obtain x w1 where 1: "run_state p w = (x, w1)" by fastforce
    have "denied l r w w1" using p keepsD [OF _ 1] by (auto simp: denies_def)
    then have "barred l r w1" "rs_sent (w_resp w1) \<noteq> None"
      using p w 1 by (auto simp: denied_def denies_def dest: spec [of _ w])
    then show ?thesis using f [of x] 1 by (simp add: keeps_def denied_def)
  qed
  then show ?thesis using p f unfolding denies_def by (auto intro: deny.keeps_bind)
qed

lemma denies_then: "keeps (denied l r) p \<Longrightarrow> (\<And>x. denies l r (f x)) \<Longrightarrow> denies l r (State_Monad.bind p f)"
proof -
  assume p: "keeps (denied l r) p" and f: "\<And>x. denies l r (f x)"
  have "rs_sent (w_resp (snd (run_state (State_Monad.bind p f) w))) \<noteq> None" if w: "barred l r w" for w
  proof -
    obtain x w1 where 1: "run_state p w = (x, w1)" by fastforce
    then have "barred l r w1" using p w keepsD [OF p 1] by (simp add: denied_def)
    then show ?thesis using f [of x] 1 by (simp add: denies_def)
  qed
  then show ?thesis using p f unfolding denies_def by (auto intro: deny.keeps_bind)
qed

lemma denies_keeps: "denies l r p \<Longrightarrow> keeps (denied l r) p"
  by (simp add: denies_def)

lemma denies_case_outcome:
  "(\<And>m. denies l r (f m)) \<Longrightarrow> denies l r p \<Longrightarrow> denies l r (case oc of Done \<Rightarrow> p | Panicked m \<Rightarrow> f m)"
  by (cases oc) auto

text \<open>The access cookie is checked against the sessions table.\<close>

lemma ValidateAccess_barred:
  assumes "barred l r w" and "Cookie AccessCookieName r = Some v"
    and run: "run_state (Manager_ValidateAccess l v) w = (res, w1)"
  shows "(\<exists>e. res = Inl e) \<and> denied l r w w1"
proof -
  have w: "ev_others (w_events w 0) (w_db w) = w_db w" "rely (=) w" "refused (w_resp w)"
    using assms(1) by (simp_all add: barred_def rely_def)
  have dead: "s_access_exp s < w_clock w n"
    if "find (\<lambda>s. s_access s = hashToken l v) (sessions (w_db w)) = Some s" for s n
    using assms(1,2) that by (auto simp: barred_def no_session_def find_Some_iff)
  have "w_db w1 = w_db w" "w_resp w1 = w_resp w" "w_events w1 = (\<lambda>i. w_events w (Suc i))"
    "w_clock w1 = w_clock w \<or> w_clock w1 = w_clock (tick w)" "\<exists>e. res = Inl e"
    using run dead [of _ 0] w(1)
    by (auto simp: Manager_ValidateAccess_def try_prog_def SessionsRepo_GetByAccessHash_def
        Queries_GetSessionByAccessHash_def scan_defs db_exec_def getSessionByAccessHash_def one_row_def
        next_event_def time_Now_def tick_def Let_def split: trip.splits option.splits if_splits)
  moreover from this have "barred l r w1"
    using assms(1) by (auto simp: barred_def rely_def no_session_def tick_def)
  ultimately show ?thesis by (auto simp: denied_def)
qed

lemma denies_sessionAuth:
  assumes "rq_cookies q = rq_cookies r"
  shows "denies l r (sessionAuth l h q)"
proof (cases "Cookie AccessCookieName q")
  case None
  then show ?thesis
    by (auto simp: sessionAuth_def intro!: denies_first denies_json deny.keeps_return)
next
  case (Some v)
  then have c: "Cookie AccessCookieName r = Some v" using assms by (simp add: Cookie_def)
  have no: "denies l r (if errors_Is e ErrSessionInvalid
       then do { writeJSON 401 auth_required; ret Done } else do { writeJSON 500 (gen_Error internal); ret Done })" for e
    by (auto intro!: denies_first denies_json deny.keeps_return)
  have "denied l r w w' \<and> (barred l r w \<longrightarrow> rs_sent (w_resp w') \<noteq> None)"
    if run: "run_state (sessionAuth l h q) w = (out, w')" for w out w'
  proof (cases "barred l r w")
    case True
    obtain res w1 where v: "run_state (Manager_ValidateAccess l v) w = (res, w1)" by fastforce
    obtain e where e: "res = Inl e" "denied l r w w1" using ValidateAccess_barred [OF True c v] by blast
    then have "barred l r w1" using True by (simp add: denied_def)
    moreover have "run_state (if errors_Is e ErrSessionInvalid
       then do { writeJSON 401 auth_required; ret Done } else do { writeJSON 500 (gen_Error internal); ret Done }) w1 = (out, w')"
      using run Some v e(1) by (simp add: sessionAuth_def)
    ultimately show ?thesis
      using no [of e] e(2) deny.T_trans [of l r w w1 w'] keepsD by (fastforce simp: denies_def)
  next
    case False
    then show ?thesis by (simp add: denied_def)
  qed
  then show ?thesis unfolding denies_def keeps_def by (metis prod.collapse)
qed

lemma private_route:
  assumes "rt \<in> set (routes l spec page)"
  shows "(\<exists>ss \<in> set open_paths. rt_path rt = map Lit ss) \<or> (\<exists>h. rt_handler rt = sessionAuth l h)"
  using assms unfolding routes_def
  by (auto simp: route_of_def chain_def open_paths_def)

lemma match_literals: "match_segs (map Lit ss) xs = Some pid \<Longrightarrow> xs = ss"
  by (induction ss arbitrary: xs) (case_tac xs; auto split: if_splits)+

lemma denies_mux:
  assumes "path_segments (rq_path q) \<notin> set open_paths" and "rq_cookies q = rq_cookies r"
  shows "denies l r (mux (routes l spec page) q)"
proof -
  have route: "denies l r (rt_handler rt (q\<lparr>rq_path_id := pid\<rparr>))"
    if m: "first_match q (routes l spec page) = Some (pid, rt)" for pid rt
  proof -
    have rt: "rt \<in> set (routes l spec page)" "match_segs (rt_path rt) (path_segments (rq_path q)) = Some pid"
      using matched_route [OF m] by (auto simp: route_match_def split: if_splits)
    then obtain h where "rt_handler rt = sessionAuth l h"
      using private_route [OF rt(1)] match_literals assms(1) by fastforce
    then show ?thesis using denies_sessionAuth assms(2) by simp
  qed
  show ?thesis
    unfolding mux_def WriteHeader_def
    by (auto intro!: denies_first denies_status deny.keeps_return route split: option.split)
qed

lemma denies_chain:
  assumes "\<And>q. rq_cookies q = rq_cookies r \<Longrightarrow> rq_path q = rq_path r \<Longrightarrow> denies l r (h q)"
  shows "denies l r (global_chain l origin h r)"
proof -
  have rid: "keeps (denied l r) (newRequestID l)"
    unfolding newRequestID_def by (intro deny.keeps_rules denied_prims)
  have cors: "denies l r (cors origin h q)" if "rq_cookies q = rq_cookies r" "rq_path q = rq_path r" for q
    unfolding cors_def WriteHeader_def
    by (auto intro!: denies_then [OF denied_set] denies_first [OF denies_status] deny.keeps_return assms that)
  have sec: "denies l r (securityHeaders (cors origin h) q)" if "rq_cookies q = rq_cookies r" "rq_path q = rq_path r" for q
    unfolding securityHeaders_def by (intro denies_then [OF denied_set] cors that)
  have lim: "denies l r (limitBody (securityHeaders (cors origin h)) q)"
    if "rq_cookies q = rq_cookies r" "rq_path q = rq_path r" for q
    unfolding limitBody_def by (rule sec) (use that in simp_all)
  have out: "(\<And>m. keeps (denied l r) (f m)) \<Longrightarrow> keeps (denied l r) p \<Longrightarrow>
      keeps (denied l r) (case oc of Done \<Rightarrow> p | Panicked m \<Rightarrow> f m)" for oc p and f :: "string \<Rightarrow> outcome prog"
    by (cases oc) auto
  have log: "denies l r (logRequests (limitBody (securityHeaders (cors origin h))) q)"
    if "rq_cookies q = rq_cookies r" "rq_path q = rq_path r" for q
    unfolding logRequests_def
    by (intro denies_then [OF denied_prims(1)] denies_first [OF lim [OF that]] out deny.keeps_rules denied_prims)
  have rec: "denies l r (recoverPanic (logRequests (limitBody (securityHeaders (cors origin h)))) q)"
    if "rq_cookies q = rq_cookies r" "rq_path q = rq_path r" for q
    unfolding recoverPanic_def
    by (intro denies_first [OF log [OF that]] out deny.keeps_rules denied_prims denies_keeps [OF denies_json]) simp
  show ?thesis
    unfolding global_chain_def chain_def
    by (simp add: requestID_def captureUserAgent_def)
       (intro denies_then rid denied_set rec; simp)
qed

text \<open>
  C4: private routes need a session.  A request for any path outside the nine open ones, whose
  access cookie is missing or belongs to no session or only to an expired one, changes
  nothing in the database and gets a redirect or an error: 301, 401, 404, 405, 500, or the
  204 of a preflight, with no body but the two generic errors.
\<close>

theorem unauthenticated_refused:
  assumes "path_segments (rq_path r) \<notin> set open_paths" and "no_session l r w"
    and "\<And>n d. ev_others (w_events w n) d = d"
    and "run_state (serve l spec page origin r) w = (out, w')"
  shows "w_db w' = w_db w \<and> rs_status (w_resp w') \<in> {204, 301, 401, 404, 405, 500} \<and>
    set (rs_body (w_resp w')) \<subseteq> {BJson auth_required, BJson (gen_Error internal)}"
proof -
  let ?w = "w\<lparr>w_resp := fresh_response\<rparr>"
  have d: "denies l r (NewRouter l spec page origin r)"
    unfolding NewRouter_chain by (intro denies_chain denies_mux) (use assms(1) in simp_all)
  have run: "run_state (NewRouter l spec page origin r) ?w = (out, w')"
    using assms(4) by (simp add: serve_def respond_def)
  have b: "barred l r ?w"
    using assms(2,3) by (simp add: barred_def rely_def no_session_def refused_def fresh_response_def)
  have "denied l r ?w w'" by (rule keepsD [OF denies_keeps [OF d] run])
  with b have after: "barred l r w'" "w_db w' = w_db w" by (simp_all add: denied_def)
  have "rs_sent (w_resp (snd (run_state (NewRouter l spec page origin r) ?w))) \<noteq> None"
    using d b unfolding denies_def by blast
  then have "rs_sent (w_resp w') \<noteq> None" by (simp add: run)
  then obtain c h cs where s: "rs_sent (w_resp w') = Some (c, h, cs)" by (cases "rs_sent (w_resp w')") auto
  with after(1) have "refused (w_resp w')" by (simp add: barred_def)
  with s have "rs_status (w_resp w') \<in> {204, 301, 401, 404, 405, 500} \<and>
      set (rs_body (w_resp w')) \<subseteq> {BJson auth_required, BJson (gen_Error internal)}"
    unfolding refused_def rs_status_def by simp
  with after(2) show ?thesis by simp
qed

theorem unauthenticated_refused_witness:
  "\<exists>out w'. run_state (serve sample_lib None [] [] (sample_request ''GET'' ''/api/sync'' JNull)) (sample_world sample_db) = (out, w')
     \<and> w_db w' = sample_db \<and> rs_status (w_resp w') \<noteq> 200"
proof -
  let ?r = "sample_request ''GET'' ''/api/sync'' JNull"
  obtain out w' where run: "run_state (serve sample_lib None [] [] ?r) (sample_world sample_db) = (out, w')" by fastforce
  have "path_segments (rq_path ?r) \<notin> set open_paths"
    by (simp add: sample_request_def path_segments_def open_paths_def)
  moreover have "no_session sample_lib ?r (sample_world sample_db)"
    by (simp add: no_session_def sample_request_def Cookie_def)
  ultimately have "w_db w' = sample_db \<and> rs_status (w_resp w') \<in> {204, 301, 401, 404, 405, 500}"
    using unauthenticated_refused [OF _ _ _ run] by simp
  then have "w_db w' = sample_db \<and> rs_status (w_resp w') \<noteq> 200" by auto
  with run show ?thesis by blast
qed

end
