(* ===== verification/GenServer.thy ===== *)
theory GenServer
  imports Router
begin

text \<open>
  The generated part of \<open>internal/api/gen/api.gen.go\<close>: the interface of the contract's
  operations, the wrapper that turns a request into a call of one of them, the error values of
  the parameters, the registration of the routes, and the embedded OpenAPI document.  The
  binding of parameters by \<open>oapi-codegen/runtime\<close>, the decompressor of \<open>compress/flate\<close> and the
  loader of \<open>kin-openapi\<close> are arguments.
\<close>

subsection \<open>Parameters and their errors\<close>

definition ItemItemType_Valid :: "string \<Rightarrow> bool" where
  "ItemItemType_Valid e = (e \<in> {''card'', ''identity'', ''login'', ''note''})"

record GetActivityParams =
  ga_limit :: "int option"
  ga_cursor :: "uuid option"

record GetLoginKdfParamsParams =
  gl_email :: string

text \<open>An error of the binding: \<open>*runtime.RequiredParameterError\<close>, which \<open>errors.As\<close> looks for, or
  another one; both with their text.\<close>

datatype bind_error = RequiredParameterError string | OtherBindError string

fun bind_error_Error :: "bind_error \<Rightarrow> string" where
  "bind_error_Error (RequiredParameterError m) = m"
| "bind_error_Error (OtherBindError m) = m"

text \<open>
  What it computes: whether the parameter is required, its name and the query (or the path value)
  give an error or the value stored.
\<close>

record param_binder =
  bind_query_int :: "bool \<Rightarrow> string \<Rightarrow> (string \<times> string) list \<Rightarrow> bind_error + int option"
  bind_query_uuid :: "bool \<Rightarrow> string \<Rightarrow> (string \<times> string) list \<Rightarrow> bind_error + uuid option"
  bind_query_email :: "bool \<Rightarrow> string \<Rightarrow> (string \<times> string) list \<Rightarrow> bind_error + string"
  bind_path_uuid :: "string \<Rightarrow> string \<Rightarrow> bind_error + uuid"

datatype param_error =
    UnescapedCookieParamError string bind_error
  | UnmarshalingParamError string bind_error
  | RequiredParamError string
  | RequiredHeaderError string bind_error
  | InvalidParamFormatError string bind_error
  | TooManyValuesForParamError string int

text \<open>\<open>%d\<close>.\<close>

fun fmt_nat :: "nat \<Rightarrow> string" where
  "fmt_nat n = (if n < 10 then [char_of (48 + n)] else fmt_nat (n div 10) @ [char_of (48 + n mod 10)])"

definition fmt_int :: "int \<Rightarrow> string" where
  "fmt_int n = (if n < 0 then CHR ''-'' # fmt_nat (nat (- n)) else fmt_nat (nat n))"

definition squote :: string where "squote = [CHR 0x27]"

fun param_error_Error :: "param_error \<Rightarrow> string" where
  "param_error_Error (UnescapedCookieParamError p e) = ''error unescaping cookie parameter '' @ squote @ p @ squote"
| "param_error_Error (UnmarshalingParamError p e) =
     ''Error unmarshaling parameter '' @ p @ '' as JSON: '' @ bind_error_Error e"
| "param_error_Error (RequiredParamError p) = ''Query argument '' @ p @ '' is required, but not found''"
| "param_error_Error (RequiredHeaderError p e) = ''Header parameter '' @ p @ '' is required, but not found''"
| "param_error_Error (InvalidParamFormatError p e) =
     ''Invalid format for parameter '' @ p @ '': '' @ bind_error_Error e"
| "param_error_Error (TooManyValuesForParamError p n) =
     ''Expected one value for '' @ p @ '', got '' @ fmt_int n"

fun param_error_Unwrap :: "param_error \<Rightarrow> bind_error option" where
  "param_error_Unwrap (UnescapedCookieParamError p e) = Some e"
| "param_error_Unwrap (UnmarshalingParamError p e) = Some e"
| "param_error_Unwrap (RequiredHeaderError p e) = Some e"
| "param_error_Unwrap (InvalidParamFormatError p e) = Some e"
| "param_error_Unwrap _ = None"

text \<open>The branch after a failed binding of a query parameter.\<close>

definition query_error :: "string \<Rightarrow> bind_error \<Rightarrow> param_error" where
  "query_error p e = (case e of
     RequiredParameterError m \<Rightarrow> RequiredParamError p
   | OtherBindError m \<Rightarrow> InvalidParamFormatError p e)"

subsection \<open>The interface and its wrapper\<close>

record ServerInterface =
  si_GetActivity :: "request \<Rightarrow> GetActivityParams \<Rightarrow> outcome prog"
  si_PostAuthRefresh :: handler
  si_GetHealth :: handler
  si_ListItems :: handler
  si_CreateItem :: handler
  si_DeleteItem :: "request \<Rightarrow> uuid \<Rightarrow> outcome prog"
  si_UpdateItem :: "request \<Rightarrow> uuid \<Rightarrow> outcome prog"
  si_PostLogin :: handler
  si_GetLoginKdfParams :: "request \<Rightarrow> GetLoginKdfParamsParams \<Rightarrow> outcome prog"
  si_PostLoginMfa :: handler
  si_PostLogout :: handler
  si_GetReady :: handler
  si_PostRegister :: handler
  si_GetSync :: handler
  si_DeleteUser :: handler
  si_DeleteUser2fa :: handler
  si_PostUser2faEnroll :: handler
  si_PostUser2faRecoveryCodes :: handler
  si_PutUserKey :: handler

record ServerInterfaceWrapper =
  siw_Handler :: ServerInterface
  siw_HandlerMiddlewares :: "middleware list"
  siw_ErrorHandlerFunc :: "request \<Rightarrow> param_error \<Rightarrow> outcome prog"

text \<open>\<open>for _, middleware := range ... { handler = middleware(handler) }\<close>: the last one listed
  is the outermost.\<close>

definition siw_wrap :: "ServerInterfaceWrapper \<Rightarrow> handler \<Rightarrow> handler" where
  "siw_wrap siw h = foldl (\<lambda>acc mw. mw acc) h (siw_HandlerMiddlewares siw)"

definition ServerInterfaceWrapper_GetActivity :: "param_binder \<Rightarrow> ServerInterfaceWrapper \<Rightarrow> handler" where
  "ServerInterfaceWrapper_GetActivity b siw r =
     (case bind_query_int b False ''limit'' (rq_query r) of
        Inl e \<Rightarrow> siw_ErrorHandlerFunc siw r (query_error ''limit'' e)
      | Inr lim \<Rightarrow>
         (case bind_query_uuid b False ''cursor'' (rq_query r) of
            Inl e \<Rightarrow> siw_ErrorHandlerFunc siw r (query_error ''cursor'' e)
          | Inr cur \<Rightarrow>
              siw_wrap siw (\<lambda>r. si_GetActivity (siw_Handler siw) r \<lparr>ga_limit = lim, ga_cursor = cur\<rparr>) r))"

definition ServerInterfaceWrapper_PostAuthRefresh :: "ServerInterfaceWrapper \<Rightarrow> handler" where
  "ServerInterfaceWrapper_PostAuthRefresh siw = siw_wrap siw (si_PostAuthRefresh (siw_Handler siw))"

definition ServerInterfaceWrapper_GetHealth :: "ServerInterfaceWrapper \<Rightarrow> handler" where
  "ServerInterfaceWrapper_GetHealth siw = siw_wrap siw (si_GetHealth (siw_Handler siw))"

definition ServerInterfaceWrapper_ListItems :: "ServerInterfaceWrapper \<Rightarrow> handler" where
  "ServerInterfaceWrapper_ListItems siw = siw_wrap siw (si_ListItems (siw_Handler siw))"

definition ServerInterfaceWrapper_CreateItem :: "ServerInterfaceWrapper \<Rightarrow> handler" where
  "ServerInterfaceWrapper_CreateItem siw = siw_wrap siw (si_CreateItem (siw_Handler siw))"

definition ServerInterfaceWrapper_DeleteItem :: "param_binder \<Rightarrow> ServerInterfaceWrapper \<Rightarrow> handler" where
  "ServerInterfaceWrapper_DeleteItem b siw r =
     (case bind_path_uuid b ''id'' (rq_path_id r) of
        Inl e \<Rightarrow> siw_ErrorHandlerFunc siw r (InvalidParamFormatError ''id'' e)
      | Inr iid \<Rightarrow> siw_wrap siw (\<lambda>r. si_DeleteItem (siw_Handler siw) r iid) r)"

definition ServerInterfaceWrapper_UpdateItem :: "param_binder \<Rightarrow> ServerInterfaceWrapper \<Rightarrow> handler" where
  "ServerInterfaceWrapper_UpdateItem b siw r =
     (case bind_path_uuid b ''id'' (rq_path_id r) of
        Inl e \<Rightarrow> siw_ErrorHandlerFunc siw r (InvalidParamFormatError ''id'' e)
      | Inr iid \<Rightarrow> siw_wrap siw (\<lambda>r. si_UpdateItem (siw_Handler siw) r iid) r)"

definition ServerInterfaceWrapper_PostLogin :: "ServerInterfaceWrapper \<Rightarrow> handler" where
  "ServerInterfaceWrapper_PostLogin siw = siw_wrap siw (si_PostLogin (siw_Handler siw))"

definition ServerInterfaceWrapper_GetLoginKdfParams :: "param_binder \<Rightarrow> ServerInterfaceWrapper \<Rightarrow> handler" where
  "ServerInterfaceWrapper_GetLoginKdfParams b siw r =
     (case bind_query_email b True ''email'' (rq_query r) of
        Inl e \<Rightarrow> siw_ErrorHandlerFunc siw r (query_error ''email'' e)
      | Inr email \<Rightarrow> siw_wrap siw (\<lambda>r. si_GetLoginKdfParams (siw_Handler siw) r \<lparr>gl_email = email\<rparr>) r)"

definition ServerInterfaceWrapper_PostLoginMfa :: "ServerInterfaceWrapper \<Rightarrow> handler" where
  "ServerInterfaceWrapper_PostLoginMfa siw = siw_wrap siw (si_PostLoginMfa (siw_Handler siw))"

definition ServerInterfaceWrapper_PostLogout :: "ServerInterfaceWrapper \<Rightarrow> handler" where
  "ServerInterfaceWrapper_PostLogout siw = siw_wrap siw (si_PostLogout (siw_Handler siw))"

definition ServerInterfaceWrapper_GetReady :: "ServerInterfaceWrapper \<Rightarrow> handler" where
  "ServerInterfaceWrapper_GetReady siw = siw_wrap siw (si_GetReady (siw_Handler siw))"

definition ServerInterfaceWrapper_PostRegister :: "ServerInterfaceWrapper \<Rightarrow> handler" where
  "ServerInterfaceWrapper_PostRegister siw = siw_wrap siw (si_PostRegister (siw_Handler siw))"

definition ServerInterfaceWrapper_GetSync :: "ServerInterfaceWrapper \<Rightarrow> handler" where
  "ServerInterfaceWrapper_GetSync siw = siw_wrap siw (si_GetSync (siw_Handler siw))"

definition ServerInterfaceWrapper_DeleteUser :: "ServerInterfaceWrapper \<Rightarrow> handler" where
  "ServerInterfaceWrapper_DeleteUser siw = siw_wrap siw (si_DeleteUser (siw_Handler siw))"

definition ServerInterfaceWrapper_DeleteUser2fa :: "ServerInterfaceWrapper \<Rightarrow> handler" where
  "ServerInterfaceWrapper_DeleteUser2fa siw = siw_wrap siw (si_DeleteUser2fa (siw_Handler siw))"

definition ServerInterfaceWrapper_PostUser2faEnroll :: "ServerInterfaceWrapper \<Rightarrow> handler" where
  "ServerInterfaceWrapper_PostUser2faEnroll siw = siw_wrap siw (si_PostUser2faEnroll (siw_Handler siw))"

definition ServerInterfaceWrapper_PostUser2faRecoveryCodes :: "ServerInterfaceWrapper \<Rightarrow> handler" where
  "ServerInterfaceWrapper_PostUser2faRecoveryCodes siw =
     siw_wrap siw (si_PostUser2faRecoveryCodes (siw_Handler siw))"

definition ServerInterfaceWrapper_PutUserKey :: "ServerInterfaceWrapper \<Rightarrow> handler" where
  "ServerInterfaceWrapper_PutUserKey siw = siw_wrap siw (si_PutUserKey (siw_Handler siw))"

lemmas siw_plain_defs = ServerInterfaceWrapper_PostAuthRefresh_def ServerInterfaceWrapper_GetHealth_def
  ServerInterfaceWrapper_ListItems_def ServerInterfaceWrapper_CreateItem_def ServerInterfaceWrapper_PostLogin_def
  ServerInterfaceWrapper_PostLoginMfa_def ServerInterfaceWrapper_PostLogout_def ServerInterfaceWrapper_GetReady_def
  ServerInterfaceWrapper_PostRegister_def ServerInterfaceWrapper_GetSync_def ServerInterfaceWrapper_DeleteUser_def
  ServerInterfaceWrapper_DeleteUser2fa_def ServerInterfaceWrapper_PostUser2faEnroll_def
  ServerInterfaceWrapper_PostUser2faRecoveryCodes_def ServerInterfaceWrapper_PutUserKey_def

lemmas siw_param_defs = ServerInterfaceWrapper_GetActivity_def ServerInterfaceWrapper_DeleteItem_def
  ServerInterfaceWrapper_UpdateItem_def ServerInterfaceWrapper_GetLoginKdfParams_def

subsection \<open>Registration\<close>

text \<open>
  \<open>ServeMux\<close> is an interface of the generated code: a state \<open>'m\<close> with \<open>HandleFunc\<close>, which here
  takes the method and the segments of the pattern.  The base URL is given by its literal
  segments.  \<open>http_mux\<close> is \<open>http.NewServeMux\<close>, whose state is the route table of theory \<open>Router\<close>.
\<close>

record 'm ServeMux =
  mux_new :: 'm
  mux_HandleFunc :: "string \<Rightarrow> seg list \<Rightarrow> handler \<Rightarrow> 'm \<Rightarrow> 'm"

definition http_mux :: "route list ServeMux" where
  "http_mux = \<lparr>mux_new = [],
     mux_HandleFunc = (\<lambda>m p h rts. rts @ [\<lparr>rt_method = m, rt_path = p, rt_handler = h\<rparr>])\<rparr>"

record 'm StdHTTPServerOptions =
  so_BaseURL :: "string list"
  so_BaseRouter :: "'m option"
  so_Middlewares :: "middleware list"
  so_ErrorHandlerFunc :: "(request \<Rightarrow> param_error \<Rightarrow> outcome prog) option"

definition no_options :: "'m StdHTTPServerOptions" where
  "no_options = \<lparr>so_BaseURL = [], so_BaseRouter = None, so_Middlewares = [], so_ErrorHandlerFunc = None\<rparr>"

text \<open>\<open>http.Error\<close> (its deletion of headers the server never sets is left out).\<close>

definition http_Error :: "string \<Rightarrow> nat \<Rightarrow> unit prog" where
  "http_Error msg code = do {
     respond (rs_set ''Content-Type'' ''text/plain; charset=utf-8'');
     respond (rs_set ''X-Content-Type-Options'' ''nosniff'');
     WriteHeader code;
     respond (rs_write (BText (msg @ [CHR 0x0A])))
   }"

definition default_ErrorHandlerFunc :: "request \<Rightarrow> param_error \<Rightarrow> outcome prog" where
  "default_ErrorHandlerFunc r e = do { http_Error (param_error_Error e) 400; ret Done }"

definition HandlerWithOptions ::
  "param_binder \<Rightarrow> 'm ServeMux \<Rightarrow> ServerInterface \<Rightarrow> 'm StdHTTPServerOptions \<Rightarrow> 'm" where
  "HandlerWithOptions b M si options =
     (let m = (case so_BaseRouter options of None \<Rightarrow> mux_new M | Some m \<Rightarrow> m);
          eh = (case so_ErrorHandlerFunc options of None \<Rightarrow> default_ErrorHandlerFunc | Some f \<Rightarrow> f);
          wrapper = \<lparr>siw_Handler = si, siw_HandlerMiddlewares = so_Middlewares options,
                     siw_ErrorHandlerFunc = eh\<rparr>;
          at = (\<lambda>meth p h. mux_HandleFunc M meth (map Lit (so_BaseURL options) @ p) (h wrapper))
      in fold (\<lambda>f. f)
       [at ''GET'' (api [''activity'']) (ServerInterfaceWrapper_GetActivity b),
        at ''POST'' (api [''auth'', ''refresh'']) ServerInterfaceWrapper_PostAuthRefresh,
        at ''GET'' (api [''health'']) ServerInterfaceWrapper_GetHealth,
        at ''GET'' (api [''items'']) ServerInterfaceWrapper_ListItems,
        at ''POST'' (api [''items'']) ServerInterfaceWrapper_CreateItem,
        at ''DELETE'' (api [''items''] @ [ItemIdWildcard]) (ServerInterfaceWrapper_DeleteItem b),
        at ''PUT'' (api [''items''] @ [ItemIdWildcard]) (ServerInterfaceWrapper_UpdateItem b),
        at ''POST'' (api [''login'']) ServerInterfaceWrapper_PostLogin,
        at ''GET'' (api [''login'', ''kdf-params'']) (ServerInterfaceWrapper_GetLoginKdfParams b),
        at ''POST'' (api [''login'', ''mfa'']) ServerInterfaceWrapper_PostLoginMfa,
        at ''POST'' (api [''logout'']) ServerInterfaceWrapper_PostLogout,
        at ''GET'' (api [''ready'']) ServerInterfaceWrapper_GetReady,
        at ''POST'' (api [''register'']) ServerInterfaceWrapper_PostRegister,
        at ''GET'' (api [''sync'']) ServerInterfaceWrapper_GetSync,
        at ''DELETE'' (api [''user'']) ServerInterfaceWrapper_DeleteUser,
        at ''DELETE'' (api [''user'', ''2fa'']) ServerInterfaceWrapper_DeleteUser2fa,
        at ''POST'' (api [''user'', ''2fa'', ''enroll'']) ServerInterfaceWrapper_PostUser2faEnroll,
        at ''POST'' (api [''user'', ''2fa'', ''recovery-codes'']) ServerInterfaceWrapper_PostUser2faRecoveryCodes,
        at ''PUT'' (api [''user'', ''key'']) ServerInterfaceWrapper_PutUserKey] m)"

definition gen_Handler :: "param_binder \<Rightarrow> 'm ServeMux \<Rightarrow> ServerInterface \<Rightarrow> 'm" where
  "gen_Handler b M si = HandlerWithOptions b M si no_options"

definition HandlerFromMux :: "param_binder \<Rightarrow> 'm ServeMux \<Rightarrow> ServerInterface \<Rightarrow> 'm \<Rightarrow> 'm" where
  "HandlerFromMux b M si m = HandlerWithOptions b M si (no_options\<lparr>so_BaseRouter := Some m\<rparr>)"

definition HandlerFromMuxWithBaseURL ::
  "param_binder \<Rightarrow> 'm ServeMux \<Rightarrow> ServerInterface \<Rightarrow> 'm \<Rightarrow> string list \<Rightarrow> 'm" where
  "HandlerFromMuxWithBaseURL b M si m baseURL =
     HandlerWithOptions b M si (no_options\<lparr>so_BaseURL := baseURL, so_BaseRouter := Some m\<rparr>)"

text \<open>\<open>var _ gen.ServerInterface = (*Server)(nil)\<close> in \<open>handlers.go\<close>: the server implements it.\<close>

definition Server_interface :: "lib \<Rightarrow> ServerInterface" where
  "Server_interface l = \<lparr>
     si_GetActivity = (\<lambda>r p. GetActivity l r (ga_limit p) (ga_cursor p)),
     si_PostAuthRefresh = plain (PostAuthRefresh l),
     si_GetHealth = plain (\<lambda>r. GetHealth),
     si_ListItems = plain ListItems,
     si_CreateItem = plain (CreateItem l),
     si_DeleteItem = (\<lambda>r iid. plain (\<lambda>r. DeleteItem l r iid) r),
     si_UpdateItem = (\<lambda>r iid. plain (\<lambda>r. UpdateItem l r iid) r),
     si_PostLogin = plain (PostLogin l),
     si_GetLoginKdfParams = (\<lambda>r p. plain (\<lambda>r. GetLoginKdfParams l r (gl_email p)) r),
     si_PostLoginMfa = plain (PostLoginMfa l),
     si_PostLogout = plain (PostLogout l),
     si_GetReady = plain GetReady,
     si_PostRegister = plain (PostRegister l),
     si_GetSync = plain (GetSync l),
     si_DeleteUser = plain (DeleteUser l),
     si_DeleteUser2fa = plain (DeleteUser2fa l),
     si_PostUser2faEnroll = plain (PostUser2faEnroll l),
     si_PostUser2faRecoveryCodes = plain (PostUser2faRecoveryCodes l),
     si_PutUserKey = plain (PutUserKey l)\<rparr>"

subsection \<open>The embedded document\<close>

text \<open>
  \<open>swaggerSpec\<close> is the argument \<open>chunks\<close>; \<open>flate\<close> is what reading the decompressor to its end
  and closing it give.
\<close>

record flate_result =
  fl_read :: "err + bytes"
  fl_close :: "err option"

definition decodeSpec :: "(bytes \<Rightarrow> flate_result) \<Rightarrow> string list \<Rightarrow> err + bytes" where
  "decodeSpec flate chunks =
     (case base64_decode (concat chunks) of
        None \<Rightarrow> Inl (Wrap ''error base64 decoding spec'' (ErrText ''illegal base64 data''))
      | Some compressed \<Rightarrow>
         (let zr = flate compressed in
          case fl_read zr of
            Inl e \<Rightarrow> Inl (Wrap ''read flate'' e)
          | Inr buf \<Rightarrow>
             (case fl_close zr of
                Some e \<Rightarrow> Inl (Wrap ''close flate reader'' e)
              | None \<Rightarrow> Inr buf)))"

text \<open>\<open>rawSpec\<close>: the result computed once, when the package is initialised.\<close>

definition decodeSpecCached :: "(bytes \<Rightarrow> flate_result) \<Rightarrow> string list \<Rightarrow> unit \<Rightarrow> err + bytes" where
  "decodeSpecCached flate chunks = (let data = decodeSpec flate chunks in (\<lambda>_. data))"

definition PathToRawSpec :: "(unit \<Rightarrow> err + bytes) \<Rightarrow> string \<Rightarrow> string \<rightharpoonup> (unit \<Rightarrow> err + bytes)" where
  "PathToRawSpec rawSpec pathToFile =
     (if 0 < length pathToFile then [pathToFile \<mapsto> rawSpec] else Map.empty)"

text \<open>\<open>ReadFromURIFunc\<close> of the loader, on the cleaned path of the URL.\<close>

definition read_from_uri :: "(unit \<Rightarrow> err + bytes) \<Rightarrow> string \<Rightarrow> err + bytes" where
  "read_from_uri rawSpec pathToFile =
     (case PathToRawSpec rawSpec [] pathToFile of
        None \<Rightarrow> Inl (ErrText (''path not found: '' @ pathToFile))
      | Some getSpec \<Rightarrow> getSpec ())"

definition GetSpec ::
  "((string \<Rightarrow> err + bytes) \<Rightarrow> bytes \<Rightarrow> err + 'doc) \<Rightarrow> (unit \<Rightarrow> err + bytes) \<Rightarrow> err + 'doc" where
  "GetSpec load rawSpec =
     (case rawSpec () of
        Inl e \<Rightarrow> Inl e
      | Inr specData \<Rightarrow> load (read_from_uri rawSpec) specData)"

definition GetSpecJSON :: "(unit \<Rightarrow> err + bytes) \<Rightarrow> err + bytes" where
  "GetSpecJSON rawSpec = rawSpec ()"

definition GetSwagger ::
  "((string \<Rightarrow> err + bytes) \<Rightarrow> bytes \<Rightarrow> err + 'doc) \<Rightarrow> (unit \<Rightarrow> err + bytes) \<Rightarrow> err + 'doc" where
  "GetSwagger load rawSpec = GetSpec load rawSpec"

text \<open>What \<open>serveSpec\<close> gets: its argument of theory \<open>Router\<close>.\<close>

definition embedded_spec :: "lib \<Rightarrow> (bytes \<Rightarrow> flate_result) \<Rightarrow> string list \<Rightarrow> json option option" where
  "embedded_spec l flate chunks =
     (case GetSpecJSON (decodeSpecCached flate chunks) of
        Inl _ \<Rightarrow> None
      | Inr spec \<Rightarrow> Some (json_parse l spec))"

end
