(* ===== verification/Contract.thy ===== *)
theory Contract
  imports Perimeter GenServer
begin

text \<open>
  The hand-written router against the contract.  \<open>NewRouter\<close> registers its routes by hand
  instead of using the generated \<open>HandlerWithOptions\<close>; here the two are compared route by
  route and request by request, and the embedded document is followed to the response.
\<close>

subsection \<open>The routes of the contract\<close>

definition contract :: "lib \<Rightarrow> param_binder \<Rightarrow> route list" where
  "contract l b = gen_Handler b http_mux (Server_interface l)"

lemmas registration_defs = contract_def gen_Handler_def HandlerWithOptions_def http_mux_def no_options_def

lemmas wrapper_defs = siw_plain_defs siw_param_defs siw_wrap_def Server_interface_def

definition docs_route :: "route \<Rightarrow> bool" where
  "docs_route rt = (rt_path rt \<in> {[Lit ''openapi.json''], [Lit ''docs'']})"

text \<open>The chains in front of a route.\<close>

definition guards :: "lib \<Rightarrow> middleware list set" where
  "guards l = {[], [requireCSRF], [sessionAuth l], [sessionAuth l, requireCSRF]}"

text \<open>
  The chain that belongs to an operation, as a rule: all but the probes, the sign-up and the
  three steps of a login need a session, and every method but \<open>GET\<close> needs the CSRF header.
\<close>

definition public_paths :: "seg list list" where
  "public_paths = [api [''health''], api [''ready''], api [''register''], api [''login'', ''kdf-params''],
     api [''login''], api [''login'', ''mfa''], api [''auth'', ''refresh'']]"

definition guard_of :: "lib \<Rightarrow> string \<Rightarrow> seg list \<Rightarrow> middleware list" where
  "guard_of l m p = (if p \<in> set public_paths then [] else [sessionAuth l]) @
     (if m = ''GET'' then [] else [requireCSRF])"

lemma guard_of_guards: "guard_of l m p \<in> guards l"
  by (simp add: guard_of_def guards_def)

text \<open>
  The generated wrapper and the code read the parameters alike: both accept them, with the
  same value.  For the activity log that is a positive limit or none.
\<close>

definition id_agrees :: "lib \<Rightarrow> param_binder \<Rightarrow> request \<Rightarrow> bool" where
  "id_agrees l b q = (case bind_path_uuid b ''id'' (rq_path_id q) of
     Inl e \<Rightarrow> False | Inr iid \<Rightarrow> uuid_Parse l (rq_path_id q) = Some iid)"

definition email_agrees :: "param_binder \<Rightarrow> request \<Rightarrow> bool" where
  "email_agrees b q = (Query_Get ''email'' q \<noteq> [] \<and>
     bind_query_email b True ''email'' (rq_query q) = Inr (Query_Get ''email'' q))"

definition page_agrees :: "lib \<Rightarrow> param_binder \<Rightarrow> request \<Rightarrow> bool" where
  "page_agrees l b q =
     (let s = Query_Get ''limit'' q; c = Query_Get ''cursor'' q;
          lim = (if s = [] then None else parseIntParam s); cur = (if c = [] then None else uuid_Parse l c)
      in bind_query_int b False ''limit'' (rq_query q) = Inr lim \<and> (case lim of None \<Rightarrow> True | Some n \<Rightarrow> 0 < n) \<and>
         bind_query_uuid b False ''cursor'' (rq_query q) = Inr cur)"

definition params_agree :: "lib \<Rightarrow> param_binder \<Rightarrow> seg list \<Rightarrow> request \<Rightarrow> bool" where
  "params_agree l b p q =
     ((p = api [''items''] @ [ItemIdWildcard] \<longrightarrow> id_agrees l b q) \<and>
      (p = api [''login'', ''kdf-params''] \<longrightarrow> email_agrees b q) \<and>
      (p = api [''activity''] \<longrightarrow> page_agrees l b q))"

lemma query_ctx: "Query_Get k (q\<lparr>cx_user_id := u\<rparr>) = Query_Get k q"
  by (simp add: Query_Get_def)

lemma params_agree_ctx: "params_agree l b p (q\<lparr>cx_user_id := u\<rparr>) = params_agree l b p q"
  by (simp add: params_agree_def id_agrees_def email_agrees_def page_agrees_def query_ctx
      cong: sum.case_cong)

text \<open>Handlers that agree under agreeing parameters still do behind the same guards.\<close>

lemma chain_agrees:
  assumes "mws \<in> guards l" and "\<And>q. params_agree l b p q \<Longrightarrow> h q = g q" and "params_agree l b p q"
  shows "chain h mws q = chain g mws q"
proof -
  have ctx: "h (q\<lparr>cx_user_id := u\<rparr>) = g (q\<lparr>cx_user_id := u\<rparr>)" for u
    by (rule assms(2)) (simp add: params_agree_ctx assms(3))
  have "h q = g q" using assms(2,3) by blast
  then show ?thesis
    using assms(1) ctx
    by (auto simp: guards_def chain_def requireCSRF_def sessionAuth_def cong: option.case_cong sum.case_cong if_cong)
qed

definition matches_contract :: "lib \<Rightarrow> param_binder \<Rightarrow> route \<Rightarrow> route \<Rightarrow> bool" where
  "matches_contract l b rt rt' = (rt_method rt = rt_method rt' \<and> rt_path rt = rt_path rt' \<and>
     (\<exists>h. rt_handler rt = chain h (guard_of l (rt_method rt) (rt_path rt)) \<and>
        (\<forall>q. params_agree l b (rt_path rt) q \<longrightarrow> h q = rt_handler rt' q)))"

lemma matches_plain:
  "mws = guard_of l m p \<Longrightarrow> matches_contract l b (route_of m p mws f) \<lparr>rt_method = m, rt_path = p, rt_handler = plain f\<rparr>"
  by (auto simp: matches_contract_def route_of_def)

lemma activity_default: "GetActivity l r None c = GetActivity l r (Some 50) c"
  by (simp add: GetActivity_def Let_def cong: option.case_cong)

definition contract_wrapper :: "lib \<Rightarrow> ServerInterfaceWrapper" where
  "contract_wrapper l = \<lparr>siw_Handler = Server_interface l, siw_HandlerMiddlewares = [],
     siw_ErrorHandlerFunc = default_ErrorHandlerFunc\<rparr>"

text \<open>The contract's routes in the order of the router.\<close>

definition contract_order :: "nat list" where
  "contract_order = [2, 11, 12, 8, 7, 9, 1, 10, 14, 18, 16, 15, 17, 0, 3, 4, 6, 5, 13]"

lemma contract_wrapper_simps: "siw_wrap (contract_wrapper l) h = h"
  "siw_Handler (contract_wrapper l) = Server_interface l"
  by (simp_all add: siw_wrap_def contract_wrapper_def)

lemma contract_routes: "contract l b =
  (let siw = contract_wrapper l; at = (\<lambda>m p h. \<lparr>rt_method = m, rt_path = p, rt_handler = h\<rparr>) in
   [at ''GET'' (api [''activity'']) (ServerInterfaceWrapper_GetActivity b siw),
    at ''POST'' (api [''auth'', ''refresh'']) (plain (PostAuthRefresh l)),
    at ''GET'' (api [''health'']) (plain (\<lambda>r. GetHealth)),
    at ''GET'' (api [''items'']) (plain ListItems),
    at ''POST'' (api [''items'']) (plain (CreateItem l)),
    at ''DELETE'' (api [''items''] @ [ItemIdWildcard]) (ServerInterfaceWrapper_DeleteItem b siw),
    at ''PUT'' (api [''items''] @ [ItemIdWildcard]) (ServerInterfaceWrapper_UpdateItem b siw),
    at ''POST'' (api [''login'']) (plain (PostLogin l)),
    at ''GET'' (api [''login'', ''kdf-params'']) (ServerInterfaceWrapper_GetLoginKdfParams b siw),
    at ''POST'' (api [''login'', ''mfa'']) (plain (PostLoginMfa l)),
    at ''POST'' (api [''logout'']) (plain (PostLogout l)),
    at ''GET'' (api [''ready'']) (plain GetReady),
    at ''POST'' (api [''register'']) (plain (PostRegister l)),
    at ''GET'' (api [''sync'']) (plain (GetSync l)),
    at ''DELETE'' (api [''user'']) (plain (DeleteUser l)),
    at ''DELETE'' (api [''user'', ''2fa'']) (plain (DeleteUser2fa l)),
    at ''POST'' (api [''user'', ''2fa'', ''enroll'']) (plain (PostUser2faEnroll l)),
    at ''POST'' (api [''user'', ''2fa'', ''recovery-codes'']) (plain (PostUser2faRecoveryCodes l)),
    at ''PUT'' (api [''user'', ''key'']) (plain (PutUserKey l))])"
  by (simp add: registration_defs contract_wrapper_def [symmetric] siw_plain_defs contract_wrapper_simps Let_def)
     (simp add: Server_interface_def)

lemma contract_patterns: "map pattern (contract l b) =
  [(''GET'', api [''activity'']), (''POST'', api [''auth'', ''refresh'']), (''GET'', api [''health'']),
   (''GET'', api [''items'']), (''POST'', api [''items'']), (''DELETE'', api [''items''] @ [ItemIdWildcard]),
   (''PUT'', api [''items''] @ [ItemIdWildcard]), (''POST'', api [''login'']), (''GET'', api [''login'', ''kdf-params'']),
   (''POST'', api [''login'', ''mfa'']), (''POST'', api [''logout'']), (''GET'', api [''ready'']),
   (''POST'', api [''register'']), (''GET'', api [''sync'']), (''DELETE'', api [''user'']),
   (''DELETE'', api [''user'', ''2fa'']), (''POST'', api [''user'', ''2fa'', ''enroll'']),
   (''POST'', api [''user'', ''2fa'', ''recovery-codes'']), (''PUT'', api [''user'', ''key''])]"
  by (simp add: contract_routes Let_def)

lemma route_of_fields: "rt_method (route_of m p mws f) = m" "rt_path (route_of m p mws f) = p"
  by (simp_all add: route_of_def)

lemma router_routes: "filter (Not \<circ> docs_route) (routes l spec page) =
     [route_of ''GET'' (api [''health'']) [] (\<lambda>r. GetHealth),
      route_of ''GET'' (api [''ready'']) [] GetReady,
      route_of ''POST'' (api [''register'']) [requireCSRF] (PostRegister l),
      route_of ''GET'' (api [''login'', ''kdf-params'']) [] (getLoginKdfParams l),
      route_of ''POST'' (api [''login'']) [requireCSRF] (PostLogin l),
      route_of ''POST'' (api [''login'', ''mfa'']) [requireCSRF] (PostLoginMfa l),
      route_of ''POST'' (api [''auth'', ''refresh'']) [requireCSRF] (PostAuthRefresh l),
      route_of ''POST'' (api [''logout'']) [sessionAuth l, requireCSRF] (PostLogout l),
      route_of ''DELETE'' (api [''user'']) [sessionAuth l, requireCSRF] (DeleteUser l),
      route_of ''PUT'' (api [''user'', ''key'']) [sessionAuth l, requireCSRF] (PutUserKey l),
      route_of ''POST'' (api [''user'', ''2fa'', ''enroll'']) [sessionAuth l, requireCSRF]
        (PostUser2faEnroll l),
      route_of ''DELETE'' (api [''user'', ''2fa'']) [sessionAuth l, requireCSRF] (DeleteUser2fa l),
      route_of ''POST'' (api [''user'', ''2fa'', ''recovery-codes'']) [sessionAuth l, requireCSRF]
        (PostUser2faRecoveryCodes l),
      route_for ''GET'' (api [''activity'']) [sessionAuth l] (getActivity l),
      route_of ''GET'' (api [''items'']) [sessionAuth l] ListItems,
      route_of ''POST'' (api [''items'']) [sessionAuth l, requireCSRF] (CreateItem l),
      route_of ''PUT'' (api [''items''] @ [ItemIdWildcard]) [sessionAuth l, requireCSRF]
        (withItemID l (UpdateItem l)),
      route_of ''DELETE'' (api [''items''] @ [ItemIdWildcard]) [sessionAuth l, requireCSRF]
        (withItemID l (DeleteItem l)),
      route_of ''GET'' (api [''sync'']) [sessionAuth l] (GetSync l)]"
  by (simp add: routes_def docs_route_def route_of_fields)

lemma matches_handler:
  assumes "mws = guard_of l m p" and "\<And>q. params_agree l b p q \<Longrightarrow> f q = h q"
  shows "matches_contract l b (route_for m p mws f) \<lparr>rt_method = m, rt_path = p, rt_handler = h\<rparr>"
  using assms by (auto simp: matches_contract_def)

lemma matches_special:
  assumes "mws = guard_of l m p" and "\<And>q. params_agree l b p q \<Longrightarrow> plain f q = h q"
  shows "matches_contract l b (route_of m p mws f) \<lparr>rt_method = m, rt_path = p, rt_handler = h\<rparr>"
  using assms by (auto simp: matches_contract_def route_of_def)

text \<open>Every route of the router but the two of the documentation is one of the contract's, and
  conversely.\<close>

lemma matches_params:
  "params_agree l b (api [''activity'']) q \<Longrightarrow>
      getActivity l q = ServerInterfaceWrapper_GetActivity b (contract_wrapper l) q"
  "params_agree l b (api [''login'', ''kdf-params'']) q \<Longrightarrow>
      plain (getLoginKdfParams l) q = ServerInterfaceWrapper_GetLoginKdfParams b (contract_wrapper l) q"
  "params_agree l b (api [''items''] @ [ItemIdWildcard]) q \<Longrightarrow>
      plain (withItemID l (UpdateItem l)) q = ServerInterfaceWrapper_UpdateItem b (contract_wrapper l) q"
  "params_agree l b (api [''items''] @ [ItemIdWildcard]) q \<Longrightarrow>
      plain (withItemID l (DeleteItem l)) q = ServerInterfaceWrapper_DeleteItem b (contract_wrapper l) q"
  by (auto simp: params_agree_def id_agrees_def email_agrees_def page_agrees_def siw_param_defs
      contract_wrapper_simps Server_interface_def plain_def withItemID_def getLoginKdfParams_def getActivity_def
      activity_default Let_def split: sum.splits option.splits if_splits)

lemma contract_complete:
  "list_all2 (matches_contract l b) (filter (Not \<circ> docs_route) (routes l spec page))
     (map (nth (contract l b)) contract_order)"
  unfolding router_routes contract_routes Let_def contract_order_def
  by (simp, intro conjI matches_plain matches_special matches_handler;
      simp add: matches_params guard_of_def public_paths_def)

lemma contract_order_set: "set (map (nth (contract l b)) contract_order) = set (contract l b)"
proof -
  have "n \<in> set contract_order" if "n < 19" for n
    using that by (auto simp: contract_order_def eval_nat_numeral less_Suc_eq)
  then have "set contract_order = {..<19}" by (auto simp: contract_order_def)
  moreover have "length (contract l b) = 19" by (simp add: contract_routes Let_def)
  ultimately show ?thesis using nth_image [of "length (contract l b)" "contract l b"]
    by (simp add: lessThan_atLeast0)
qed

lemma list_all2_left: "list_all2 P xs ys \<Longrightarrow> x \<in> set xs \<Longrightarrow> \<exists>y \<in> set ys. P x y"
  by (induction rule: list_all2_induct) auto

lemma list_all2_right: "list_all2 P xs ys \<Longrightarrow> y \<in> set ys \<Longrightarrow> \<exists>x \<in> set xs. P x y"
  by (induction rule: list_all2_induct) auto

lemma contract_route_of:
  assumes "rt \<in> set (routes l spec page)" and "\<not> docs_route rt"
  obtains rt' where "rt' \<in> set (contract l b)" "matches_contract l b rt rt'"
proof -
  have "rt \<in> set (filter (Not \<circ> docs_route) (routes l spec page))" using assms by simp
  from list_all2_left [OF contract_complete this, of b] that show ?thesis
    unfolding contract_order_set by blast
qed

lemma router_route_of:
  assumes "rt' \<in> set (contract l b)"
  obtains rt where "rt \<in> set (routes l spec page)" "\<not> docs_route rt" "matches_contract l b rt rt'"
proof -
  have "rt' \<in> set (map (nth (contract l b)) contract_order)" using assms contract_order_set by blast
  from list_all2_right [OF contract_complete this, of spec page] that show ?thesis by auto
qed

subsection \<open>Requests\<close>

lemma first_match_unique:
  assumes "rt \<in> set rts" and "route_match r rt = Some pid"
    and "\<And>rt'. rt' \<in> set rts \<Longrightarrow> route_match r rt' \<noteq> None \<Longrightarrow> rt' = rt"
  shows "first_match r rts = Some (pid, rt)"
  using assms
proof (induction rts)
  case Nil
  then show ?case by simp
next
  case (Cons x xs)
  show ?case
  proof (cases "route_match r x")
    case None
    then have "rt \<in> set xs" using Cons.prems(1,2) by auto
    then have "first_match r xs = Some (pid, rt)"
      using Cons.IH Cons.prems(2,3) by (meson list.set_intros(2))
    with None show ?thesis by simp
  next
    case (Some p)
    then have "x = rt" using Cons.prems(3) [of x] by simp
    with Cons.prems(2) show ?thesis by simp
  qed
qed

lemma first_match_ctx: "first_match (r\<lparr>cx_user_id := u\<rparr>) rts = first_match r rts"
  by (induction rts) (simp_all add: route_match_def cong: option.case_cong if_cong)

lemma first_match_None: "first_match r rts = None \<longleftrightarrow> (\<forall>rt \<in> set rts. route_match r rt = None)"
  by (induction rts) (auto split: option.split)

lemma match_lits: "match_segs (map Lit xs) ss \<noteq> None \<longleftrightarrow> ss = xs"
proof (induction xs arbitrary: ss)
  case Nil
  then show ?case by (cases ss) auto
next
  case (Cons x xs)
  then show ?case by (cases ss) auto
qed

definition docs_path :: "request \<Rightarrow> bool" where
  "docs_path r = (path_segments (rq_path r) \<in> {[''openapi.json''], [''docs'']})"

lemma docs_unmatched: "\<not> docs_path r \<Longrightarrow> docs_route rt \<Longrightarrow> match_segs (rt_path rt) (path_segments (rq_path r)) = None"
  using match_lits [of "[''openapi.json'']" "path_segments (rq_path r)"]
    match_lits [of "[''docs'']" "path_segments (rq_path r)"]
  by (auto simp: docs_path_def docs_route_def)

lemma same_match:
  "matches_contract l b rt rt' \<Longrightarrow> route_match r rt' = route_match r rt"
  by (simp add: matches_contract_def route_match_def)

lemma router_matches:
  assumes "first_match r (contract l b) = Some (pid, rt')"
  obtains rt where "first_match r (routes l spec page) = Some (pid, rt)" "matches_contract l b rt rt'"
proof -
  have rt': "rt' \<in> set (contract l b)" "route_match r rt' = Some pid" using matched_route [OF assms] by auto
  obtain rt where rt: "rt \<in> set (routes l spec page)" "matches_contract l b rt rt'"
    using router_route_of [OF rt'(1)] by blast
  have m: "route_match r rt = Some pid" using same_match [OF rt(2)] rt'(2) by simp
  have "first_match r (routes l spec page) = Some (pid, rt)"
    by (rule first_match_unique [OF rt(1) m]) (use match_unique [OF _ rt(1)] m in auto)
  then show ?thesis using that rt(2) by blast
qed

lemma router_no_match:
  assumes "first_match r (contract l b) = None" and "\<not> docs_path r"
  shows "first_match r (routes l spec page) = None"
proof -
  have "route_match r rt = None" if rt: "rt \<in> set (routes l spec page)" for rt
  proof (cases "docs_route rt")
    case True
    then show ?thesis using docs_unmatched [OF assms(2)] by (simp add: route_match_def)
  next
    case False
    obtain rt' where "rt' \<in> set (contract l b)" "matches_contract l b rt rt'"
      using contract_route_of [OF rt False] by blast
    then show ?thesis using assms(1) same_match [of l b rt rt' r] by (simp add: first_match_None)
  qed
  then show ?thesis by (simp add: first_match_None)
qed

lemma same_paths_known:
  assumes "\<not> docs_path r"
  shows "path_known r (routes l spec page) = path_known r (contract l b)"
proof
  assume "path_known r (routes l spec page)"
  then obtain rt where rt: "rt \<in> set (routes l spec page)" "match_segs (rt_path rt) (path_segments (rq_path r)) \<noteq> None"
    by (auto simp: path_known_def list_ex_iff)
  then have "\<not> docs_route rt" using docs_unmatched [OF assms, of rt] by auto
  then obtain rt' where "rt' \<in> set (contract l b)" "matches_contract l b rt rt'"
    using contract_route_of [OF rt(1)] by blast
  with rt(2) show "path_known r (contract l b)"
    by (auto simp: path_known_def list_ex_iff matches_contract_def)
next
  assume "path_known r (contract l b)"
  then obtain rt' where rt': "rt' \<in> set (contract l b)" "match_segs (rt_path rt') (path_segments (rq_path r)) \<noteq> None"
    by (auto simp: path_known_def list_ex_iff)
  obtain rt where "rt \<in> set (routes l spec page)" "matches_contract l b rt rt'"
    using router_route_of [OF rt'(1)] by blast
  with rt'(2) show "path_known r (routes l spec page)"
    unfolding path_known_def list_ex_iff matches_contract_def by metis
qed

text \<open>The guards in front of the mux or behind it.\<close>

lemma chain_mux:
  assumes "mws \<in> guards l" and "clean_path (rq_path r)" and m: "first_match r rts = Some (pid, rt)"
  shows "chain (mux rts) mws r = chain (rt_handler rt) mws (r\<lparr>rq_path_id := pid\<rparr>)"
proof -
  have "first_match (r\<lparr>cx_user_id := u\<rparr>) rts = Some (pid, rt)" for u
    using m by (simp add: first_match_ctx)
  moreover have "r\<lparr>cx_user_id := u, rq_path_id := pid\<rparr> = r\<lparr>rq_path_id := pid, cx_user_id := u\<rparr>" for u
    by (cases r) simp
  note swap = this
  ultimately have u: "mux rts (r\<lparr>cx_user_id := u\<rparr>) = rt_handler rt (r\<lparr>rq_path_id := pid, cx_user_id := u\<rparr>)" for u
    using assms(2) by (simp add: mux_def swap)
  have "mux rts r = rt_handler rt (r\<lparr>rq_path_id := pid\<rparr>)" using assms(2) m by (simp add: mux_def)
  then show ?thesis
    using assms(1) by (auto simp: guards_def chain_def requireCSRF_def sessionAuth_def Cookie_def u
        cong: option.case_cong sum.case_cong if_cong)
qed

text \<open>The chain in front of the operation a request asks for; none for a redirect, 404 or 405.\<close>

definition contract_guards :: "lib \<Rightarrow> param_binder \<Rightarrow> request \<Rightarrow> middleware list" where
  "contract_guards l b r = (case first_match r (contract l b) of
     None \<Rightarrow> []
   | Some (pid, rt) \<Rightarrow> if clean_path (rq_path r) then guard_of l (rt_method rt) (rt_path rt) else [])"

text \<open>
  C14: the router serves the contract behind the right guards.  Take a request outside the
  two documentation paths whose parameters, where its operation has any, both sides read
  alike: the generated binding accepts them with the value the code reads, and a limit is
  positive.  The hand-written router answers it exactly as the generated server of the
  contract does over the same handlers - same operation, same path value, same redirect, 405
  and 404 - behind the chain that belongs to the operation: the session check on all but the
  seven public operations, the CSRF check on every method but \<open>GET\<close>.  (Requests whose
  parameters only one side accepts, such as \<open>limit=abc\<close>, get different answers and are
  excluded.)
\<close>

theorem router_serves_the_contract:
  assumes "\<not> docs_path r"
    and "\<And>pid rt. first_match r (contract l b) = Some (pid, rt) \<Longrightarrow>
      params_agree l b (rt_path rt) (r\<lparr>rq_path_id := pid\<rparr>)"
  shows "mux (routes l spec page) r = chain (mux (contract l b)) (contract_guards l b r) r"
proof (cases "clean_path (rq_path r)")
  case False
  then show ?thesis by (simp add: mux_def chain_def contract_guards_def split: option.split)
next
  case clean: True
  show ?thesis
  proof (cases "first_match r (contract l b)")
    case None
    then show ?thesis
      using clean router_no_match [OF None assms(1)]
        same_paths_known [OF assms(1), of l spec page b] by (simp add: mux_def chain_def contract_guards_def)
  next
    case (Some x)
    then obtain pid rt' where m: "first_match r (contract l b) = Some (pid, rt')" by (cases x) auto
    obtain rt where rt: "first_match r (routes l spec page) = Some (pid, rt)" "matches_contract l b rt rt'"
      using router_matches [OF m] by blast
    let ?mws = "guard_of l (rt_method rt') (rt_path rt')"
    from rt(2) obtain h where mws: "rt_handler rt = chain h ?mws" "rt_path rt = rt_path rt'"
      and h: "\<And>q. params_agree l b (rt_path rt) q \<Longrightarrow> h q = rt_handler rt' q"
      by (auto simp: matches_contract_def)
    have "mux (routes l spec page) r = chain h ?mws (r\<lparr>rq_path_id := pid\<rparr>)"
      using clean rt(1) mws(1) by (simp add: mux_def)
    also have "\<dots> = chain (rt_handler rt') ?mws (r\<lparr>rq_path_id := pid\<rparr>)"
      by (rule chain_agrees [OF guard_of_guards h]) (use assms(2) [OF m] mws(2) in simp_all)
    also have "\<dots> = chain (mux (contract l b)) ?mws r" by (rule chain_mux [OF guard_of_guards clean m, symmetric])
    finally show ?thesis by (simp add: contract_guards_def m clean)
  qed
qed

definition sample_binder :: param_binder where
  "sample_binder = \<lparr>
     bind_query_int = (\<lambda>req k q. Inr None), bind_query_uuid = (\<lambda>req k q. Inr None),
     bind_query_email = (\<lambda>req k q. case map_of q k of None \<Rightarrow> Inl (RequiredParameterError k) | Some v \<Rightarrow> Inr v),
     bind_path_uuid = (\<lambda>k v. case uuid_Parse sample_lib v of None \<Rightarrow> Inl (OtherBindError k) | Some i \<Rightarrow> Inr i)\<rparr>"

definition sample_delete :: request where
  "sample_delete = sample_request ''DELETE'' ''/api/items/u1'' JNull"

theorem router_serves_the_contract_witness:
  "mux (routes sample_lib None []) sample_delete =
     chain (mux (contract sample_lib sample_binder)) [sessionAuth sample_lib, requireCSRF] sample_delete"
proof -
  have segs: "path_segments (rq_path sample_delete) = [''api'', ''items'', ''u1'']"
    by (simp add: sample_delete_def sample_request_def path_segments_def)
  have sample_delete_method: "rq_method sample_delete = ''DELETE''"
    by (simp add: sample_delete_def sample_request_def)
  have m: "first_match sample_delete (contract sample_lib sample_binder) =
      Some (''u1'', contract sample_lib sample_binder ! 5)"
    unfolding contract_routes Let_def
    by (simp add: route_match_def segs method_matches_def sample_delete_method)
  have rt: "rt_path (contract sample_lib sample_binder ! 5) = api [''items''] @ [ItemIdWildcard]"
    "rt_method (contract sample_lib sample_binder ! 5) = ''DELETE''"
    by (simp_all add: contract_routes Let_def)
  have clean: "clean_path (rq_path sample_delete)"
    by (simp add: sample_delete_def sample_request_def clean_path_def path_segments_def)
  have "contract_guards sample_lib sample_binder sample_delete = [sessionAuth sample_lib, requireCSRF]"
    by (simp add: contract_guards_def m clean rt guard_of_def public_paths_def)
  moreover have "mux (routes sample_lib None []) sample_delete =
     chain (mux (contract sample_lib sample_binder)) (contract_guards sample_lib sample_binder sample_delete) sample_delete"
  proof (rule router_serves_the_contract)
    show "\<not> docs_path sample_delete" by (simp add: docs_path_def segs)
    fix pid rt' assume "first_match sample_delete (contract sample_lib sample_binder) = Some (pid, rt')"
    then have "pid = ''u1''" "rt_path rt' = api [''items''] @ [ItemIdWildcard]" using m rt by simp_all
    then show "params_agree sample_lib sample_binder (rt_path rt') (sample_delete\<lparr>rq_path_id := pid\<rparr>)"
      by (simp add: params_agree_def id_agrees_def sample_binder_def sample_lib_def)
  qed
  ultimately show ?thesis by simp
qed

end
