(* ===== verification/ParamInt.thy ===== *)
theory ParamInt
  imports Contract
begin

text \<open>
  Numbers in query parameters (\<open>helpers.go\<close>): \<open>parseIntParam\<close> at 64 bits against the value of
  the digits.
\<close>

definition is_digit :: "char \<Rightarrow> bool" where
  "is_digit c = (48 \<le> (of_char c :: nat) \<and> (of_char c :: nat) \<le> 57)"

fun digits_value :: "string \<Rightarrow> nat \<Rightarrow> nat" where
  "digits_value [] n = n"
| "digits_value (c # cs) n = digits_value cs (n * 10 + (of_char c - 48))"

lemma parse_int_loop_value:
  "parse_int_loop s (of_nat n) = (if list_all is_digit s then Some (of_nat (digits_value s n)) else None)"
proof (induction s arbitrary: n)
  case (Cons c cs)
  have "of_nat n * 10 + of_nat (of_char c - 48) = (of_nat (n * 10 + (of_char c - 48)) :: 64 word)" by simp
  then show ?case using Cons.IH [of "n * 10 + (of_char c - 48)"]
    by (auto simp: is_digit_def not_less not_le)
qed simp

lemma digits_value_snoc: "digits_value (s @ [c]) n = digits_value s n * 10 + (of_char c - 48)"
  by (induction s arbitrary: n) simp_all

lemma fmt_nat_digits: "list_all is_digit (fmt_nat n) \<and> digits_value (fmt_nat n) 0 = n"
proof (induction n rule: fmt_nat.induct)
  case (1 n)
  have d: "is_digit (char_of (48 + m))" "of_char (char_of (48 + m)) = 48 + m" if "m < 10" for m :: nat
    using that by (simp_all add: is_digit_def)
  show ?case
    using 1 d [of n] d [of "n mod 10"] by (simp add: digits_value_snoc del: fmt_nat.simps) (simp add: fmt_nat.simps [of n] digits_value_snoc)
qed

lemma sint_value: "sint (of_nat n :: 64 word) = (int n + 2 ^ 63) mod 2 ^ 64 - 2 ^ 63"
  by (simp add: signed_of_nat signed_take_bit_eq_take_bit_shift take_bit_eq_mod)

lemma parseIntParam_value:
  "parseIntParam s = (if list_all is_digit s then Some ((int (digits_value s 0) + 2 ^ 63) mod 2 ^ 64 - 2 ^ 63) else None)"
  using parse_int_loop_value [of s 0] by (simp add: parseIntParam_def sint_value del: of_nat_numeral)

text \<open>
  Number parameters wrap around.  \<open>parseIntParam\<close> accepts exactly the strings of decimal
  digits and returns their value as a 64-bit signed integer, without noticing an overflow: so
  a number below \<open>2 ^ 63\<close> is read back as itself, and adding any multiple of \<open>2 ^ 64\<close> to
  it changes nothing.
\<close>

theorem number_parameter_wraps:
  "parseIntParam s = (if list_all is_digit s
     then Some ((int (digits_value s 0) + 2 ^ 63) mod 2 ^ 64 - 2 ^ 63) else None) \<and>
   parseIntParam (fmt_nat (n mod 2 ^ 63 + k * 2 ^ 64)) = Some (int (n mod 2 ^ 63))"
proof -
  have small: "int (n mod 2 ^ 63) < 2 ^ 63" by simp
  have "(int (n mod 2 ^ 63 + k * 2 ^ 64) + 2 ^ 63) mod 2 ^ 64 = (int (n mod 2 ^ 63) + 2 ^ 63 + int k * 2 ^ 64) mod 2 ^ 64"
    by (simp add: algebra_simps)
  also have "\<dots> = (int (n mod 2 ^ 63) + 2 ^ 63) mod 2 ^ 64" by (rule mod_mult_self1)
  also have "\<dots> = int (n mod 2 ^ 63) + 2 ^ 63"
    by (rule mod_pos_pos_trivial) (use small in simp_all)
  finally show ?thesis
    using fmt_nat_digits [of "n mod 2 ^ 63 + k * 2 ^ 64"] by (simp only: parseIntParam_value) simp
qed

end
