(* ===== verification/Wasm.thy ===== *)
theory Wasm
  imports Crypto Mfa
begin

text \<open>
  \<open>cmd/wasm/main.go\<close>: the functions the browser client calls, over \<open>internal/crypto\<close> and
  \<open>internal/mfa\<close>.  A JavaScript value is what \<open>syscall/js\<close> shows of it: a number comes with
  the integer \<open>Value.Int\<close> truncates it to and its text.  A function either returns a value or
  panics.  The byte buffers a function fills are cells of an explicit heap, so that what
  \<open>vc.Zero\<close> wipes, and what it does not, can be seen afterwards.
\<close>

datatype js =
    JsUndefined
  | JsNull
  | JsBool bool
  | JsNumber int string
  | JsString string
  | JsObject "(string \<times> string) list"

text \<open>\<open>Value.String\<close> never fails: other types give their type in angle brackets.\<close>

definition js_String :: "js \<Rightarrow> string" where
  "js_String v = (case v of
     JsUndefined \<Rightarrow> ''<undefined>'' | JsNull \<Rightarrow> ''<null>''
   | JsBool b \<Rightarrow> (if b then ''<boolean: true>'' else ''<boolean: false>'')
   | JsNumber n txt \<Rightarrow> ''<number: '' @ txt @ ''>'' | JsString s \<Rightarrow> s | JsObject kvs \<Rightarrow> ''<object>'')"

text \<open>The panics: an error of a called function, a text (up to the library's own message), a
  value of the wrong type, a missing argument.\<close>

datatype panic = PanicErr err | PanicText string | PanicType | PanicIndex

record wasm =
  wa_rng :: rng
  wa_heap :: "bytes list"

type_synonym 'a js_prog = "(wasm, panic + 'a) state"

definition throw :: "panic \<Rightarrow> 'a js_prog" where
  "throw e = State_Monad.return (Inl e)"

definition give :: "'a \<Rightarrow> 'a js_prog" where
  "give x = State_Monad.return (Inr x)"

definition andThen :: "'a js_prog \<Rightarrow> ('a \<Rightarrow> 'b js_prog) \<Rightarrow> 'b js_prog" where
  "andThen p f = do { r \<leftarrow> p; case r of Inl e \<Rightarrow> throw e | Inr x \<Rightarrow> f x }"

definition alloc :: "bytes \<Rightarrow> nat js_prog" where
  "alloc b = State (\<lambda>w. (Inr (length (wa_heap w)), w\<lparr>wa_heap := wa_heap w @ [b]\<rparr>))"

definition peek :: "nat \<Rightarrow> bytes js_prog" where
  "peek i = State (\<lambda>w. (Inr (wa_heap w ! i), w))"

definition vc_Zero :: "nat \<Rightarrow> unit js_prog" where
  "vc_Zero i = State (\<lambda>w. (Inr (), w\<lparr>wa_heap := (wa_heap w)[i := Zero (wa_heap w ! i)]\<rparr>))"

definition draw :: "(rng, 'a) state \<Rightarrow> 'a js_prog" where
  "draw m = State (\<lambda>w. let (x, g) = run_state m (wa_rng w) in (Inr x, w\<lparr>wa_rng := g\<rparr>))"

text \<open>\<open>if err != nil { panic(err.Error()) }\<close>\<close>

definition orPanic :: "err + 'a \<Rightarrow> 'a js_prog" where
  "orPanic r = (case r of Inl e \<Rightarrow> throw (PanicErr e) | Inr x \<Rightarrow> give x)"

definition arg :: "js list \<Rightarrow> nat \<Rightarrow> js js_prog" where
  "arg args i = (if i < length args then give (args ! i) else throw PanicIndex)"

definition js_Int :: "js \<Rightarrow> int js_prog" where
  "js_Int v = (case v of JsNumber n txt \<Rightarrow> give n | _ \<Rightarrow> throw PanicType)"

definition js_Bool :: "js \<Rightarrow> bool js_prog" where
  "js_Bool v = (case v of JsBool b \<Rightarrow> give b | _ \<Rightarrow> throw PanicType)"

lemma run_andThen:
  "run_state (andThen p f) w = (case run_state p w of (Inl e, w1) \<Rightarrow> (Inl e, w1) | (Inr x, w1) \<Rightarrow> run_state (f x) w1)"
  by (simp add: andThen_def throw_def split: prod.split sum.split)

lemma run_js [simp]:
  "run_state (throw e) w = (Inl e, w)" "run_state (give x) w = (Inr x, w)"
  "run_state (alloc b) w = (Inr (length (wa_heap w)), w\<lparr>wa_heap := wa_heap w @ [b]\<rparr>)"
  "run_state (peek i) w = (Inr (wa_heap w ! i), w)"
  "run_state (vc_Zero i) w = (Inr (), w\<lparr>wa_heap := (wa_heap w)[i := Zero (wa_heap w ! i)]\<rparr>)"
  "run_state (orPanic r) w = (map_sum PanicErr id r, w)"
  "run_state (arg args j) w = (if j < length args then Inr (args ! j) else Inl PanicIndex, w)"
  by (simp_all add: throw_def give_def alloc_def peek_def vc_Zero_def orPanic_def arg_def split: sum.split)

lemma run_draw: "run_state (draw m) w = (Inr (fst (run_state m (wa_rng w))), w\<lparr>wa_rng := snd (run_state m (wa_rng w))\<rparr>)"
  by (simp add: draw_def split: prod.split)

subsection \<open>Arguments\<close>

definition decodeB64 :: "string \<Rightarrow> nat js_prog" where
  "decodeB64 s = (case base64_decode s of
     None \<Rightarrow> throw (PanicText ''invalid base64: '') | Some b \<Rightarrow> alloc b)"

definition zero_KDFParams :: KDFParams where
  "zero_KDFParams = \<lparr>kdf_Type = [], kdf_Version = 0, kdf_MemoryKiB = 0, kdf_Iterations = 0, kdf_Parallelism = 0\<rparr>"

definition KDFParams_fields :: "KDFParams fields" where
  "KDFParams_fields =
     [(''type'', dec_string (\<lambda>s p. p\<lparr>kdf_Type := s\<rparr>)),
      (''version'', dec_int 0 4294967295 (\<lambda>n p. p\<lparr>kdf_Version := of_int n\<rparr>)),
      (''memory_kib'', dec_int 0 4294967295 (\<lambda>n p. p\<lparr>kdf_MemoryKiB := of_int n\<rparr>)),
      (''iterations'', dec_int 0 4294967295 (\<lambda>n p. p\<lparr>kdf_Iterations := of_int n\<rparr>)),
      (''parallelism'', dec_int 0 255 (\<lambda>n p. p\<lparr>kdf_Parallelism := of_int n\<rparr>))]"

definition KDFParams_Unmarshal :: "lib \<Rightarrow> string \<Rightarrow> KDFParams option" where
  "KDFParams_Unmarshal l s = (case json_parse l (to_bytes s) of
     None \<Rightarrow> None | Some j \<Rightarrow> decode_struct l False KDFParams_fields j zero_KDFParams)"

definition parseKDF :: "lib \<Rightarrow> string \<Rightarrow> KDFParams js_prog" where
  "parseKDF l s = (case KDFParams_Unmarshal l s of
     None \<Rightarrow> throw (PanicText ''invalid KDF params JSON: '') | Some p \<Rightarrow> give p)"

lemma run_args [simp]:
  "run_state (decodeB64 s) w = (case base64_decode s of None \<Rightarrow> (Inl (PanicText ''invalid base64: ''), w)
     | Some b \<Rightarrow> (Inr (length (wa_heap w)), w\<lparr>wa_heap := wa_heap w @ [b]\<rparr>))"
  "run_state (parseKDF l s) w = (case KDFParams_Unmarshal l s of
     None \<Rightarrow> (Inl (PanicText ''invalid KDF params JSON: ''), w) | Some p \<Rightarrow> (Inr p, w))"
  by (simp_all add: decodeB64_def parseKDF_def split: option.split)

text \<open>\<open>encoded := base64.StdEncoding.EncodeToString(key); vc.Zero(key)\<close> on a fresh buffer.\<close>

definition encode_and_wipe :: "bytes \<Rightarrow> string js_prog" where
  "encode_and_wipe b =
     andThen (alloc b) (\<lambda>key.
     andThen (peek key) (\<lambda>kb.
     andThen (vc_Zero key) (\<lambda>_. give (base64_encode kb))))"

lemma run_encode_and_wipe [simp]:
  "run_state (encode_and_wipe b) w = (Inr (base64_encode b), w\<lparr>wa_heap := wa_heap w @ [replicate (length b) 0]\<rparr>)"
  by (simp add: encode_and_wipe_def run_andThen Zero_eq)

subsection \<open>Keys\<close>

definition jsDeriveMasterKey :: "lib \<Rightarrow> js list \<Rightarrow> js js_prog" where
  "jsDeriveMasterKey l args =
     andThen (arg args 0) (\<lambda>a0.
     andThen (alloc (to_bytes (js_String a0))) (\<lambda>password.
     andThen (arg args 1) (\<lambda>a1. let salt = to_bytes (NormalizeEmail l (js_String a1)) in
     andThen (arg args 2) (\<lambda>a2.
     andThen (parseKDF l (js_String a2)) (\<lambda>params.
     andThen (peek password) (\<lambda>pw. let key = DeriveMasterKey l pw salt params in
     andThen (vc_Zero password) (\<lambda>_.
     andThen (orPanic key) (\<lambda>key.
     andThen (encode_and_wipe key) (\<lambda>encoded. give (JsString encoded))))))))))"

definition jsDeriveAuthHash :: "lib \<Rightarrow> js list \<Rightarrow> js js_prog" where
  "jsDeriveAuthHash l args =
     andThen (arg args 0) (\<lambda>a0.
     andThen (decodeB64 (js_String a0)) (\<lambda>masterKey.
     andThen (arg args 1) (\<lambda>a1.
     andThen (alloc (to_bytes (js_String a1))) (\<lambda>password.
     andThen (arg args 2) (\<lambda>a2.
     andThen (parseKDF l (js_String a2)) (\<lambda>params.
     andThen (peek masterKey) (\<lambda>mk.
     andThen (peek password) (\<lambda>pw. let hash = DeriveAuthHash l mk pw params in
     andThen (vc_Zero masterKey) (\<lambda>_.
     andThen (vc_Zero password) (\<lambda>_.
     andThen (orPanic hash) (\<lambda>hash.
     andThen (encode_and_wipe hash) (\<lambda>encoded. give (JsString encoded)))))))))))))"

definition jsStretchMasterKey :: "lib \<Rightarrow> js list \<Rightarrow> js js_prog" where
  "jsStretchMasterKey l args =
     andThen (arg args 0) (\<lambda>a0.
     andThen (decodeB64 (js_String a0)) (\<lambda>masterKey.
     andThen (peek masterKey) (\<lambda>mk. let keys = StretchMasterKey l mk in
     andThen (vc_Zero masterKey) (\<lambda>_.
     andThen (orPanic keys) (\<lambda>(enc, mac).
     andThen (alloc enc) (\<lambda>encKey.
     andThen (alloc mac) (\<lambda>macKey.
     andThen (peek encKey) (\<lambda>eb.
     andThen (peek macKey) (\<lambda>mb.
       let obj = JsObject [(''encKey'', base64_encode eb), (''macKey'', base64_encode mb)] in
     andThen (vc_Zero encKey) (\<lambda>_.
     andThen (vc_Zero macKey) (\<lambda>_. give obj)))))))))))"

definition jsNewVaultKey :: "js list \<Rightarrow> js js_prog" where
  "jsNewVaultKey args =
     andThen (draw NewVaultKey) (\<lambda>r.
     andThen (orPanic r) (\<lambda>key.
     andThen (encode_and_wipe key) (\<lambda>encoded. give (JsString encoded))))"

definition jsWrapVaultKey :: "lib \<Rightarrow> js list \<Rightarrow> js js_prog" where
  "jsWrapVaultKey l args =
     andThen (arg args 0) (\<lambda>a0.
     andThen (decodeB64 (js_String a0)) (\<lambda>vaultKey.
     andThen (arg args 1) (\<lambda>a1.
     andThen (decodeB64 (js_String a1)) (\<lambda>encKey.
     andThen (peek encKey) (\<lambda>ek.
     andThen (peek vaultKey) (\<lambda>vk.
     andThen (draw (WrapKey l ek vk [])) (\<lambda>wrapped.
     andThen (vc_Zero vaultKey) (\<lambda>_.
     andThen (vc_Zero encKey) (\<lambda>_.
     andThen (orPanic wrapped) (\<lambda>wrapped. give (JsString (base64_encode wrapped))))))))))))"

definition jsUnwrapVaultKey :: "lib \<Rightarrow> js list \<Rightarrow> js js_prog" where
  "jsUnwrapVaultKey l args =
     andThen (arg args 0) (\<lambda>a0.
     andThen (decodeB64 (js_String a0)) (\<lambda>wrapped.
     andThen (arg args 1) (\<lambda>a1.
     andThen (decodeB64 (js_String a1)) (\<lambda>encKey.
     andThen (peek encKey) (\<lambda>ek.
     andThen (peek wrapped) (\<lambda>wb. let vaultKey = UnwrapKey l ek wb [] in
     andThen (vc_Zero encKey) (\<lambda>_.
     andThen (orPanic vaultKey) (\<lambda>vaultKey.
     andThen (encode_and_wipe vaultKey) (\<lambda>encoded. give (JsString encoded))))))))))"

subsection \<open>Items and TOTP secrets\<close>

definition jsSealItem :: "lib \<Rightarrow> js list \<Rightarrow> js js_prog" where
  "jsSealItem l args =
     andThen (arg args 0) (\<lambda>a0.
     (case Item_Unmarshal l (to_bytes (js_String a0)) of
        Inl _ \<Rightarrow> throw (PanicText ''invalid item JSON: '')
      | Inr item \<Rightarrow>
          andThen (arg args 1) (\<lambda>a1.
          andThen (decodeB64 (js_String a1)) (\<lambda>vaultKey.
          andThen (peek vaultKey) (\<lambda>vk.
          andThen (draw (EncryptItem l vk (Some item) [])) (\<lambda>ciphertext.
          andThen (vc_Zero vaultKey) (\<lambda>_.
          andThen (orPanic ciphertext) (\<lambda>c. give (JsString (base64_encode c))))))))))"

definition jsOpenItem :: "lib \<Rightarrow> js list \<Rightarrow> js js_prog" where
  "jsOpenItem l args =
     andThen (arg args 0) (\<lambda>a0.
     andThen (decodeB64 (js_String a0)) (\<lambda>ciphertext.
     andThen (arg args 1) (\<lambda>a1.
     andThen (decodeB64 (js_String a1)) (\<lambda>vaultKey.
     andThen (peek vaultKey) (\<lambda>vk.
     andThen (peek ciphertext) (\<lambda>cb. let item = DecryptItem l vk cb [] in
     andThen (vc_Zero vaultKey) (\<lambda>_.
     andThen (orPanic item) (\<lambda>i. give (JsString (of_bytes (Item_Marshal l i)))))))))))"

definition jsGenerateTOTPSecret :: "lib \<Rightarrow> js list \<Rightarrow> js js_prog" where
  "jsGenerateTOTPSecret l args =
     andThen (arg args 0) (\<lambda>a0.
     andThen (draw (GenerateTOTPSecret l ''Secure Vault'' (js_String a0))) (\<lambda>r.
     andThen (orPanic r) (\<lambda>(secret, url). give (JsObject [(''secret'', secret), (''url'', url)]))))"

definition jsWrapTOTPSecret :: "lib \<Rightarrow> js list \<Rightarrow> js js_prog" where
  "jsWrapTOTPSecret l args =
     andThen (arg args 0) (\<lambda>a0.
     andThen (arg args 1) (\<lambda>a1.
     andThen (decodeB64 (js_String a1)) (\<lambda>vaultKey.
     andThen (peek vaultKey) (\<lambda>vk.
     andThen (draw (WrapTOTPSecret l vk (js_String a0))) (\<lambda>wrapped.
     andThen (vc_Zero vaultKey) (\<lambda>_.
     andThen (orPanic wrapped) (\<lambda>wb. give (JsString (base64_encode wb)))))))))"

definition jsUnwrapTOTPSecret :: "lib \<Rightarrow> js list \<Rightarrow> js js_prog" where
  "jsUnwrapTOTPSecret l args =
     andThen (arg args 0) (\<lambda>a0.
     andThen (decodeB64 (js_String a0)) (\<lambda>wrapped.
     andThen (arg args 1) (\<lambda>a1.
     andThen (decodeB64 (js_String a1)) (\<lambda>vaultKey.
     andThen (peek vaultKey) (\<lambda>vk.
     andThen (peek wrapped) (\<lambda>wb. let secret = UnwrapTOTPSecret l vk wb in
     andThen (vc_Zero vaultKey) (\<lambda>_.
     andThen (orPanic secret) (\<lambda>s. give (JsString s)))))))))"

subsection \<open>Passwords\<close>

definition upperChars :: string where "upperChars = ''ABCDEFGHIJKLMNOPQRSTUVWXYZ''"
definition lowerChars :: string where "lowerChars = ''abcdefghijklmnopqrstuvwxyz''"
definition digitChars :: string where "digitChars = ''0123456789''"
definition symbolChars :: string where "symbolChars = ''!@#$%^&*()_+-=[]{}|;:,.<>?''"

definition password_charset :: "bool \<Rightarrow> bool \<Rightarrow> bool \<Rightarrow> bool \<Rightarrow> string" where
  "password_charset upper lower digits symbols =
     (if upper then upperChars else []) @ (if lower then lowerChars else []) @
     (if digits then digitChars else []) @ (if symbols then symbolChars else [])"

text \<open>\<open>for _, b := range buf\<close>: bytes below \<open>maxByte\<close> pick a character; the loop breaks when
  the password is full.\<close>

fun password_fill :: "string \<Rightarrow> nat \<Rightarrow> nat \<Rightarrow> string \<Rightarrow> bytes \<Rightarrow> string" where
  "password_fill cs maxByte len result [] = result"
| "password_fill cs maxByte len result (b # bs) =
     (if unat b < maxByte
      then let result' = result @ [cs ! (unat b mod length cs)]
           in if length result' = len then result' else password_fill cs maxByte len result' bs
      else password_fill cs maxByte len result bs)"

text \<open>\<open>for len(result) < length\<close>: nothing bounds the number of rounds, so the loop is a partial
  function, \<open>None\<close> where it never ends.\<close>

partial_function (option) password_loop ::
  "string \<Rightarrow> nat \<Rightarrow> nat \<Rightarrow> string \<Rightarrow> rng \<Rightarrow> ((panic + string) \<times> rng) option" where
  "password_loop cs maxByte len result g =
     (if length result < len
      then case run_state (rand_Read (len * 4)) g of
             (Inl e, g') \<Rightarrow> Some (Inl (PanicErr e), g')
           | (Inr buf, g') \<Rightarrow> password_loop cs maxByte len (password_fill cs maxByte len result buf) g'
      else Some (Inr result, g))"

definition password_options :: "js list \<Rightarrow> (nat \<times> string) js_prog" where
  "password_options args =
     andThen (arg args 0) (\<lambda>a0.
     andThen (js_Int a0) (\<lambda>len.
       if len \<le> 0 \<or> len > 128 then throw (PanicText ''length must be between 1 and 128'')
       else
     andThen (arg args 1) (\<lambda>a1. andThen (js_Bool a1) (\<lambda>upper.
     andThen (arg args 2) (\<lambda>a2. andThen (js_Bool a2) (\<lambda>lower.
     andThen (arg args 3) (\<lambda>a3. andThen (js_Bool a3) (\<lambda>digits.
     andThen (arg args 4) (\<lambda>a4. andThen (js_Bool a4) (\<lambda>symbols.
       let charset = password_charset upper lower digits symbols in
       if length charset = 0 then throw (PanicText ''no character class selected'')
       else give (nat len, charset)))))))))))"

definition jsGeneratePassword :: "js list \<Rightarrow> wasm \<Rightarrow> ((panic + js) \<times> wasm) option" where
  "jsGeneratePassword args w =
     (case run_state (password_options args) w of
        (Inl e, w1) \<Rightarrow> Some (Inl e, w1)
      | (Inr (len, charset), w1) \<Rightarrow>
          (let n = length charset; maxByte = 256 - 256 mod n
           in map_option (\<lambda>(r, g). (map_sum id JsString r, w1\<lparr>wa_rng := g\<rparr>))
                (password_loop charset maxByte len [] (wa_rng w1))))"

subsection \<open>What \<open>main\<close> exports\<close>

definition js_total :: "js js_prog \<Rightarrow> wasm \<Rightarrow> ((panic + js) \<times> wasm) option" where
  "js_total p w = Some (run_state p w)"

definition exports :: "lib \<Rightarrow> (string \<times> (js list \<Rightarrow> wasm \<Rightarrow> ((panic + js) \<times> wasm) option)) list" where
  "exports l =
     [(''vcDeriveMasterKey'', \<lambda>args. js_total (jsDeriveMasterKey l args)),
      (''vcDeriveAuthHash'', \<lambda>args. js_total (jsDeriveAuthHash l args)),
      (''vcStretchMasterKey'', \<lambda>args. js_total (jsStretchMasterKey l args)),
      (''vcNewVaultKey'', \<lambda>args. js_total (jsNewVaultKey args)),
      (''vcWrapVaultKey'', \<lambda>args. js_total (jsWrapVaultKey l args)),
      (''vcUnwrapVaultKey'', \<lambda>args. js_total (jsUnwrapVaultKey l args)),
      (''vcSealItem'', \<lambda>args. js_total (jsSealItem l args)),
      (''vcOpenItem'', \<lambda>args. js_total (jsOpenItem l args)),
      (''vcGeneratePassword'', jsGeneratePassword),
      (''vcGenerateTOTPSecret'', \<lambda>args. js_total (jsGenerateTOTPSecret l args)),
      (''vcWrapTOTPSecret'', \<lambda>args. js_total (jsWrapTOTPSecret l args)),
      (''vcUnwrapTOTPSecret'', \<lambda>args. js_total (jsUnwrapTOTPSecret l args))]"

subsection \<open>The password loop\<close>

definition accepted :: "string \<Rightarrow> nat \<Rightarrow> bytes \<Rightarrow> string" where
  "accepted cs maxByte bs = map (\<lambda>b. cs ! (unat b mod length cs)) (filter (\<lambda>b. unat b < maxByte) bs)"

lemma accepted_append [simp]: "accepted cs m (a @ b) = accepted cs m a @ accepted cs m b"
  by (simp add: accepted_def)

lemma take_take_append: "take n (take n xs @ ys) = take n (xs @ ys)"
  by (cases "length xs \<le> n") (simp_all add: min_def)

lemma fill_eq: "length result < len \<Longrightarrow> password_fill cs m len result bs = take len (result @ accepted cs m bs)"
proof (induction bs arbitrary: result)
  case Nil
  then show ?case by (simp add: accepted_def)
next
  case (Cons b bs)
  show ?case
  proof (cases "unat b < m")
    case False
    then show ?thesis using Cons by (simp add: accepted_def)
  next
    case True
    let ?r = "result @ [cs ! (unat b mod length cs)]"
    have a: "result @ accepted cs m (b # bs) = ?r @ accepted cs m bs" using True by (simp add: accepted_def)
    show ?thesis
    proof (cases "length ?r = len")
      case full: True
      then have "take len (?r @ accepted cs m bs) = ?r" by (metis append_eq_conv_conj)
      then show ?thesis using True full unfolding a by (simp add: Let_def)
    next
      case False
      then have "length ?r < len" using Cons.prems by simp
      from Cons.IH [OF this] show ?thesis using True False unfolding a by (simp add: Let_def)
    qed
  qed
qed

text \<open>The first \<open>n\<close> bytes of the supply.\<close>

abbreviation drawn_bytes :: "rng \<Rightarrow> nat \<Rightarrow> bytes" where
  "drawn_bytes g n \<equiv> map (rng_bytes g) [0..<n]"

lemma drawn_add: "drawn_bytes g (n + m) = drawn_bytes g n @ map (\<lambda>i. rng_bytes g (i + n)) [0..<m]"
  by (induction m) (simp_all add: add.commute)

lemma password_loop_runs:
  assumes "\<And>i. \<not> rng_fail g i" and "length res \<le> len"
    and "len \<le> length (res @ accepted cs m (drawn_bytes g (k * (len * 4))))"
  shows "\<exists>g'. password_loop cs m len res g = Some (Inr (take len (res @ accepted cs m (drawn_bytes g (k * (len * 4))))), g')"
  using assms
proof (induction k arbitrary: res g)
  case 0
  then have "length res = len" by (simp add: accepted_def)
  then show ?case by (simp add: password_loop.simps accepted_def)
next
  case (Suc k)
  show ?case
  proof (cases "length res < len")
    case False
    then have "length res = len" using Suc.prems(2) by simp
    then show ?thesis by (simp add: password_loop.simps)
  next
    case True
    let ?g = "g\<lparr>rng_fail := (\<lambda>i. rng_fail g (Suc i)), rng_bytes := (\<lambda>i. rng_bytes g (i + len * 4))\<rparr>"
    let ?a = "res @ accepted cs m (drawn_bytes g (len * 4))" and ?b = "accepted cs m (drawn_bytes ?g (k * (len * 4)))"
    have s: "res @ accepted cs m (drawn_bytes g (Suc k * (len * 4))) = ?a @ ?b"
      using drawn_add [of g "len * 4" "k * (len * 4)"] by simp
    have step: "password_loop cs m len res g = password_loop cs m len (take len ?a) ?g"
      using True Suc.prems(1) [of 0] by (subst password_loop.simps) (simp add: rand_Read_run fill_eq)
    note t = take_take_append [of len ?a ?b]
    have "\<exists>g'. password_loop cs m len (take len ?a) ?g = Some (Inr (take len (take len ?a @ ?b)), g')"
      using Suc.prems by (intro Suc.IH) (auto simp: s [simplified] min_def)
    then show ?thesis unfolding step s t .
  qed
qed

text \<open>Without enough accepted bytes the loop never returns.\<close>

lemma password_loop_stuck:
  assumes "password_loop cs m len res g = Some y"
  shows "(\<forall>i. \<not> rng_fail g i) \<longrightarrow> length res \<le> len \<longrightarrow>
    (\<exists>k. len \<le> length (res @ accepted cs m (drawn_bytes g (k * (len * 4)))))"
  using assms
proof (rule password_loop.raw_induct [rotated])
  fix loop and cs :: string and m len res and g :: rng and y
  assume IH: "\<And>cs m len res g y. loop cs m len res g = Some y \<Longrightarrow> (\<forall>i. \<not> rng_fail g i) \<longrightarrow> length res \<le> len \<longrightarrow>
      (\<exists>k. len \<le> length (res @ accepted cs m (drawn_bytes g (k * (len * 4)))))"
    and body: "(if length res < len
      then case run_state (rand_Read (len * 4)) g of
             (Inl e, g') \<Rightarrow> Some (Inl (PanicErr e), g')
           | (Inr buf, g') \<Rightarrow> loop cs m len (password_fill cs m len res buf) g'
      else Some (Inr res, g)) = Some y"
  show "(\<forall>i. \<not> rng_fail g i) \<longrightarrow> length res \<le> len \<longrightarrow>
      (\<exists>k. len \<le> length (res @ accepted cs m (drawn_bytes g (k * (len * 4)))))"
  proof (intro impI)
    assume ok: "\<forall>i. \<not> rng_fail g i" and le: "length res \<le> len"
    let ?g = "g\<lparr>rng_fail := (\<lambda>i. rng_fail g (Suc i)), rng_bytes := (\<lambda>i. rng_bytes g (i + len * 4))\<rparr>"
    let ?a = "res @ accepted cs m (drawn_bytes g (len * 4))"
    show "\<exists>k. len \<le> length (res @ accepted cs m (drawn_bytes g (k * (len * 4))))"
    proof (cases "length res < len")
      case False
      then show ?thesis by (intro exI [of _ 0]) simp
    next
      case True
      then have "loop cs m len (take len ?a) ?g = Some y"
        using body ok by (simp add: rand_Read_run fill_eq)
      from IH [OF this] obtain k where k: "len \<le> length (take len ?a @ accepted cs m (drawn_bytes ?g (k * (len * 4))))"
        using ok by auto
      have "res @ accepted cs m (drawn_bytes g (Suc k * (len * 4))) = ?a @ accepted cs m (drawn_bytes ?g (k * (len * 4)))"
        using drawn_add [of g "len * 4" "k * (len * 4)"] by simp
      then have "len \<le> length (res @ accepted cs m (drawn_bytes g (Suc k * (len * 4))))" using k by simp
      then show ?thesis by blast
    qed
  qed
qed

subsection \<open>Properties of generated passwords\<close>

lemma run_options:
  assumes "0 < n" "n \<le> 128" "password_charset u lo d s \<noteq> []"
  shows "run_state (password_options [JsNumber n txt, JsBool u, JsBool lo, JsBool d, JsBool s]) w =
    (Inr (nat n, password_charset u lo d s), w)"
  using assms by (simp add: password_options_def run_andThen js_Int_def js_Bool_def)

lemma charset_bounds: "length (password_charset u lo d s) \<le> 88"
  by (simp add: password_charset_def upperChars_def lowerChars_def digitChars_def symbolChars_def)

text \<open>
  C38: password generation returns exactly when the randomness allows.  With a valid length,
  some character class and a random source that does not fail, \<open>jsGeneratePassword\<close> returns
  if and only if some prefix of the supply holds enough acceptable bytes.
\<close>

theorem password_generation_terminates:
  assumes "0 < n" "n \<le> 128" and cs: "cs = password_charset u lo d s" "cs \<noteq> []" and "\<And>i. \<not> rng_fail (wa_rng w) i"
  shows "jsGeneratePassword [JsNumber n txt, JsBool u, JsBool lo, JsBool d, JsBool s] w \<noteq> None \<longleftrightarrow>
    (\<exists>k. nat n \<le> length (accepted cs (256 - 256 mod length cs) (drawn_bytes (wa_rng w) k)))"
    (is "?R \<longleftrightarrow> ?E")
proof -
  let ?m = "256 - 256 mod length cs"
  have run: "?R \<longleftrightarrow> password_loop cs ?m (nat n) [] (wa_rng w) \<noteq> None"
    using run_options [OF assms(1,2), of u lo d s] cs by (simp add: jsGeneratePassword_def Let_def)
  show ?thesis
  proof
    assume ?R
    then obtain y where "password_loop cs ?m (nat n) [] (wa_rng w) = Some y" unfolding run by blast
    from password_loop_stuck [OF this] assms(5) show ?E by auto
  next
    assume ?E
    then obtain k where k: "nat n \<le> length (accepted cs ?m (drawn_bytes (wa_rng w) k))" ..
    have "k \<le> k * (nat n * 4)" using assms(1) mult_le_mono2 [of 1 "nat n * 4" k] by (simp add: Suc_le_eq)
    then obtain j where "k * (nat n * 4) = k + j" using le_Suc_ex by blast
    then have "nat n \<le> length ([] @ accepted cs ?m (drawn_bytes (wa_rng w) (k * (nat n * 4))))"
      using k by (simp add: drawn_add)
    from password_loop_runs [OF assms(5) _ this] show ?R unfolding run by auto
  qed
qed

theorem password_generation_terminates_witness:
  "jsGeneratePassword [JsNumber 2 ''2'', JsBool True, JsBool False, JsBool False, JsBool False]
     \<lparr>wa_rng = sample_rng, wa_heap = []\<rparr> \<noteq> None"
proof -
  have "2 \<le> length (accepted upperChars 234 (drawn_bytes sample_rng 2))"
    by (simp add: accepted_def sample_rng_def numeral_2_eq_2)
  then show ?thesis
    using password_generation_terminates [OF _ _ refl, of 2 True False False False
        "\<lparr>wa_rng = sample_rng, wa_heap = []\<rparr>" "''2''"]
    by (auto simp: password_charset_def upperChars_def sample_rng_def)
qed

text \<open>
  C39: the password is what the random bytes say.  When the first \<open>k\<close> rounds of reads hold
  enough acceptable bytes, the result is the first \<open>n\<close> of them, each mapped into the selected
  classes: it has the requested length and no other characters.
\<close>

theorem password_from_random_bytes:
  assumes "0 < n" "n \<le> 128" and cs: "cs = password_charset u lo d s" "cs \<noteq> []" and "\<And>i. \<not> rng_fail (wa_rng w) i"
    and enough: "nat n \<le> length (accepted cs (256 - 256 mod length cs) (drawn_bytes (wa_rng w) (k * (nat n * 4))))"
  shows "\<exists>pw w'. jsGeneratePassword [JsNumber n txt, JsBool u, JsBool lo, JsBool d, JsBool s] w =
      Some (Inr (JsString pw), w') \<and>
    pw = take (nat n) (accepted cs (256 - 256 mod length cs) (drawn_bytes (wa_rng w) (k * (nat n * 4)))) \<and>
    length pw = nat n \<and> set pw \<subseteq> set cs"
proof -
  let ?m = "256 - 256 mod length cs"
  let ?a = "accepted cs ?m (drawn_bytes (wa_rng w) (k * (nat n * 4)))"
  obtain g' where g: "password_loop cs ?m (nat n) [] (wa_rng w) = Some (Inr (take (nat n) ?a), g')"
    using password_loop_runs [OF assms(5), of "[]" "nat n" cs ?m k] enough by auto
  have "set ?a \<subseteq> set cs" using cs(2) by (auto simp: accepted_def)
  then have "set (take (nat n) ?a) \<subseteq> set cs" using set_take_subset [of "nat n" ?a] by blast
  then show ?thesis
    using run_options [OF assms(1,2), of u lo d s] cs enough g by (simp add: jsGeneratePassword_def Let_def)
qed

theorem password_from_random_bytes_witness:
  "\<exists>w'. jsGeneratePassword [JsNumber 2 ''2'', JsBool True, JsBool False, JsBool False, JsBool False]
     \<lparr>wa_rng = sample_rng, wa_heap = []\<rparr> = Some (Inr (JsString ''AB''), w')"
proof -
  have a: "take 2 (accepted upperChars 234 (drawn_bytes sample_rng (1 * (2 * 4)))) = ''AB''"
    "2 \<le> length (accepted upperChars 234 (drawn_bytes sample_rng (1 * (2 * 4))))"
    by (simp_all add: accepted_def sample_rng_def upperChars_def upt_rec)
  then show ?thesis
    using password_from_random_bytes [OF _ _ refl, of 2 True False False False
        "\<lparr>wa_rng = sample_rng, wa_heap = []\<rparr>" 1 "''2''"]
    by (auto simp: password_charset_def upperChars_def sample_rng_def)
qed

text \<open>
  No modulo bias.  For every selection of classes, each character of the set is chosen by
  the same number \<open>256 div n\<close> of byte values, and fewer than half of all values are rejected.
\<close>

theorem password_uniform:
  assumes "cs = password_charset u lo d s" "cs \<noteq> []" and "i < length cs"
  shows "length (filter (\<lambda>b. b < 256 - 256 mod length cs \<and> b mod length cs = i) [0..<256]) = 256 div length cs \<and>
    2 * (256 mod length cs) < 256"
proof -
  let ?n = "length cs"
  have n: "0 < ?n" "?n \<le> 88" using assms(1,2) charset_bounds by auto
  let ?q = "256 div ?n"
  have m: "256 - 256 mod ?n = ?n * ?q" using minus_mod_eq_mult_div [of 256 ?n] by simp
  have "{b. b < 256 \<and> b < ?n * ?q \<and> b mod ?n = i} = (\<lambda>j. ?n * j + i) ` {..<?q}"
  proof (intro equalityI subsetI)
    fix b assume "b \<in> {b. b < 256 \<and> b < ?n * ?q \<and> b mod ?n = i}"
    then have b: "b < ?n * ?q" "b mod ?n = i" by auto
    have "b = ?n * (b div ?n) + i" using b(2) by (metis mult_div_mod_eq)
    moreover have "b div ?n < ?q" using b(1) by (simp add: less_mult_imp_div_less mult.commute)
    ultimately show "b \<in> (\<lambda>j. ?n * j + i) ` {..<?q}" by blast
  next
    fix b assume "b \<in> (\<lambda>j. ?n * j + i) ` {..<?q}"
    then obtain j where j: "b = ?n * j + i" "j < ?q" by auto
    have "?n * j + i < ?n * Suc j" using assms(3) by simp
    also have "\<dots> \<le> ?n * ?q" using j(2) by (intro mult_le_mono2) simp
    finally have "b < ?n * ?q" using j(1) by simp
    moreover have "?n * ?q \<le> 256" by simp
    then have "b < 256" using \<open>b < ?n * ?q\<close> by (rule order.strict_trans2 [rotated])
    ultimately show "b \<in> {b. b < 256 \<and> b < ?n * ?q \<and> b mod ?n = i}" using j(1) assms(3) by simp
  qed
  moreover have "inj_on (\<lambda>j. ?n * j + i) {..<?q}" using n(1) by (auto intro: inj_onI)
  ultimately have "card {b. b < 256 \<and> b < ?n * ?q \<and> b mod ?n = i} = ?q" by (simp add: card_image)
  moreover have "length (filter (\<lambda>b. b < ?n * ?q \<and> b mod ?n = i) [0..<256]) = card {b. b < 256 \<and> b < ?n * ?q \<and> b mod ?n = i}"
    by (simp add: length_filter_conv_card) (rule arg_cong [of _ _ card], auto)
  moreover have "256 mod ?n < ?n" using n(1) by simp
  ultimately show ?thesis unfolding m using n(2) by simp
qed

theorem password_uniform_witness:
  "length (filter (\<lambda>b. b < 256 - 256 mod 26 \<and> b mod 26 = (3::nat)) [0..<256]) = 9"
  using password_uniform [OF refl, of True False False False 3]
  by (simp add: password_charset_def upperChars_def)

subsection \<open>The client's calls fit together\<close>

lemma seal_not_empty: "aead_ok l \<Longrightarrow> run_state (Seal l key p aad) g = (Inr c, g') \<Longrightarrow> c \<noteq> []"
  by (auto simp: Seal_run Let_def split: if_splits)

lemma open_sealed_item:
  assumes "aead_ok l" and "run_state (jsSealItem l [JsString txt, JsString k]) w = (Inr (JsString c), w1)"
  shows "\<exists>i cb. Item_Unmarshal l (to_bytes txt) = Inr i \<and> c = base64_encode cb \<and> cb \<noteq> [] \<and> (item_encodable l i \<longrightarrow>
     (\<forall>k' v. base64_decode k' = base64_decode k \<longrightarrow>
        fst (run_state (jsOpenItem l [JsString c, JsString k']) v) = Inr (JsString (of_bytes (Item_Marshal l i)))))"
proof -
  obtain i kb cb g where *: "Item_Unmarshal l (to_bytes txt) = Inr i" "base64_decode k = Some kb"
      "run_state (EncryptItem l kb (Some i) []) (wa_rng w) = (Inr cb, g)" "c = base64_encode cb"
    using assms(2) by (auto simp: jsSealItem_def run_andThen run_draw js_String_def nth_append map_sum_def
        split: sum.splits prod.splits option.splits) (metis prod.collapse)
  have "fst (run_state (jsOpenItem l [JsString c, JsString k']) v) = Inr (JsString (of_bytes (Item_Marshal l i)))"
    if "item_encodable l i" "base64_decode k' = base64_decode k" for k' v
    using *(2,4) itemc.get_put [OF assms(1) that(1) *(3)] that(2)
    by (simp add: jsOpenItem_def run_andThen js_String_def nth_append base64_roundtrip Let_def)
  moreover have "cb \<noteq> []"
    using *(3) seal_not_empty [OF assms(1)] by (auto simp: EncryptItem_def)
  ultimately show ?thesis using *(1,4) by blast
qed

lemma unwrap_wrapped_key:
  assumes "aead_ok l" and "run_state (jsWrapVaultKey l [JsString vk, JsString k]) w = (Inr (JsString c), w1)"
  shows "\<exists>b. base64_decode vk = Some b \<and>
     fst (run_state (jsUnwrapVaultKey l [JsString c, JsString k]) v) = Inr (JsString (base64_encode b))"
proof -
  obtain b kb cb g where *: "base64_decode vk = Some b" "base64_decode k = Some kb"
      "run_state (WrapKey l kb b []) (wa_rng w) = (Inr cb, g)" "c = base64_encode cb"
    using assms(2) by (auto simp: jsWrapVaultKey_def run_andThen run_draw js_String_def nth_append map_sum_def
        split: sum.splits prod.splits option.splits) (metis prod.collapse)
  have "fst (run_state (jsUnwrapVaultKey l [JsString c, JsString k]) v) = Inr (JsString (base64_encode b))"
    using *(2,4) keyc.get_put [OF assms(1) TrueI *(3)]
    by (simp add: jsUnwrapVaultKey_def run_andThen js_String_def nth_append base64_roundtrip Let_def)
  then show ?thesis using *(1) by blast
qed

lemma unwrap_wrapped_totp:
  assumes "aead_ok l" and "run_state (jsWrapTOTPSecret l [JsString s, JsString k]) w = (Inr (JsString c), w1)"
  shows "fst (run_state (jsUnwrapTOTPSecret l [JsString c, JsString k]) v) = Inr (JsString s)"
proof -
  obtain kb cb g where *: "base64_decode k = Some kb"
      "run_state (WrapTOTPSecret l kb s) (wa_rng w) = (Inr cb, g)" "c = base64_encode cb"
    using assms(2) by (auto simp: jsWrapTOTPSecret_def run_andThen run_draw js_String_def nth_append map_sum_def
        split: sum.splits prod.splits option.splits) (metis prod.collapse)
  then show ?thesis
    using totpc.get_put [OF assms(1) TrueI *(2)]
    by (simp add: jsUnwrapTOTPSecret_def run_andThen js_String_def nth_append base64_roundtrip Let_def)
qed

text \<open>
  What the browser seals it can open.  Through the base64 boundary, an item sealed under
  a vault key opens under it as the same item, a wrapped vault key unwraps to the same bytes,
  and a wrapped TOTP secret to the same text.
\<close>

theorem browser_roundtrips:
  assumes "aead_ok l"
  shows "(run_state (jsSealItem l [JsString txt, JsString k]) w = (Inr (JsString c), w1) \<longrightarrow>
      (\<exists>i. Item_Unmarshal l (to_bytes txt) = Inr i \<and> (item_encodable l i \<longrightarrow>
         fst (run_state (jsOpenItem l [JsString c, JsString k]) v) = Inr (JsString (of_bytes (Item_Marshal l i)))))) \<and>
    (run_state (jsWrapVaultKey l [JsString vk, JsString k]) w = (Inr (JsString c), w1) \<longrightarrow>
      (\<exists>b. base64_decode vk = Some b \<and>
         fst (run_state (jsUnwrapVaultKey l [JsString c, JsString k]) v) = Inr (JsString (base64_encode b)))) \<and>
    (run_state (jsWrapTOTPSecret l [JsString s, JsString k]) w = (Inr (JsString c), w1) \<longrightarrow>
      fst (run_state (jsUnwrapTOTPSecret l [JsString c, JsString k]) v) = Inr (JsString s))"
  using open_sealed_item [OF assms] unwrap_wrapped_key [OF assms] unwrap_wrapped_totp [OF assms]
  by (intro conjI impI; blast)

theorem browser_roundtrips_witness:
  "\<exists>c w1. run_state (jsWrapTOTPSecret sample_lib [JsString ''abc'', JsString (base64_encode (replicate 32 1))])
       \<lparr>wa_rng = sample_rng, wa_heap = []\<rparr> = (Inr (JsString c), w1) \<and>
     fst (run_state (jsUnwrapTOTPSecret sample_lib [JsString c, JsString (base64_encode (replicate 32 1))]) w1) =
       Inr (JsString ''abc'')"
proof -
  obtain c w1 where "run_state (jsWrapTOTPSecret sample_lib [JsString ''abc'', JsString (base64_encode (replicate 32 1))])
       \<lparr>wa_rng = sample_rng, wa_heap = []\<rparr> = (Inr (JsString c), w1)"
    by (auto simp: jsWrapTOTPSecret_def run_andThen run_draw js_String_def nth_append base64_roundtrip
        WrapTOTPSecret_def Seal_run [OF aead_ok_sample] sample_rng_def Let_def)
  then show ?thesis using browser_roundtrips [OF aead_ok_sample] by blast
qed

text \<open>The buffers a call has allocated, as it left them.\<close>

definition new_buffers :: "wasm \<Rightarrow> wasm \<Rightarrow> bytes list" where
  "new_buffers w w' = drop (length (wa_heap w)) (wa_heap w')"

definition wiped :: "bytes \<Rightarrow> bool" where
  "wiped b = (b = replicate (length b) 0)"

text \<open>
  C37: key material is wiped.  When a derivation, the stretching or the creation of a key
  returns, with a value or with an error of the crypto package, every buffer it has filled
  with the password or a key is zero, and the older buffers are as they were.
\<close>

theorem key_buffers_wiped:
  assumes "f \<in> {jsDeriveMasterKey l, jsDeriveAuthHash l, jsStretchMasterKey l, jsNewVaultKey}"
    and "run_state (f args) w = (r, w')" and "r = Inr v \<or> r = Inl (PanicErr e)"
  shows "list_all wiped (new_buffers w w') \<and> take (length (wa_heap w)) (wa_heap w') = wa_heap w"
  using assms
  by (auto simp: jsDeriveMasterKey_def jsDeriveAuthHash_def jsStretchMasterKey_def jsNewVaultKey_def
      run_andThen run_draw new_buffers_def wiped_def Zero_eq nth_append list_update_append Let_def map_sum_def
      split: sum.splits prod.splits option.splits if_splits)

theorem key_buffers_wiped_witness:
  "\<exists>v w'. run_state (jsNewVaultKey []) \<lparr>wa_rng = sample_rng, wa_heap = [[5]]\<rparr> = (Inr v, w') \<and>
     list_all wiped (new_buffers \<lparr>wa_rng = sample_rng, wa_heap = [[5]]\<rparr> w') \<and> wa_heap w' \<noteq> []"
proof -
  let ?w = "\<lparr>wa_rng = sample_rng, wa_heap = [[5]]\<rparr>"
  obtain v w' where run: "run_state (jsNewVaultKey []) ?w = (Inr v, w')"
    by (auto simp: jsNewVaultKey_def run_andThen run_draw NewVaultKey_def randomBytes_def rand_Read_run sample_rng_def)
  have "jsNewVaultKey \<in> {jsDeriveMasterKey sample_lib, jsDeriveAuthHash sample_lib, jsStretchMasterKey sample_lib, jsNewVaultKey}"
    by simp
  from key_buffers_wiped [OF this run, of v] show ?thesis using run by fastforce
qed

text \<open>
  A malformed parameter text leaves the password behind.  \<open>jsDeriveMasterKey\<close> panics in
  \<open>parseKDF\<close> before it reaches \<open>vc.Zero(password)\<close>, so the buffer keeps the password.
\<close>

theorem bad_params_leave_password:
  assumes "KDFParams_Unmarshal l kdf = None"
  shows "\<exists>w'. run_state (jsDeriveMasterKey l [JsString pw, JsString email, JsString kdf]) w =
      (Inl (PanicText ''invalid KDF params JSON: ''), w') \<and> new_buffers w w' = [to_bytes pw]"
  using assms by (simp add: jsDeriveMasterKey_def run_andThen js_String_def new_buffers_def Let_def)

theorem bad_params_leave_password_witness:
  "\<exists>w'. run_state (jsDeriveMasterKey sample_lib [JsString ''pw'', JsString ''a@b'', JsString ''{''])
       \<lparr>wa_rng = sample_rng, wa_heap = []\<rparr> = (Inl (PanicText ''invalid KDF params JSON: ''), w') \<and>
     wa_heap w' = [to_bytes ''pw'']"
  using bad_params_leave_password [of sample_lib "''{''" "''pw''" "''a@b''" "\<lparr>wa_rng = sample_rng, wa_heap = []\<rparr>"]
  by (auto simp: KDFParams_Unmarshal_def sample_lib_def new_buffers_def)

end
