(* ===== verification/ItemLife.thy ===== *)
theory ItemLife
  imports SessionLife
begin

text \<open>
  Vault items: the optimistic-concurrency protocol of \<open>ItemsRepo.Update\<close>, and items as a
  client sees them through create, list and delete.
\<close>

lemma int32_eq_iff:
  assumes "0 \<le> n" and "n \<le> 2147483647"
  shows "r = (of_int n :: int32) \<longleftrightarrow> sint r = n"
proof -
  have "signed_take_bit 31 n = n" using assms by (intro signed_take_bit_int_eq_self) simp_all
  then have s: "sint (of_int n :: int32) = n" by (simp add: sint_sbintrunc')
  have "sint r = sint (of_int n :: int32) \<Longrightarrow> r = of_int n" by (rule signed_word_eqI)
  with s show ?thesis by metis
qed

lemma sint_int32_max: "sint int32_max = 2147483647"
  by (simp add: int32_max_def)

lemma find_strengthen:
  assumes "distinct (map f xs)" and "\<And>x. Q x \<Longrightarrow> P x" and "\<And>x y. P x \<Longrightarrow> P y \<Longrightarrow> f x = f y"
  shows "find Q xs = (case find P xs of None \<Rightarrow> None | Some x \<Rightarrow> if Q x then Some x else None)"
  using assms(1)
proof (induction xs)
  case Nil
  then show ?case by simp
next
  case (Cons x xs)
  show ?case
  proof (cases "P x")
    case True
    have "\<not> Q y" if "y \<in> set xs" for y
    proof
      assume "Q y"
      then have "f x = f y" using assms(2,3) True by blast
      then show False using Cons.prems that by simp
    qed
    then have "find Q xs = None" by (simp add: find_none)
    with True show ?thesis by auto
  next
    case False
    then have "\<not> Q x" using assms(2) by blast
    with False Cons show ?thesis by simp
  qed
qed

definition own_item :: "uuid \<Rightarrow> uuid \<Rightarrow> db \<Rightarrow> item_row option" where
  "own_item iid uid d = find (\<lambda>i. i_id i = iid \<and> i_user i = uid) (items d)"

definition updated_row :: "string \<Rightarrow> string \<Rightarrow> time \<Rightarrow> item_row \<Rightarrow> item_row" where
  "updated_row c ty now i = i\<lparr>i_ciphertext := c, i_type := (if ty = [] then i_type i else ty),
     i_revision := i_revision i + 1, i_updated := now\<rparr>"

lemma run_updateItem:
  assumes "calm w" and inv: "db_inv (w_db w)" and n: "0 \<le> n" "n \<le> 2147483647"
  shows "run_state (Queries_UpdateItem iid uid (of_int n) c (if ty \<noteq> [] then Some ty else None)) w =
    (case own_item iid uid (w_db w) of
       Some i \<Rightarrow> if sint (i_revision i) = n
         then if n = 2147483647
           then (Inl (Wrap ''scan vault item'' out_of_range), passed w)
           else if ty \<noteq> [] \<and> ty \<notin> set item_types
           then (Inl (Wrap ''scan vault item'' check_violation), passed w)
           else (Inr (updated_row c ty (ev_now (w_events w 0)) i), (passed w)\<lparr>w_db := (w_db w)
             \<lparr>items := map (\<lambda>x. if x = i then updated_row c ty (ev_now (w_events w 0)) x else x) (items (w_db w))\<rparr>\<rparr>)
         else (Inl (Wrap ''scan vault item'' ErrNoRows), passed w)
     | None \<Rightarrow> (Inl (Wrap ''scan vault item'' ErrNoRows), passed w))"
proof -
  let ?t = "if ty \<noteq> [] then Some ty else None"
  let ?hit = "\<lambda>i. i_id i = iid \<and> i_user i = uid \<and> i_revision i = (of_int n :: int32)"
  let ?now = "ev_now (w_events w 0)"
  have keys: "distinct (map i_id (items (w_db w)))" using inv by (simp add: db_inv_def keys_ok_def)
  have hit: "find ?hit (items (w_db w)) = (case own_item iid uid (w_db w) of None \<Rightarrow> None
      | Some i \<Rightarrow> if ?hit i then Some i else None)"
    unfolding own_item_def by (rule find_strengthen [OF keys]) auto
  have row: "(\<lambda>i :: item_row. i\<lparr>i_ciphertext := c, i_type := (case ?t of None \<Rightarrow> i_type i | Some t \<Rightarrow> t),
      i_revision := i_revision i + 1, i_updated := now\<rparr>) = updated_row c ty now" for now
    by (simp add: updated_row_def fun_eq_iff)
  have rev: "i_revision i = (of_int n :: int32) \<longleftrightarrow> sint (i_revision i) = n" for i :: item_row
    using n int32_eq_iff by simp
  show ?thesis
  proof (cases "own_item iid uid (w_db w)")
    case None
    then show ?thesis
      using assms(1) hit by (simp add: Queries_UpdateItem_def scanVaultItem_def run_simps sql_step_def
          updateItem_def Let_def passed_def split: option.split)
  next
    case (Some i)
    then have i: "i \<in> set (items (w_db w))" "i_id i = iid" "i_user i = uid"
      by (auto simp: own_item_def find_Some_iff)
    have "i_type (updated_row c ty now i) \<in> set item_types \<longleftrightarrow> \<not> (ty \<noteq> [] \<and> ty \<notin> set item_types)" for now
      using inv i(1) by (auto simp: updated_row_def db_inv_def checks_ok_def)
    moreover have "?hit x \<longleftrightarrow> x = i" if "?hit i" "x \<in> set (items (w_db w))" for x
      using keys that i by (auto simp: distinct_map inj_on_def)
    then have "map (\<lambda>x. if ?hit x then updated_row c ty ?now x else x) (items (w_db w)) =
        map (\<lambda>x. if x = i then updated_row c ty ?now x else x) (items (w_db w))" if "?hit i"
      using that by (intro map_cong) auto
    moreover have "of_int n = int32_max \<longleftrightarrow> n = 2147483647"
      using int32_eq_iff [of n int32_max] n sint_int32_max by auto
    moreover have "updateItem iid uid (of_int n) c ?t now fresh (w_db w) =
        (case find ?hit (items (w_db w)) of None \<Rightarrow> (Inl ErrNoRows, w_db w)
         | Some i \<Rightarrow> if i_revision i = int32_max then (Inl out_of_range, w_db w)
            else if \<not> List.member item_types (i_type (updated_row c ty now i)) then (Inl check_violation, w_db w)
            else (Inr (updated_row c ty now i), (w_db w)\<lparr>items := map (\<lambda>x. if ?hit x then updated_row c ty now x else x) (items (w_db w))\<rparr>))"
      for now fresh
      unfolding updateItem_def row by (simp only: Let_def)
    moreover have "run_state (Queries_UpdateItem iid uid (of_int n) c ?t) w =
        (case sql_step (updateItem iid uid (of_int n) c ?t) w of (r, w') \<Rightarrow> (map_err (Wrap ''scan vault item'') r, w'))"
      using assms(1) by (simp add: Queries_UpdateItem_def scanVaultItem_def run_simps split: prod.split)
    moreover have "sint (i_revision i) = n \<Longrightarrow> i_revision i = int32_max \<longleftrightarrow> n = 2147483647"
      using rev calculation(3) by auto
    ultimately show ?thesis
      using hit Some i(2,3) rev [of i]
      by (cases "sint (i_revision i) = n"; cases "n = 2147483647")
         (simp_all add: sql_step_def Let_def passed_def)
  qed
qed

lemma run_itemExists:
  "calm w \<Longrightarrow> run_state (ItemsRepo_itemExists iid uid) w =
     (Inr (own_item iid uid (w_db w) \<noteq> None), passed w)"
  by (simp add: ItemsRepo_itemExists_def queries_defs run_simps sql_step_read [OF itemExists_def]
      one_row_def mapNotFound_def passed_def own_item_def split: option.split)

lemma run_ItemsRepo_Update_all:
  assumes "calm w" and "db_inv (w_db w)"
  shows "run_state (ItemsRepo_Update iid uid n c ty) w =
    (if n < 0 \<or> 2147483647 < n then (Inl (ErrText ''revision out of range''), w)
     else case own_item iid uid (w_db w) of
       None \<Rightarrow> (Inl ErrNotFound, passed (passed w))
     | Some i \<Rightarrow>
         if sint (i_revision i) \<noteq> n then (Inl ErrConflict, passed (passed w))
         else if n = 2147483647
         then (Inl (Wrap ''update item'' (Wrap ''scan vault item'' out_of_range)), passed w)
         else if ty \<noteq> [] \<and> ty \<notin> set item_types
         then (Inl (Wrap ''update item'' (Wrap ''scan vault item'' check_violation)), passed w)
         else (Inr (itemFromRow (updated_row c ty (ev_now (w_events w 0)) i)), (passed w)\<lparr>w_db := (w_db w)
             \<lparr>items := map (\<lambda>x. if x = i then updated_row c ty (ev_now (w_events w 0)) x else x) (items (w_db w))\<rparr>\<rparr>))"
proof (cases "n < 0 \<or> 2147483647 < n")
  case True
  then show ?thesis by (auto simp: ItemsRepo_Update_def revisionAsInt32_def)
next
  case False
  then have n: "0 \<le> n" "n \<le> 2147483647" by simp_all
  then have "revisionAsInt32 n = Inr (of_int n)" by (simp add: revisionAsInt32_def)
  then show ?thesis
    using False assms(1) run_updateItem [OF assms n, of iid uid c ty]
    by (cases "own_item iid uid (w_db w)")
       (auto simp: ItemsRepo_Update_def run_try run_itemExists sqlstates)
qed

lemma run_ItemsRepo_Update:
  assumes "calm w" and "db_inv (w_db w)" and n: "1 \<le> n" "n \<le> 2147483647"
    and "ty = [] \<or> ty \<in> set item_types"
  shows "run_state (ItemsRepo_Update iid uid n c ty) w =
    (case own_item iid uid (w_db w) of
       None \<Rightarrow> (Inl ErrNotFound, passed (passed w))
     | Some i \<Rightarrow>
         if sint (i_revision i) \<noteq> n then (Inl ErrConflict, passed (passed w))
         else if n = 2147483647
         then (Inl (Wrap ''update item'' (Wrap ''scan vault item'' out_of_range)), passed w)
         else (Inr (itemFromRow (updated_row c ty (ev_now (w_events w 0)) i)), (passed w)\<lparr>w_db := (w_db w)
             \<lparr>items := map (\<lambda>x. if x = i then updated_row c ty (ev_now (w_events w 0)) x else x) (items (w_db w))\<rparr>\<rparr>))"
  using assms by (auto simp: run_ItemsRepo_Update_all [OF assms(1,2)] split: option.split)

lemma own_item_updated:
  assumes "db_inv d" and "own_item iid uid d = Some i"
  shows "own_item iid uid (d\<lparr>items := map (\<lambda>x. if x = i then updated_row c ty t x else x) (items d)\<rparr>) =
    Some (updated_row c ty t i)"
proof -
  have keys: "distinct (map i_id (items d))" using assms(1) by (simp add: db_inv_def keys_ok_def)
  have i: "i \<in> set (items d)" "i_id i = iid" "i_user i = uid"
    using assms(2) by (auto simp: own_item_def find_Some_iff)
  have "find (\<lambda>x. i_id (if x = i then updated_row c ty t x else x) = iid \<and>
      i_user (if x = i then updated_row c ty t x else x) = uid) (items d) = own_item iid uid d"
    unfolding own_item_def by (rule find_cong) (auto simp: updated_row_def)
  then show ?thesis
    using assms(2) by (simp add: own_item_def find_map_if)
qed

lemma updated_row_revision:
  assumes "db_inv d" and "own_item iid uid d = Some i" and "sint (i_revision i) \<noteq> 2147483647"
  shows "sint (i_revision (updated_row c ty t i)) = sint (i_revision i) + 1"
proof -
  have "i \<in> set (items d)" using assms(2) by (auto simp: own_item_def find_Some_iff)
  then have "1 \<le> sint (i_revision i)" using assms(1) by (auto simp: db_inv_def checks_ok_def)
  moreover have "i_revision i \<noteq> int32_max" using assms(3) sint_int32_max by auto
  ultimately show ?thesis by (simp add: updated_row_def sint_succ)
qed

subsection \<open>Properties\<close>

text \<open>
  C11: optimistic concurrency.  While the database answers, an update of an item succeeds
  exactly when the caller owns the item, names its current revision, which is below the 32-bit
  limit, and gives a known item type or none; it then stores the new ciphertext with the next
  revision and touches no other item.  In every other case nothing changes, and the error
  says which: a revision that does not fit the column, no such item of the caller, a newer
  version, no revision left (22003), an unknown type (23514).
\<close>

theorem item_update_protocol:
  assumes "calm w" and "db_inv (w_db w)"
    and "run_state (ItemsRepo_Update iid uid n c ty) w = (res, w')"
  shows "if n < 0 \<or> 2147483647 < n then res = Inl (ErrText ''revision out of range'') \<and> w_db w' = w_db w
    else case own_item iid uid (w_db w) of
      None \<Rightarrow> res = Inl ErrNotFound \<and> w_db w' = w_db w
    | Some i \<Rightarrow>
        if sint (i_revision i) \<noteq> n then res = Inl ErrConflict \<and> w_db w' = w_db w
        else if n = 2147483647 then (\<exists>e. res = Inl e \<and> errors_AsPg e = Some ''22003'') \<and> w_db w' = w_db w
        else if ty \<noteq> [] \<and> ty \<notin> set item_types
        then (\<exists>e. res = Inl e \<and> errors_AsPg e = Some ''23514'') \<and> w_db w' = w_db w
        else \<exists>item row. res = Inr item \<and> v_revision item = n + 1 \<and> v_ciphertext item = c \<and>
          own_item iid uid (w_db w') = Some row \<and> item = itemFromRow row \<and>
          i_type row = (if ty = [] then i_type i else ty) \<and>
          filter (\<lambda>x. i_id x \<noteq> iid) (items (w_db w')) = filter (\<lambda>x. i_id x \<noteq> iid) (items (w_db w))"
proof (cases "own_item iid uid (w_db w)")
  case None
  then show ?thesis using assms(3) by (auto simp: run_ItemsRepo_Update_all [OF assms(1,2)] split: if_splits)
next
  case (Some i)
  then have i: "i_id i = iid" by (auto simp: own_item_def find_Some_iff)
  let ?row = "updated_row c ty (ev_now (w_events w 0)) i"
  have "filter (\<lambda>x. i_id x \<noteq> iid) (map (\<lambda>x. if x = i then updated_row c ty t x else x) xs) =
      filter (\<lambda>x. i_id x \<noteq> iid) xs" for t xs
    by (induction xs) (auto simp: updated_row_def i)
  moreover have "sint (i_revision i) = n \<Longrightarrow> n \<noteq> 2147483647 \<Longrightarrow>
      sint (i_revision ?row) = n + 1" using updated_row_revision [OF assms(2) Some] by simp
  ultimately show ?thesis
    using assms(3) Some own_item_updated [OF assms(2) Some]
    by (auto simp: run_ItemsRepo_Update_all [OF assms(1,2)] itemFromRow_def sqlstates split: if_splits)
       (simp_all add: updated_row_def)
qed

text \<open>
  No lost update.  After an update with some revision has succeeded, another update
  naming the same revision is refused as a conflict and changes nothing.
\<close>

theorem stale_update_conflicts:
  assumes "calm w" and "db_inv (w_db w)" and "1 \<le> n" and "n \<le> 2147483647"
    and "ty = [] \<or> ty \<in> set item_types" and "ty2 = [] \<or> ty2 \<in> set item_types"
    and first: "run_state (ItemsRepo_Update iid uid n c ty) w = (Inr item, w')"
    and v: "calm v" "db_inv (w_db v)" "items (w_db v) = items (w_db w')"
  shows "fst (run_state (ItemsRepo_Update iid uid n c2 ty2) v) = Inl ErrConflict \<and>
    w_db (snd (run_state (ItemsRepo_Update iid uid n c2 ty2) v)) = w_db v"
proof -
  from first obtain i where i: "own_item iid uid (w_db w) = Some i" "sint (i_revision i) = n" "n \<noteq> 2147483647"
    and w': "w_db w' = (w_db w)\<lparr>items := map (\<lambda>x. if x = i then updated_row c ty (ev_now (w_events w 0)) x else x) (items (w_db w))\<rparr>"
    by (auto simp: run_ItemsRepo_Update [OF assms(1-5)] split: option.splits if_splits)
  have "own_item iid uid (w_db v) = own_item iid uid (w_db w')" using v(3) by (simp add: own_item_def)
  also have "\<dots> = Some (updated_row c ty (ev_now (w_events w 0)) i)"
    unfolding w' by (rule own_item_updated [OF assms(2) i(1)])
  finally show ?thesis
    using updated_row_revision [OF assms(2) i(1)] i(2,3)
    by (simp add: run_ItemsRepo_Update [OF v(1,2) assms(3,4,6)])
qed

definition sample_item :: item_row where
  "sample_item = \<lparr>i_id = UUID 9, i_user = UUID 1, i_ciphertext = ''QQ=='', i_type = ''login'',
     i_revision = 1, i_updated = 5\<rparr>"

definition sample_item_db :: db where
  "sample_item_db = sample_db\<lparr>items := [sample_item]\<rparr>"

lemma sample_item_db_inv: "db_inv sample_item_db"
  by (simp add: sample_item_db_def sample_db_def db_inv_def db_inv_defs empty_db_def
      sample_session_def sample_user_def sample_item_def item_types_def)

lemma sample_own_item: "own_item (UUID 9) (UUID 1) sample_item_db = Some sample_item"
  by (simp add: own_item_def sample_item_db_def sample_item_def)

theorem item_update_protocol_witness:
  "\<exists>item w'. run_state (ItemsRepo_Update (UUID 9) (UUID 1) 1 ''QUI='' []) (sample_world sample_item_db) =
     (Inr item, w') \<and> v_revision item = 2 \<and> v_ciphertext item = ''QUI=''"
proof -
  obtain res w' where run: "run_state (ItemsRepo_Update (UUID 9) (UUID 1) 1 ''QUI='' []) (sample_world sample_item_db) =
     (res, w')" by fastforce
  have inv: "db_inv (w_db (sample_world sample_item_db))" by (simp add: sample_item_db_inv)
  show ?thesis
    using item_update_protocol [OF calm_sample inv run] run
    by (simp add: sample_own_item) (auto simp: sample_item_def)
qed

theorem stale_update_conflicts_witness:
  "\<exists>item w'. run_state (ItemsRepo_Update (UUID 9) (UUID 1) 1 ''QUI='' []) (sample_world sample_item_db) =
     (Inr item, w') \<and>
     fst (run_state (ItemsRepo_Update (UUID 9) (UUID 1) 1 ''QkI='' []) (sample_world (w_db w'))) = Inl ErrConflict"
proof -
  have inv: "db_inv (w_db (sample_world sample_item_db))" by (simp add: sample_item_db_inv)
  obtain item w' where run: "run_state (ItemsRepo_Update (UUID 9) (UUID 1) 1 ''QUI='' []) (sample_world sample_item_db) =
     (Inr item, w')"
    using run_ItemsRepo_Update [OF calm_sample inv, of 1 "[]"] by (simp add: sample_own_item) (auto simp: sample_item_def)
  have "within inv_step (ItemsRepo_Update (UUID 9) (UUID 1) 1 ''QUI='' [])" by (rule tables.items_repo(5)) simp
  then have "db_inv (w_db w')"
    using inv withinD [OF _ _ run] by (fastforce simp: rely_def inv_step_def)
  then show ?thesis
    using stale_update_conflicts [OF calm_sample inv _ _ _ _ run, of "[]" "sample_world (w_db w')"] run by simp
qed

end
