(* ===== verification/Vault.thy ===== *)
theory Vault
  imports Contract Wasm ItemLife Accounts "HOL-Library.Multiset"
begin

text \<open>
  A vault from one device to another.  Serving a request is first reduced to running the mux
  behind the global chain; on it rest the exact content of a sync, and the way of a secret
  from the browser that seals it through the server to another browser that opens it.
\<close>

subsection \<open>A request behind the global chain\<close>

definition request_id :: "world \<Rightarrow> string" where
  "request_id w = hex_EncodeToString (map (rng_bytes (w_rng w)) [0..<16])"

definition annotated :: "world \<Rightarrow> request \<Rightarrow> request" where
  "annotated w r = r\<lparr>cx_request_id := Some (request_id w), cx_user_agent := Some (rq_header r ''User-Agent''),
     rq_limit := Some maxBodyBytes\<rparr>"

definition entry_response :: "string \<Rightarrow> world \<Rightarrow> response" where
  "entry_response origin w = cors_response origin (armored (rs_set ''X-Request-ID'' (request_id w) fresh_response))"

definition entered :: "string \<Rightarrow> world \<Rightarrow> world" where
  "entered origin w = (tick (drawn 16 w))\<lparr>w_resp := entry_response origin w\<rparr>"

lemma annotated_fields [simp]:
  "rq_method (annotated w r) = rq_method r" "rq_path (annotated w r) = rq_path r"
  "rq_header (annotated w r) = rq_header r" "rq_cookies (annotated w r) = rq_cookies r"
  "rq_body (annotated w r) = rq_body r" "rq_limit (annotated w r) = Some maxBodyBytes"
  "cx_user_id (annotated w r) = cx_user_id r" "rq_query (annotated w r) = rq_query r"
  by (simp_all add: annotated_def)

lemma entered_fields [simp]:
  "w_db (entered origin w) = w_db w" "w_events (entered origin w) = w_events w"
  "w_clock (entered origin w) i = w_clock w (Suc i)" "w_auth (entered origin w) = w_auth w"
  "w_resp (entered origin w) = entry_response origin w" "calm (entered origin w) = calm w"
  by (simp_all add: entered_def)

lemma entry_response_fields [simp]:
  "rs_sent (entry_response origin w) = None" "rs_body (entry_response origin w) = []"
  "rs_cookies (entry_response origin w) = []"
  by (simp_all add: entry_response_def cors_response_def armored_def rs_set_def fresh_response_def)

text \<open>Serving a request is running the mux on the annotated request; the chain adds its headers
  before and its log line after.\<close>

lemma run_serve:
  assumes "rand_ok w" and "rq_method r \<noteq> ''OPTIONS''"
    and "run_state (mux (routes l spec page) (annotated w r)) (entered origin w) = (Done, v')"
  shows "\<exists>w'. run_state (serve l spec page origin r) w = (Done, w') \<and> w_resp w' = w_resp v' \<and>
    w_db w' = w_db v' \<and> w_auth w' = w_auth v'"
proof -
  have "rand_ok (w\<lparr>w_resp := fresh_response\<rparr>)" using assms(1) by simp
  then have id: "run_state (newRequestID l) (w\<lparr>w_resp := fresh_response\<rparr>) =
      (request_id w, drawn 16 (w\<lparr>w_resp := fresh_response\<rparr>))"
    by (simp add: newRequestID_def run_rand request_id_def)
  have v: "(tick ((drawn 16 (w\<lparr>w_resp := fresh_response\<rparr>))
        \<lparr>w_resp := rs_set ''X-Request-ID'' (request_id w) fresh_response\<rparr>))\<lparr>w_resp := entry_response origin w\<rparr> =
      entered origin w"
    by (simp add: entered_def drawn_def tick_def)
  show ?thesis
    using assms(2,3) v unfolding annotated_def entry_response_def
    by (simp add: serve_def NewRouter_def run_prims run_chain run_cors id)
qed

subsection \<open>Signed-in requests\<close>

text \<open>The request's access cookie is that of a session of the user, valid at every reading of the
  clock.\<close>

definition signed_in :: "lib \<Rightarrow> request \<Rightarrow> uuid \<Rightarrow> world \<Rightarrow> bool" where
  "signed_in l r uid w = (\<exists>tok s. Cookie AccessCookieName r = Some tok \<and>
     find (\<lambda>s. s_access s = hashToken l tok) (sessions (w_db w)) = Some s \<and> s_user s = uid \<and>
     (\<forall>i. w_clock w i \<le> s_access_exp s))"

lemma run_sessionAuth:
  assumes "calm w" and "signed_in l r uid w"
  shows "run_state (sessionAuth l h r) w = run_state (h (r\<lparr>cx_user_id := Some uid\<rparr>)) (tick (passed w))"
proof -
  obtain tok s where s: "Cookie AccessCookieName r = Some tok" "s_user s = uid" "\<not> s_access_exp s < w_clock w 0"
      "find (\<lambda>s. s_access s = hashToken l tok) (sessions (w_db w)) = Some s"
    using assms(2) by (auto simp: signed_in_def not_less)
  then show ?thesis by (simp add: sessionAuth_def run_simps assms(1))
qed

lemma signed_in_entered:
  "signed_in l r uid w \<Longrightarrow> signed_in l (annotated w' r\<lparr>rq_path_id := pid\<rparr>) uid (entered origin w)"
  by (auto simp: signed_in_def Cookie_def)

lemma run_plain: "run_state (plain f r) w = (Done, snd (run_state (f r) w))"
  by (simp add: plain_def split: prod.split)

subsection \<open>Sync\<close>

definition vault_rows :: "uuid \<Rightarrow> db \<Rightarrow> item_row list" where
  "vault_rows uid d = sort_key (\<lambda>i. - i_updated i) (filter (\<lambda>i. i_user i = uid) (items d))"

lemma run_ListItems [run_simps]:
  "calm w \<Longrightarrow> run_state (ItemsRepo_List uid) w = (Inr (map itemFromRow (vault_rows uid (w_db w))), passed w)"
  by (simp add: ItemsRepo_List_def queries_defs run_simps sql_step_read [OF listItems_def] passed_def vault_rows_def)

text \<open>The snapshot as a client finds it in the answer.\<close>

definition snapshot :: "gen_KDFParams \<Rightarrow> User \<Rightarrow> db \<Rightarrow> json" where
  "snapshot k u d = SyncResponse (map (storageItemToGen \<circ> itemFromRow) (vault_rows (u_id u) d)) k (u_psk u)
     (u_ptotp u) (u_totp_enabled u)"

lemma run_GetSync:
  assumes "calm w" and "cx_user_id r = Some (u_id u)"
    and "find (\<lambda>x. u_id x = u_id u) (users (w_db w)) = Some u"
    and "gen_KDFParams_Unmarshal l (u_kdf u) = Some k"
  shows "run_state (GetSync l r) w = ((), (passed (passed w))\<lparr>w_resp := rs_json 200 (snapshot k u (w_db w)) (w_resp w)\<rparr>)"
  using assms by (simp add: GetSync_def run_simps user_kdf_def writeJSON_def snapshot_def)

lemma route_sync:
  assumes "rq_method r = ''GET''" and "rq_path r = ''/api/sync''"
  shows "mux (routes l spec page) r = sessionAuth l (plain (GetSync l)) (r\<lparr>rq_path_id := []\<rparr>)"
  using assms
  by (simp add: mux_def clean_path_def path_segments_def routes_def route_of_def route_match_def method_matches_def
      chain_def)

lemma serve_sync:
  assumes "calm w" and "rand_ok w" and "signed_in l r (u_id u) w"
    and r: "rq_method r = ''GET''" "rq_path r = ''/api/sync''"
    and u: "find (\<lambda>x. u_id x = u_id u) (users (w_db w)) = Some u" "gen_KDFParams_Unmarshal l (u_kdf u) = Some k"
  obtains w' where "run_state (serve l spec page origin r) w = (Done, w')" "rs_status (w_resp w') = 200"
    "rs_body (w_resp w') = [BJson (snapshot k u (w_db w))]" "w_db w' = w_db w" "w_auth w' = w_auth w"
proof -
  let ?q = "annotated w r\<lparr>rq_path_id := []\<rparr>" and ?v = "entered origin w"
  have m: "run_state (mux (routes l spec page) (annotated w r)) ?v =
      (Done, (passed (passed (tick (passed ?v))))\<lparr>w_resp := rs_json 200 (snapshot k u (w_db w)) (entry_response origin w)\<rparr>)"
    using assms(1) u
    by (simp add: route_sync r run_sessionAuth [OF _ signed_in_entered [OF assms(3)]] run_plain run_GetSync)
  then obtain w' where w': "run_state (serve l spec page origin r) w = (Done, w')"
      "w_resp w' = rs_json 200 (snapshot k u (w_db w)) (entry_response origin w)" "w_db w' = w_db w" "w_auth w' = w_auth w"
    using run_serve [OF assms(2) _ m] r(1) by auto
  then show ?thesis
    using that [OF w'(1) _ _ w'(3,4)] rs_json_fresh [of "entry_response origin w" 200] by simp
qed

subsection \<open>Storing an item\<close>

definition item_body :: "string \<Rightarrow> string \<Rightarrow> json" where
  "item_body c ty = JObj [(''ciphertext'', JStr c), (''item_type'', JStr ty)]"

lemma ascii_new_item [simp]: "ascii ''ciphertext''" "ascii ''item_type''"
  by code_simp+

lemma decode_item_body:
  assumes "rq_body r = Some (n, item_body c ty)" and "rq_limit r = Some m" and "n \<le> m"
  shows "decodeJSON l NewItem_fields zero_NewItem r = Some \<lparr>ni_ciphertext = c, ni_type = ty\<rparr>"
  using assms
  by (simp add: decodeJSON_def item_body_def NewItem_fields_def zero_NewItem_def json_defs ascii_lower_def)

definition new_row :: "world \<Rightarrow> uuid \<Rightarrow> string \<Rightarrow> string \<Rightarrow> item_row" where
  "new_row w uid c ty = \<lparr>i_id = ev_uuid (w_events w 0), i_user = uid, i_ciphertext = c, i_type = ty,
     i_revision = 1, i_updated = ev_now (w_events w 0)\<rparr>"

lemma run_ItemsRepo_Create:
  assumes "calm w" and "ty \<in> set item_types" and "user_exists (w_db w) uid"
    and "\<forall>i \<in> set (items (w_db w)). i_id i \<noteq> ev_uuid (w_events w 0)"
  shows "run_state (ItemsRepo_Create uid c ty) w = (Inr (itemFromRow (new_row w uid c ty)),
    (passed w)\<lparr>w_db := (w_db w)\<lparr>items := items (w_db w) @ [new_row w uid c ty]\<rparr>\<rparr>)"
proof -
  have "\<not> list_ex (\<lambda>i. i_id i = ev_uuid (w_events w 0)) (items (w_db w))"
    using assms(4) by (auto simp: list_ex_iff)
  then show ?thesis
    using assms(1-3)
    by (simp add: ItemsRepo_Create_def Queries_CreateItem_def scanVaultItem_def run_simps sql_step_def createItem_def
        new_row_def passed_def Let_def)
qed

lemma recorded_items [simp]: "items (w_db (recorded l r u ty res m w)) = items (w_db w)"
  by (simp add: recorded_db audit_of_def appendAuditEvent_def Let_def)

lemma run_CreateItem:
  assumes "calm w" and "cx_user_id r = Some uid"
    and "decodeJSON l NewItem_fields zero_NewItem r = Some \<lparr>ni_ciphertext = c, ni_type = ty\<rparr>"
    and "validateCiphertext c = None" and "ty \<in> set item_types" and "user_exists (w_db w) uid"
    and "\<forall>i \<in> set (items (w_db w)). i_id i \<noteq> ev_uuid (w_events w 0)" and "rs_sent (w_resp w) = None"
    and "run_state (CreateItem l r) w = ((), w')"
  shows "rs_status (w_resp w') = 201 \<and> items (w_db w') = items (w_db w) @ [new_row w uid c ty] \<and>
    rs_body (w_resp w') = rs_body (w_resp w) @ [BJson (storageItemToGen (itemFromRow (new_row w uid c ty)))]"
proof -
  have ty: "NewItemItemType_Valid ty" using assms(5) by (auto simp: NewItemItemType_Valid_def item_types_def)
  have ev: "EventItemCreate \<noteq> EventLoginFailure" "EventItemCreate \<noteq> EventLoginSuccess" by (simp_all add: event_defs)
  show ?thesis
    using assms(9) rs_json_fresh [OF assms(8), of 201]
    by (auto simp: CreateItem_def assms(1-4) ty run_ItemsRepo_Create [OF assms(1,5,6,7)] run_simps ev writeJSON_def
        itemFromRow_def new_row_def)
qed

lemma route_create:
  assumes "rq_method r = ''POST''" and "rq_path r = ''/api/items''" and "rq_header r ''X-Vault-CSRF'' = ''1''"
  shows "mux (routes l spec page) r = sessionAuth l (plain (CreateItem l)) (r\<lparr>rq_path_id := []\<rparr>)"
  using assms
  by (simp add: mux_def clean_path_def path_segments_def routes_def route_of_def route_match_def method_matches_def
      chain_def sessionAuth_def requireCSRF_def cong: option.case_cong sum.case_cong)

lemma serve_create:
  assumes "calm w" and "rand_ok w" and "signed_in l r uid w"
    and r: "rq_method r = ''POST''" "rq_path r = ''/api/items''" "rq_header r ''X-Vault-CSRF'' = ''1''"
    and body: "rq_body r = Some (n, item_body c ty)" "n \<le> maxBodyBytes"
    and item: "validateCiphertext c = None" "ty \<in> set item_types"
    and db: "user_exists (w_db w) uid" "\<forall>i \<in> set (items (w_db w)). i_id i \<noteq> ev_uuid (w_events w 1)"
  shows "\<exists>w' row. run_state (serve l spec page origin r) w = (Done, w') \<and> rs_status (w_resp w') = 201 \<and>
    items (w_db w') = items (w_db w) @ [row] \<and> row = new_row (passed w) uid c ty \<and>
    rs_body (w_resp w') = [BJson (storageItemToGen (itemFromRow row))]"
proof -
  let ?q = "annotated w r\<lparr>rq_path_id := []\<rparr>" and ?v = "tick (passed (entered origin w))"
  let ?q' = "?q\<lparr>cx_user_id := Some uid\<rparr>"
  obtain v' where run: "run_state (CreateItem l ?q') ?v = ((), v')" using run_unit by blast
  have dec: "decodeJSON l NewItem_fields zero_NewItem ?q' = Some \<lparr>ni_ciphertext = c, ni_type = ty\<rparr>"
    by (rule decode_item_body) (use body in simp_all)
  have row: "new_row ?v uid c ty = new_row (passed w) uid c ty" by (simp add: new_row_def)
  have c: "rs_status (w_resp v') = 201 \<and> items (w_db v') = items (w_db w) @ [new_row (passed w) uid c ty] \<and>
      rs_body (w_resp v') = [BJson (storageItemToGen (itemFromRow (new_row (passed w) uid c ty)))]"
    using run_CreateItem [OF _ _ dec item _ _ _ run] assms(1) db row by simp
  have m: "run_state (mux (routes l spec page) (annotated w r)) (entered origin w) = (Done, v')"
    using assms(1) by (simp add: route_create r run_sessionAuth [OF _ signed_in_entered [OF assms(3)]] run_plain run)
  show ?thesis using run_serve [OF assms(2) _ m] r(1) c by auto
qed

lemma vault_rows_props:
  "mset (vault_rows uid d) = mset (filter (\<lambda>i. i_user i = uid) (items d))"
  "sorted_wrt (\<lambda>a b. i_updated b \<le> i_updated a) (vault_rows uid d)"
  "set (vault_rows uid d) = {i \<in> set (items d). i_user i = uid}"
proof -
  show "mset (vault_rows uid d) = mset (filter (\<lambda>i. i_user i = uid) (items d))" by (simp add: vault_rows_def)
  show "set (vault_rows uid d) = {i \<in> set (items d). i_user i = uid}" by (auto simp: vault_rows_def)
  have "sorted (map (\<lambda>i. - i_updated i) (vault_rows uid d))" by (simp add: vault_rows_def)
  then show "sorted_wrt (\<lambda>a b. i_updated b \<le> i_updated a) (vault_rows uid d)"
    by (simp add: sorted_wrt_map)
qed

subsection \<open>Properties\<close>

text \<open>
  C13: a sync returns the user's vault, the whole of it and nothing else.  A signed-in
  \<open>GET /api/sync\<close> is answered 200 with the user's key-derivation parameters, protected key and
  second-factor state and with exactly the user's items, the last changed first; it changes
  nothing.
\<close>

theorem sync_returns_vault:
  assumes "calm w" and "rand_ok w" and "signed_in l r (u_id u) w"
    and "rq_method r = ''GET''" and "rq_path r = ''/api/sync''"
    and "find (\<lambda>x. u_id x = u_id u) (users (w_db w)) = Some u" and "gen_KDFParams_Unmarshal l (u_kdf u) = Some k"
    and "run_state (serve l spec page origin r) w = (out, w')"
  shows "rs_status (w_resp w') = 200 \<and> w_db w' = w_db w \<and> (\<exists>its.
    rs_body (w_resp w') = [BJson (SyncResponse (map (storageItemToGen \<circ> itemFromRow) its) k (u_psk u)
      (u_ptotp u) (u_totp_enabled u))] \<and>
    mset its = mset (filter (\<lambda>i. i_user i = u_id u) (items (w_db w))) \<and>
    sorted_wrt (\<lambda>a b. i_updated b \<le> i_updated a) its)"
proof -
  obtain w1 where w1: "run_state (serve l spec page origin r) w = (Done, w1)" "rs_status (w_resp w1) = 200"
    "rs_body (w_resp w1) = [BJson (snapshot k u (w_db w))]" "w_db w1 = w_db w"
    using serve_sync [OF assms(1-7)] by blast
  then have "w' = w1" using assms(8) by simp
  then show ?thesis using w1(2-4) vault_rows_props by (auto simp: snapshot_def)
qed

text \<open>
  C6: a second device reads what the first one stored.  A browser wraps the vault key under
  the key-encryption key and seals an item under the vault key; the server, which sees neither
  key, stores the upload.  At any later time another browser that holds only the
  key-encryption key syncs, unwraps the vault key from the answer and opens the item to the same
  content.
\<close>

theorem second_device_reads_item:
  assumes l: "aead_ok l" "\<And>i. Item_Unmarshal l (to_bytes txt) = Inr i \<Longrightarrow> item_encodable l i"
    and a: "run_state (jsWrapVaultKey l [JsString key, JsString kek]) a0 = (Inr (JsString psk), a1)"
      "run_state (jsSealItem l [JsString txt, JsString key]) a2 = (Inr (JsString c), a3)"
    and w: "calm w" "rand_ok w" "signed_in l r (u_id u) w" "user_exists (w_db w) (u_id u)"
      "\<forall>i \<in> set (items (w_db w)). i_id i \<noteq> ev_uuid (w_events w 1)"
    and r: "rq_method r = ''POST''" "rq_path r = ''/api/items''" "rq_header r ''X-Vault-CSRF'' = ''1''"
      "rq_body r = Some (n, item_body c ty)" "n \<le> maxBodyBytes" "ty \<in> set item_types"
    and up: "run_state (serve l spec page origin r) w = (out, w')"
    and v: "calm v" "rand_ok v" "signed_in l q (u_id u) v" "set (items (w_db w')) \<subseteq> set (items (w_db v))"
      "find (\<lambda>x. u_id x = u_id u) (users (w_db v)) = Some u" "gen_KDFParams_Unmarshal l (u_kdf u) = Some k"
      "u_psk u = psk"
    and q: "rq_method q = ''GET''" "rq_path q = ''/api/sync''"
    and down: "run_state (serve l spec page origin q) v = (out', v')"
  shows "rs_status (w_resp w') = 201 \<and> (\<exists>its iid t key' i.
    rs_body (w_resp v') = [BJson (SyncResponse its k psk (u_ptotp u) (u_totp_enabled u))] \<and>
    JObj [(''ciphertext'', JStr c), (''id'', json_uuid iid), (''item_type'', JStr ty), (''revision'', JNum 1),
      (''updated_at'', json_time t)] \<in> set its \<and>
    fst (run_state (jsUnwrapVaultKey l [JsString psk, JsString kek]) b0) = Inr (JsString key') \<and>
    Item_Unmarshal l (to_bytes txt) = Inr i \<and>
    fst (run_state (jsOpenItem l [JsString c, JsString key']) b1) = Inr (JsString (of_bytes (Item_Marshal l i))))"
proof -
  obtain kb where kb: "base64_decode key = Some kb"
      "fst (run_state (jsUnwrapVaultKey l [JsString psk, JsString kek]) b0) = Inr (JsString (base64_encode kb))"
    using unwrap_wrapped_key [OF l(1) a(1)] by blast
  obtain i cb where i: "Item_Unmarshal l (to_bytes txt) = Inr i" "c = base64_encode cb" "cb \<noteq> []"
    and opened: "\<And>k' s. base64_decode k' = base64_decode key \<Longrightarrow>
        fst (run_state (jsOpenItem l [JsString c, JsString k']) s) = Inr (JsString (of_bytes (Item_Marshal l i)))"
    using open_sealed_item [OF l(1) a(2)] l(2) by blast
  have c: "validateCiphertext c = None" using i(2,3) by (simp add: validateCiphertext_def base64_roundtrip)
  obtain w1 row where w1: "run_state (serve l spec page origin r) w = (Done, w1)" "rs_status (w_resp w1) = 201"
      "items (w_db w1) = items (w_db w) @ [row]" "row = new_row (passed w) (u_id u) c ty"
    using serve_create [OF w(1-3) r(1-5) c r(6) w(4,5)] by blast
  obtain v1 where v1: "run_state (serve l spec page origin q) v = (Done, v1)"
      "rs_body (w_resp v1) = [BJson (snapshot k u (w_db v))]"
    using serve_sync [OF v(1-3) q v(5,6)] by blast
  have "w' = w1" "v' = v1" using w1(1) v1(1) up down by simp_all
  then have "row \<in> set (vault_rows (u_id u) (w_db v))"
    using v(4) w1(3,4) by (auto simp: vault_rows_props new_row_def)
  then have "storageItemToGen (itemFromRow row) \<in>
      set (map (storageItemToGen \<circ> itemFromRow) (vault_rows (u_id u) (w_db v)))" by simp
  then have "JObj [(''ciphertext'', JStr c), (''id'', json_uuid (i_id row)), (''item_type'', JStr ty),
      (''revision'', JNum 1), (''updated_at'', json_time (i_updated row))] \<in>
      set (map (storageItemToGen \<circ> itemFromRow) (vault_rows (u_id u) (w_db v)))"
    using w1(4) by (simp add: storageItemToGen_def itemFromRow_def new_row_def)
  moreover have "fst (run_state (jsOpenItem l [JsString c, JsString (base64_encode kb)]) b1) =
      Inr (JsString (of_bytes (Item_Marshal l i)))"
    by (rule opened) (simp add: base64_roundtrip kb(1))
  ultimately show ?thesis
    using \<open>w' = w1\<close> \<open>v' = v1\<close> w1(2) v1(2) kb(2) i(1) v(7) unfolding snapshot_def by blast
qed

subsection \<open>Examples\<close>

definition vault_user :: "string \<Rightarrow> User" where
  "vault_user psk = sample_user\<lparr>u_kdf := gen_KDFParams_json defaultGenKDFParams, u_psk := psk\<rparr>"

definition vault_db :: "string \<Rightarrow> db" where
  "vault_db psk = empty_db\<lparr>users := [vault_user psk],
     sessions := [sample_session\<lparr>s_access := pad_to 32 (to_bytes ''tok'')\<rparr>], items := [sample_item]\<rparr>"

definition vault_world :: "db \<Rightarrow> world" where
  "vault_world d = (sample_world d)\<lparr>w_clock := (\<lambda>_. 1000)\<rparr>"

definition with_cookie :: "request \<Rightarrow> request" where
  "with_cookie r = r\<lparr>rq_cookies := [(AccessCookieName, ''tok'')]\<rparr>"

definition pull :: request where
  "pull = with_cookie (sample_request ''GET'' ''/api/sync'' JNull)"

lemma pull_line: "rq_method pull = ''GET''" "rq_path pull = ''/api/sync''"
  by (simp_all add: pull_def with_cookie_def sample_request_def)

lemma vault_world_ok: "calm (vault_world d)" "rand_ok (vault_world d)" "w_db (vault_world d) = d"
    "ev_uuid (w_events (vault_world d) i) = UUID (of_nat (i + 100))"
  by (simp_all add: vault_world_def rand_ok_def sample_rng_def)

lemma vault_user_fields: "u_psk (vault_user psk) = psk" "u_id (vault_user psk) = UUID 1"
    "gen_KDFParams_Unmarshal l (u_kdf (vault_user psk)) = Some defaultGenKDFParams"
  by (simp_all add: vault_user_def sample_user_def gen_KDFParams_roundtrip default_kdf_ok)

lemma vault_signed_in:
  assumes "sha256 l = pad_to 32" and "sessions d = sessions (vault_db psk)"
  shows "signed_in l (with_cookie r) (UUID 1) (vault_world d)"
  using assms
  by (auto simp: signed_in_def with_cookie_def Cookie_def vault_world_def vault_db_def hashToken_def sample_session_def)

lemma vault_found: "find (\<lambda>x. u_id x = u_id (vault_user psk)) (users (vault_db psk)) = Some (vault_user psk)"
  by (simp add: vault_db_def)

theorem sync_returns_vault_witness:
  "\<exists>w' its. run_state (serve sample_lib None [] [] pull) (vault_world (vault_db ''QQ=='')) = (Done, w') \<and>
     rs_status (w_resp w') = 200 \<and> length its = (1::nat) \<and>
     rs_body (w_resp w') = [BJson (SyncResponse (map (storageItemToGen \<circ> itemFromRow) its) defaultGenKDFParams ''QQ=='' None False)]"
proof -
  let ?w = "vault_world (vault_db ''QQ=='')" and ?u = "vault_user ''QQ==''"
  have s: "signed_in sample_lib pull (u_id ?u) ?w"
    unfolding pull_def vault_user_fields by (rule vault_signed_in) (simp_all add: sample_lib_def)
  obtain w' where run: "run_state (serve sample_lib None [] [] pull) ?w = (Done, w')"
    using serve_sync [OF vault_world_ok(1,2) s pull_line _ vault_user_fields(3)] vault_found
    by (simp add: vault_world_ok(3)) blast
  have "length its = 1" if "mset its = mset (filter (\<lambda>i. i_user i = u_id ?u) (items (vault_db ''QQ=='')))" for its
    using mset_eq_length [OF that] by (simp add: vault_db_def sample_item_def vault_user_fields)
  then show ?thesis
    using sync_returns_vault [OF vault_world_ok(1,2) s pull_line _ vault_user_fields(3) run] vault_found run
    by (auto simp: vault_world_ok(3) vault_user_fields(1)) (auto simp: vault_user_def sample_user_def)
qed

definition push :: "string \<Rightarrow> request" where
  "push c = with_cookie (sample_request ''POST'' ''/api/items'' (item_body c ''login''))"

lemma push_line: "rq_method (push c) = ''POST''" "rq_path (push c) = ''/api/items''" "rq_header (push c) ''X-Vault-CSRF'' = ''1''"
    "rq_body (push c) = Some (100, item_body c ''login'')" "(100::nat) \<le> maxBodyBytes" "''login'' \<in> set item_types"
  by (simp_all add: push_def with_cookie_def sample_request_def maxBodyBytes_def item_types_def)

theorem second_device_reads_item_witness:
  "\<exists>l psk c w' v' its key' out out'. run_state (serve l None [] [] (push c)) (vault_world (vault_db psk)) = (out, w') \<and>
     run_state (serve l None [] [] pull) (vault_world ((vault_db psk)\<lparr>items := items (w_db w')\<rparr>)) = (out', v') \<and>
     rs_body (w_resp v') = [BJson (SyncResponse its defaultGenKDFParams psk None False)] \<and>
     fst (run_state (jsUnwrapVaultKey l [JsString psk, JsString (base64_encode (replicate 32 1))])
       \<lparr>wa_rng = sample_rng, wa_heap = []\<rparr>) = Inr (JsString key') \<and>
     fst (run_state (jsOpenItem l [JsString c, JsString key']) \<lparr>wa_rng = sample_rng, wa_heap = []\<rparr>) =
       Inr (JsString (of_bytes (Item_Marshal l zero_Item)))"
proof -
  define l where "l = sample_lib\<lparr>json_parse := \<lambda>_. Some (Item_json zero_Item)\<rparr>"
  let ?a = "\<lparr>wa_rng = sample_rng, wa_heap = []\<rparr>"
    and ?key = "base64_encode (replicate 32 9)" and ?kek = "base64_encode (replicate 32 1)"
  have l: "aead_ok l" "sha256 l = pad_to 32" by (simp_all add: l_def aead_ok_sample sample_lib_def [THEN arg_cong, of sha256])
  have item: "Item_Unmarshal l b = Inr zero_Item" "item_encodable l zero_Item" for b
    using Item_unmarshal_marshal [of l zero_Item]
    by (simp_all add: l_def item_encodable_def json_ok_def Item_Unmarshal_def Item_Marshal_def)
  obtain psk a1 where wrap: "run_state (jsWrapVaultKey l [JsString ?key, JsString ?kek]) ?a = (Inr (JsString psk), a1)"
    by (auto simp: jsWrapVaultKey_def run_andThen run_draw js_String_def nth_append base64_roundtrip
        WrapKey_def Seal_run [OF l(1)] sample_rng_def Let_def)
  obtain c a3 where seal: "run_state (jsSealItem l [JsString ''{}'', JsString ?key]) ?a = (Inr (JsString c), a3)"
    by (auto simp: jsSealItem_def run_andThen run_draw js_String_def nth_append base64_roundtrip item
        EncryptItem_def Seal_run [OF l(1)] sample_rng_def Let_def)
  let ?w = "vault_world (vault_db psk)"
  have sw: "signed_in l (push c) (u_id (vault_user psk)) ?w"
    unfolding push_def vault_user_fields by (rule vault_signed_in [OF l(2)]) simp
  have u: "user_exists (w_db ?w) (u_id (vault_user psk))"
    by (simp add: vault_world_ok(3) vault_db_def user_exists_def)
  have new: "\<forall>i \<in> set (items (w_db ?w)). i_id i \<noteq> ev_uuid (w_events ?w 1)"
    unfolding vault_world_ok by (simp add: vault_db_def sample_item_def)
  obtain out w' where up: "run_state (serve l None [] [] (push c)) ?w = (out, w')" by fastforce
  let ?v = "vault_world ((vault_db psk)\<lparr>items := items (w_db w')\<rparr>)"
  have sv: "signed_in l pull (u_id (vault_user psk)) ?v"
    unfolding pull_def vault_user_fields by (rule vault_signed_in [OF l(2)]) simp
  obtain out' v' where down: "run_state (serve l None [] [] pull) ?v = (out', v')" by fastforce
  have keep: "set (items (w_db w')) \<subseteq> set (items (w_db ?v))"
      "find (\<lambda>x. u_id x = u_id (vault_user psk)) (users (w_db ?v)) = Some (vault_user psk)"
    unfolding vault_world_ok by (simp_all add: vault_found)
  have enc: "item_encodable l i" if "Item_Unmarshal l (to_bytes ''{}'') = Inr i" for i using that item by simp
  have t: "u_ptotp (vault_user psk) = None" "u_totp_enabled (vault_user psk) = False"
    by (simp_all add: vault_user_def sample_user_def)
  from second_device_reads_item [OF l(1) enc wrap seal vault_world_ok(1,2) sw u new push_line up
      vault_world_ok(1,2) sv keep vault_user_fields(3,1) pull_line down, of ?a ?a]
  show ?thesis using up down item(1) unfolding t by (metis Inr_inject)
qed

end
