(* ===== verification/Docs.thy ===== *)
theory Docs
  imports Vault
begin

text \<open>
  The documentation pages (\<open>serveSpec\<close> and \<open>serveSwaggerUI\<close> of \<open>router.go\<close>) as served, from
  the document embedded by the code generator to the response.
\<close>

subsection \<open>The page\<close>

definition swaggerUIVersion :: string where "swaggerUIVersion = ''5.17.14''"

text \<open>The template has no actions, so executing it writes its text; the dash of the title is UTF-8.\<close>

definition swaggerUIHTML :: string where
  \<open>swaggerUIHTML = concat (map (\<lambda>line. line @ [CHR 0x0A])
     [''<!DOCTYPE html>'',
      ''<html lang="en">'',
      ''<head>'',
      ''  <meta charset="utf-8" />'',
      ''  <meta name="viewport" content="width=device-width, initial-scale=1" />'',
      ''  <title>Secure Vault API '' @ [CHR 0xE2, CHR 0x80, CHR 0x94] @ '' Docs</title>'',
      ''  <link rel="stylesheet" href="https://cdn.jsdelivr.net/npm/swagger-ui-dist@'' @ swaggerUIVersion @ ''/swagger-ui.css" />'',
      ''</head>'',
      ''<body>'',
      ''  <div id="swagger-ui"></div>'',
      ''  <script src="https://cdn.jsdelivr.net/npm/swagger-ui-dist@'' @ swaggerUIVersion @ ''/swagger-ui-bundle.js"></script>'',
      ''  <script>'',
      ''    window.ui = SwaggerUIBundle({ url: '/openapi.json', dom_id: '#swagger-ui' });'',
      ''  </script>'',
      ''</body>'']) @ ''</html>''\<close>

subsection \<open>Serving it\<close>

lemma run_mux:
  assumes "clean_path (rq_path r)" and "first_match r rts = Some (pid, rt)"
  shows "mux rts r = rt_handler rt (r\<lparr>rq_path_id := pid\<rparr>)"
  using assms by (simp add: mux_def)

lemma docs_matched:
  assumes "rq_method r = ''GET''"
  shows "path_segments (rq_path r) = [''openapi.json''] \<Longrightarrow>
      first_match r (routes l spec page) = Some ([], route_of ''GET'' [Lit ''openapi.json''] [] (serveSpec spec))"
    and "path_segments (rq_path r) = [''docs''] \<Longrightarrow>
      first_match r (routes l spec page) = Some ([], route_of ''GET'' [Lit ''docs''] [] (serveSwaggerUI page))"
  using assms by (simp_all add: routes_def route_match_def route_of_def method_matches_def)

text \<open>
  The documentation is served as embedded.  \<open>GET /openapi.json\<close> is answered with the JSON
  value of the document that decoding and decompressing the embedded chunks gives, and with 500
  exactly when they cannot be decoded or the text is not JSON; \<open>GET /docs\<close> with the page, under
  the relaxed policy that replaces the global one.  Both without a session and without touching
  the database.
\<close>

theorem documentation_served:
  assumes w: "rand_ok w" and r: "rq_method r = ''GET''" "clean_path (rq_path r)"
    and run: "run_state (serve l (embedded_spec l flate chunks) swaggerUIHTML origin r) w = (out, w')"
  shows "(path_segments (rq_path r) = [''openapi.json''] \<longrightarrow> w_db w' = w_db w \<and>
      (case decodeSpec flate chunks of
         Inl e \<Rightarrow> rs_status (w_resp w') = 500
       | Inr text \<Rightarrow> (case json_parse l text of
           None \<Rightarrow> rs_status (w_resp w') = 500
         | Some j \<Rightarrow> rs_status (w_resp w') = 200 \<and> rs_body (w_resp w') = [BJson j]))) \<and>
    (path_segments (rq_path r) = [''docs''] \<longrightarrow> w_db w' = w_db w \<and> rs_status (w_resp w') = 200 \<and>
       rs_body (w_resp w') = [BText swaggerUIHTML] \<and>
       sent_header ''Content-Security-Policy'' (w_resp w') = Some docs_csp)"
proof -
  let ?spec = "embedded_spec l flate chunks" and ?q = "annotated w r" and ?v = "entered origin w"
  have route: "w_resp w' = w_resp v' \<and> w_db w' = w_db v'"
    if "first_match ?q (routes l ?spec swaggerUIHTML) = Some (pid, rt)"
      "run_state (rt_handler rt (?q\<lparr>rq_path_id := pid\<rparr>)) ?v = (Done, v')" for pid rt v'
    using run_serve [OF w, of r l ?spec swaggerUIHTML origin v'] run_mux [of ?q "routes l ?spec swaggerUIHTML" pid rt] r run that by auto
  let ?resp = "case ?spec of Some (Some j) \<Rightarrow> rs_json 200 j (entry_response origin w)
     | Some None \<Rightarrow> rs_json 500 (gen_Error ''invalid API spec'') (entry_response origin w)
     | None \<Rightarrow> rs_json 500 (gen_Error ''could not load API spec'') (entry_response origin w)"
  have "run_state (chain (plain (serveSpec ?spec)) [] (?q\<lparr>rq_path_id := []\<rparr>)) ?v = (Done, ?v\<lparr>w_resp := ?resp\<rparr>)"
    by (simp add: chain_def run_plain serveSpec_def writeJSON_def run_prims split: option.split)
  then have spec: "w_resp w' = ?resp" "w_db w' = w_db w" if "path_segments (rq_path r) = [''openapi.json'']"
    using route [OF docs_matched(1)] r that by (auto simp: route_of_def)
  let ?page = "rs_write (BText swaggerUIHTML) (rs_set ''Content-Security-Policy'' docs_csp
     (rs_set ''Content-Type'' ''text/html; charset=utf-8'' (entry_response origin w)))"
  have "run_state (chain (plain (serveSwaggerUI swaggerUIHTML)) [] (?q\<lparr>rq_path_id := []\<rparr>)) ?v = (Done, ?v\<lparr>w_resp := ?page\<rparr>)"
    by (simp add: chain_def run_plain serveSwaggerUI_def run_prims)
  then have docs: "w_resp w' = ?page" "w_db w' = w_db w" if "path_segments (rq_path r) = [''docs'']"
    using route [OF docs_matched(2)] r that by (auto simp: route_of_def)
  have page: "rs_status ?page = 200" "rs_body ?page = [BText swaggerUIHTML]"
      "sent_header ''Content-Security-Policy'' ?page = Some docs_csp"
    by (simp_all add: response_defs)
  have resp: "case decodeSpec flate chunks of Inl e \<Rightarrow> rs_status ?resp = 500
      | Inr text \<Rightarrow> (case json_parse l text of None \<Rightarrow> rs_status ?resp = 500
         | Some j \<Rightarrow> rs_status ?resp = 200 \<and> rs_body ?resp = [BJson j])"
    by (simp add: embedded_spec_def GetSpecJSON_def decodeSpecCached_def Let_def rs_json_fresh
        split: option.split sum.split)
  show ?thesis
  proof (intro conjI impI)
    assume p: "path_segments (rq_path r) = [''openapi.json'']"
    show "w_db w' = w_db w" by (rule spec(2) [OF p])
    show "case decodeSpec flate chunks of Inl e \<Rightarrow> rs_status (w_resp w') = 500
      | Inr text \<Rightarrow> (case json_parse l text of None \<Rightarrow> rs_status (w_resp w') = 500
         | Some j \<Rightarrow> rs_status (w_resp w') = 200 \<and> rs_body (w_resp w') = [BJson j])"
      unfolding spec(1) [OF p] by (rule resp)
  next
    assume p: "path_segments (rq_path r) = [''docs'']"
    show "w_db w' = w_db w" by (rule docs(2) [OF p])
    show "rs_status (w_resp w') = 200" "rs_body (w_resp w') = [BText swaggerUIHTML]"
      "sent_header ''Content-Security-Policy'' (w_resp w') = Some docs_csp"
      unfolding docs(1) [OF p] by (rule page)+
  qed
qed

definition docs_lib :: lib where
  "docs_lib = sample_lib\<lparr>json_parse := (\<lambda>b. if b = [65, 66] then Some JNull else None)\<rparr>"

theorem documentation_served_witness:
  "\<exists>out w'. run_state (serve docs_lib (embedded_spec docs_lib (\<lambda>z. \<lparr>fl_read = Inr z, fl_close = None\<rparr>) [''QU'', ''I='']) swaggerUIHTML []
       (sample_request ''GET'' ''/openapi.json'' JNull)) (sample_world empty_db) = (out, w') \<and>
     rs_status (w_resp w') = 200 \<and> rs_body (w_resp w') = [BJson JNull]"
proof -
  let ?flate = "\<lambda>z. \<lparr>fl_read = Inr z, fl_close = None\<rparr>"
  obtain out w' where run: "run_state (serve docs_lib (embedded_spec docs_lib ?flate [''QU'', ''I=''])
       swaggerUIHTML [] (sample_request ''GET'' ''/openapi.json'' JNull)) (sample_world empty_db) = (out, w')" by fastforce
  have p: "clean_path ''/openapi.json''" "path_segments ''/openapi.json'' = [''openapi.json'']"
    by (simp_all add: clean_path_def path_segments_def)
  have "decodeSpec ?flate [''QU'', ''I=''] = Inr [65, 66]" "json_parse docs_lib [65, 66] = Some JNull"
    by (simp_all add: decodeSpec_def base64_decode_def not_newline_def b64_val_def b64_alphabet_def docs_lib_def)
  then show ?thesis
    using documentation_served [OF _ _ _ run] run p by (simp add: sample_request_def)
qed

end
