(* ===== verification/Devices.thy ===== *)
theory Devices
  imports Vault
begin

text \<open>
  From a password on one device to the vault on another.  The two flows of the web client
  (\<open>web/src/components/RegisterForm.tsx\<close> and \<open>LoginForm.tsx\<close>, over the pass-through service of
  \<open>web/src/crypto/service.ts\<close>) as compositions of the exported functions of \<open>cmd/wasm\<close>, and
  what they and the server achieve together.  The text \<open>JSON.stringify\<close> makes of the
  key-derivation parameters is an argument.
\<close>

subsection \<open>The client's flows\<close>

text \<open>\<open>const { encKey } = ...\<close>\<close>

definition encKey_of :: "js \<Rightarrow> js" where
  "encKey_of v = (case v of
     JsObject kvs \<Rightarrow> (case map_of kvs ''encKey'' of Some s \<Rightarrow> JsString s | None \<Rightarrow> JsUndefined)
   | _ \<Rightarrow> JsUndefined)"

definition client_derive :: "lib \<Rightarrow> string \<Rightarrow> string \<Rightarrow> string \<Rightarrow> (js \<times> js) js_prog" where
  "client_derive l password email params =
     andThen (jsDeriveMasterKey l [JsString password, JsString email, JsString params]) (\<lambda>masterKey.
     andThen (jsDeriveAuthHash l [masterKey, JsString password, JsString params]) (\<lambda>authHash.
     give (masterKey, authHash)))"

definition client_register :: "lib \<Rightarrow> string \<Rightarrow> string \<Rightarrow> string \<Rightarrow> (js \<times> js \<times> js) js_prog" where
  "client_register l password email params =
     andThen (client_derive l password email params) (\<lambda>(masterKey, authHash).
     andThen (jsStretchMasterKey l [masterKey]) (\<lambda>keys.
     andThen (jsNewVaultKey []) (\<lambda>vaultKey.
     andThen (jsWrapVaultKey l [vaultKey, encKey_of keys]) (\<lambda>protectedSymmetricKey.
     give (authHash, protectedSymmetricKey, vaultKey)))))"

definition vaultKeyFromMaster :: "lib \<Rightarrow> js \<Rightarrow> string \<Rightarrow> js js_prog" where
  "vaultKeyFromMaster l masterKey protectedSymmetricKey =
     andThen (jsStretchMasterKey l [masterKey]) (\<lambda>keys.
     jsUnwrapVaultKey l [JsString protectedSymmetricKey, encKey_of keys])"

subsection \<open>Derivations depend on their arguments only\<close>

definition master_key :: "lib \<Rightarrow> string \<Rightarrow> string \<Rightarrow> string \<Rightarrow> panic + js" where
  "master_key l pw e t = (case KDFParams_Unmarshal l t of
     None \<Rightarrow> Inl (PanicText ''invalid KDF params JSON: '')
   | Some p \<Rightarrow> map_sum PanicErr (\<lambda>k. JsString (base64_encode k))
       (DeriveMasterKey l (to_bytes pw) (to_bytes (NormalizeEmail l e)) p))"

lemma fst_master_key: "fst (run_state (jsDeriveMasterKey l [JsString pw, JsString e, JsString t]) s) = master_key l pw e t"
  by (simp add: jsDeriveMasterKey_def run_andThen js_String_def master_key_def Let_def nth_append map_sum_def
      split: option.split sum.split)

definition auth_hash :: "lib \<Rightarrow> js \<Rightarrow> string \<Rightarrow> string \<Rightarrow> panic + js" where
  "auth_hash l mk pw t = (case base64_decode (js_String mk) of
     None \<Rightarrow> Inl (PanicText ''invalid base64: '')
   | Some m \<Rightarrow> (case KDFParams_Unmarshal l t of
       None \<Rightarrow> Inl (PanicText ''invalid KDF params JSON: '')
     | Some p \<Rightarrow> map_sum PanicErr (\<lambda>k. JsString (base64_encode k)) (DeriveAuthHash l m (to_bytes pw) p)))"

lemma fst_auth_hash: "fst (run_state (jsDeriveAuthHash l [mk, JsString pw, JsString t]) s) = auth_hash l mk pw t"
  by (simp add: jsDeriveAuthHash_def run_andThen auth_hash_def Let_def nth_append map_sum_def js_String_def [of "JsString _"]
      split: option.split sum.split)

definition stretched :: "lib \<Rightarrow> js \<Rightarrow> panic + js" where
  "stretched l mk = (case base64_decode (js_String mk) of
     None \<Rightarrow> Inl (PanicText ''invalid base64: '')
   | Some m \<Rightarrow> map_sum PanicErr (\<lambda>(enc, mac). JsObject [(''encKey'', base64_encode enc), (''macKey'', base64_encode mac)])
       (StretchMasterKey l m))"

lemma fst_stretched: "fst (run_state (jsStretchMasterKey l [mk]) s) = stretched l mk"
  by (auto simp: jsStretchMasterKey_def run_andThen stretched_def Let_def nth_append map_sum_def
      split: option.split sum.split)

lemma andThen_Inr:
  "run_state (andThen p f) s = (Inr y, s') \<longleftrightarrow>
   (\<exists>x s1. run_state p s = (Inr x, s1) \<and> run_state (f x) s1 = (Inr y, s'))"
  by (auto simp: run_andThen split: prod.split sum.split)

lemma fst_andThen:
  "fst (run_state p s) = Inr x \<Longrightarrow> (\<And>s1. fst (run_state (f x) s1) = r) \<Longrightarrow> fst (run_state (andThen p f) s) = r"
  by (cases "run_state p s") (simp add: run_andThen)

lemma derive_again:
  assumes "master_key l pw e t = Inr mk" and "auth_hash l mk pw t = Inr ah" and "NormalizeEmail l e' = NormalizeEmail l e"
  shows "fst (run_state (client_derive l pw e' t) s) = Inr (mk, ah)"
  unfolding client_derive_def
proof (rule fst_andThen)
  show "fst (run_state (jsDeriveMasterKey l [JsString pw, JsString e', JsString t]) s) = Inr mk"
    using assms(1,3) by (simp add: fst_master_key master_key_def cong: option.case_cong)
  show "fst (run_state (andThen (jsDeriveAuthHash l [mk, JsString pw, JsString t]) (\<lambda>ah. give (mk, ah))) s1) = Inr (mk, ah)" for s1
    by (rule fst_andThen [where x = ah]) (simp_all add: fst_auth_hash assms(2))
qed

lemma give_Inr: "run_state (give x) s = (Inr y, s') \<longleftrightarrow> x = y \<and> s = s'"
  by auto

lemma derive_steps:
  assumes "run_state (client_derive l pw e t) s = (Inr (mk, ah), s')"
  shows "master_key l pw e t = Inr mk \<and> auth_hash l mk pw t = Inr ah"
proof -
  obtain s1 where "run_state (jsDeriveMasterKey l [JsString pw, JsString e, JsString t]) s = (Inr mk, s1)"
      "run_state (jsDeriveAuthHash l [mk, JsString pw, JsString t]) s1 = (Inr ah, s')"
    using assms unfolding client_derive_def andThen_Inr give_Inr by blast
  then show ?thesis by (metis fst_conv fst_master_key fst_auth_hash)
qed

lemma register_steps:
  assumes "run_state (client_register l pw e t) s = (Inr (ah, psk, vk), s')"
  obtains mk keys s1 s2 where "master_key l pw e t = Inr mk" "auth_hash l mk pw t = Inr ah" "stretched l mk = Inr keys"
    "run_state (jsNewVaultKey []) s1 = (Inr vk, s2)" "run_state (jsWrapVaultKey l [vk, encKey_of keys]) s2 = (Inr psk, s')"
proof -
  obtain p s0 where d: "run_state (client_derive l pw e t) s = (Inr p, s0)" and
    rest: "run_state ((\<lambda>(masterKey, authHash).
     andThen (jsStretchMasterKey l [masterKey]) (\<lambda>keys.
     andThen (jsNewVaultKey []) (\<lambda>vaultKey.
     andThen (jsWrapVaultKey l [vaultKey, encKey_of keys]) (\<lambda>protectedSymmetricKey.
     give (authHash, protectedSymmetricKey, vaultKey))))) p) s0 = (Inr (ah, psk, vk), s')"
    using assms unfolding client_register_def andThen_Inr [of "client_derive l pw e t"] by blast
  obtain mk ah' where p: "p = (mk, ah')" by fastforce
  obtain keys s1 s2 where r: "run_state (jsStretchMasterKey l [mk]) s0 = (Inr keys, s1)"
      "run_state (jsNewVaultKey []) s1 = (Inr vk, s2)" "run_state (jsWrapVaultKey l [vk, encKey_of keys]) s2 = (Inr psk, s')"
      "ah' = ah"
    using rest unfolding p prod.case andThen_Inr give_Inr by blast
  have "stretched l mk = Inr keys" using r(1) by (metis fst_conv fst_stretched)
  then show ?thesis using that r(2,3,4) derive_steps [OF d [unfolded p]] by blast
qed

lemma stretched_key: "stretched l mk = Inr keys \<Longrightarrow> \<exists>k. encKey_of keys = JsString k"
  by (auto simp: stretched_def encKey_of_def map_sum_def split: option.splits sum.splits)

lemma new_key_text: "run_state (jsNewVaultKey []) s = (Inr vk, s') \<Longrightarrow> \<exists>b. vk = JsString (base64_encode b)"
  by (auto simp: jsNewVaultKey_def run_andThen run_draw split: sum.splits)

lemma auth_hash_text: "auth_hash l mk pw t = Inr (JsString ah) \<Longrightarrow> \<exists>b. ah = base64_encode b"
  by (auto simp: auth_hash_def map_sum_def split: option.splits sum.splits)

lemma wrapped_text:
  assumes "aead_ok l" and "run_state (jsWrapVaultKey l [JsString v, JsString k]) s = (Inr psk, s')"
  shows "\<exists>b. psk = JsString (base64_encode b) \<and> b \<noteq> []"
proof -
  obtain b kb cb g where "run_state (WrapKey l kb b []) (wa_rng s) = (Inr cb, g)" "psk = JsString (base64_encode cb)"
    using assms(2) by (auto simp: jsWrapVaultKey_def run_andThen run_draw js_String_def nth_append map_sum_def
        split: sum.splits prod.splits option.splits) (metis prod.collapse)
  moreover from this(1) have "cb \<noteq> []" using seal_not_empty [OF assms(1)] by (auto simp: WrapKey_def)
  ultimately show ?thesis by blast
qed

lemma run_GetLoginKdfParams:
  assumes "calm w" and "NormalizeEmail l e \<noteq> []"
    and "find (\<lambda>u. u_email u = NormalizeEmail l e) (users (w_db w)) = Some u" and "gen_KDFParams_Unmarshal l (u_kdf u) = Some k"
  shows "run_state (GetLoginKdfParams l p e) w =
    ((), (passed w)\<lparr>w_resp := rs_json 200 (JObj [(''kdf_params'', gen_KDFParams_json k)]) (w_resp w)\<rparr>)"
  using assms by (simp add: GetLoginKdfParams_def run_simps user_kdf_def writeJSON_def)

text \<open>
  C5: a new device opens the vault.  A browser signs up with a password: it derives the auth
  hash, wraps a fresh vault key and registers.  Later another browser, with nothing but the
  password and any spelling of the e-mail address, asks for the key-derivation parameters and
  gets the registered ones, derives the same auth hash, is logged in with it, receives the
  wrapped key and unwraps the same vault key - which neither request ever contained.
\<close>

theorem new_device_opens_vault:
  assumes l: "aead_ok l"
    and sign_up: "run_state (client_register l pw e (text k)) a0 = (Inr (JsString ah, JsString psk, vk), a1)" "ah \<noteq> []"
    and w: "calm w" "rand_ok w" "rs_sent (w_resp w) = None"
    and r: "decodeJSON l (RegisterRequest_fields l) zero_RegisterRequest r =
        Some \<lparr>rr_auth_hash = ah, rr_email = e, rr_kdf = k, rr_psk = psk\<rparr>"
      "NormalizeEmail l e \<noteq> []" "gen_KDFParams_ok k"
      "fst (RateLimiter_Allow (w_clock w 0) (clientIP r) (m_registerIP (w_auth w)))"
      "\<forall>u \<in> set (users (w_db w)). u_id u \<noteq> ev_uuid (w_events w 0) \<and> u_email u \<noteq> NormalizeEmail l e"
    and reg: "run_state (PostRegister l r) w = ((), w1)"
    and e': "NormalizeEmail l e' = NormalizeEmail l e"
    and u: "calm u" "w_resp u = fresh_response" "users (w_db u) = users (w_db w1)"
    and ask: "run_state (GetLoginKdfParams l p e') u = ((), u')"
    and v: "calm v" "rand_ok v" "w_resp v = fresh_response" "users (w_db v) = users (w_db w1)"
      "session_fresh (passed v) l" "login_open v (clientIP q) (NormalizeEmail l e')"
    and q: "decodeJSON l (LoginRequest_fields l) zero_LoginRequest q = Some \<lparr>lr_auth_hash = ah, lr_email = e'\<rparr>"
    and login: "run_state (PostLogin l q) v = ((), v')"
  shows "rs_status (w_resp w1) = 201 \<and>
    rs_body (w_resp u') = [BJson (JObj [(''kdf_params'', gen_KDFParams_json k)])] \<and>
    (\<exists>mk. fst (run_state (client_derive l pw e' (text k)) b0) = Inr (mk, JsString ah) \<and>
       rs_status (w_resp v') = 200 \<and> rs_body (w_resp v') = [BJson (LoginResponse k None None psk None)] \<and>
       fst (run_state (vaultKeyFromMaster l mk psk) b1) = Inr vk)"
proof -
  obtain mk keys s1 s2 where up: "master_key l pw e (text k) = Inr mk" "auth_hash l mk pw (text k) = Inr (JsString ah)"
      "stretched l mk = Inr keys" "run_state (jsNewVaultKey []) s1 = (Inr vk, s2)"
      "run_state (jsWrapVaultKey l [vk, encKey_of keys]) s2 = (Inr (JsString psk), a1)"
    by (rule register_steps [OF sign_up(1)])
  obtain h where h: "ah = base64_encode h" using auth_hash_text [OF up(2)] by blast
  then have ah: "decode_auth_hash ah = Some h" "h \<noteq> []"
    using sign_up(2) by (auto simp: decode_auth_hash_def base64_roundtrip)
  obtain b ek where key: "vk = JsString (base64_encode b)" "encKey_of keys = JsString ek"
    using new_key_text [OF up(4)] stretched_key [OF up(3)] by blast
  note wrap = up(5) [unfolded key]
  have psk: "validateCiphertext psk = None"
    using wrapped_text [OF l wrap] by (auto simp: validateCiphertext_def base64_roundtrip)
  have unwrap: "fst (run_state (jsUnwrapVaultKey l [JsString psk, JsString ek]) s) = Inr vk" for s
    using unwrap_wrapped_key [OF l wrap, of s] by (simp add: key(1) base64_roundtrip)
  have vault: "fst (run_state (vaultKeyFromMaster l mk psk) b1) = Inr vk"
    unfolding vaultKeyFromMaster_def by (rule fst_andThen [where x = keys]) (simp_all add: fst_stretched up(3) key(2) unwrap)
  have derive: "fst (run_state (client_derive l pw e' (text k)) b0) = Inr (mk, JsString ah)"
    by (rule derive_again [OF up(1,2) e'])
  let ?body = "\<lparr>rr_auth_hash = ah, rr_email = e, rr_kdf = k, rr_psk = psk\<rparr>"
  let ?u = "registered_row l w ?body h"
  have w1: "rs_status (w_resp w1) = 201" "users (w_db w1) = users (w_db w) @ [?u]"
    using registration_succeeds [OF w r(1), of h] ah(1) psk r(2,4,5) reg by auto
  have find: "find (\<lambda>x. u_email x = NormalizeEmail l e') (users (w_db w1)) = Some ?u"
    using find_registered [of "w_db w" l ?body w h] r(5) e' w1(2) by simp
  have only: "x = ?u" if "x \<in> set (users (w_db v))" "u_email x = NormalizeEmail l e'" for x
    using that r(5) e' by (auto simp: v(4) w1(2))
  have row: "\<not> u_totp_enabled ?u" "u_psk ?u = psk" "gen_KDFParams_Unmarshal l (u_kdf ?u) = Some k"
    using r(3) by (simp_all add: registered_row_def Let_def gen_KDFParams_roundtrip)
  have "rs_body (w_resp u') = [BJson (JObj [(''kdf_params'', gen_KDFParams_json k)])]"
    using ask run_GetLoginKdfParams [OF u(1) _ _ row(3), of e' p] find r(2) e' u(2,3)
    by (auto simp: rs_json_fresh fresh_response_def)
  moreover have "rs_status (w_resp v') = 200 \<and> rs_body (w_resp v') = [BJson (LoginResponse k None None psk None)]"
  proof -
    have "password_ok l ?u h" using registered_password [OF ah(2), of l w ?body h] ah(2) by simp
    from login_decides(1) [OF v(1-3) q _ v(5) _ _ _ row(1,3) login this] ah(1) v(6) find v(4) only row(2)
    show ?thesis by simp
  qed
  ultimately show ?thesis using w1(1) derive vault by blast
qed

subsection \<open>A concrete sign-up\<close>

text \<open>A cipher whose tag is the head of the key.\<close>

definition device_lib :: lib where
  "device_lib = sample_lib\<lparr>json_parse := \<lambda>_. Some (gen_KDFParams_json defaultGenKDFParams),
     xchacha_seal := \<lambda>k n p a. p @ take 16 k,
     xchacha_open := \<lambda>k n c a. if 16 \<le> length c \<and> drop (length c - 16) c = take 16 k
       then Some (take (length c - 16) c) else None\<rparr>"

lemma aead_ok_device: "aead_ok device_lib"
proof -
  have "16 \<le> length c \<and> drop (length c - 16) c = take 16 k \<and> take (length c - 16) c = p \<longleftrightarrow> c = p @ take 16 k"
    if "length k = 32" for c p k :: bytes
  proof
    assume "16 \<le> length c \<and> drop (length c - 16) c = take 16 k \<and> take (length c - 16) c = p"
    then show "c = p @ take 16 k" by (metis append_take_drop_id)
  qed (use that in simp)
  moreover have "chacha_NewX device_lib k = (length k = 32)" for k by (simp add: device_lib_def sample_lib_def)
  ultimately show ?thesis by (simp add: aead_ok_def device_lib_def) blast
qed

lemma KDFParams_find:
  "find_field l KDFParams_fields ''type'' = Some (dec_string (\<lambda>s p. p\<lparr>kdf_Type := s\<rparr>))"
  "find_field l KDFParams_fields ''version'' = Some (dec_int 0 4294967295 (\<lambda>n p. p\<lparr>kdf_Version := of_int n\<rparr>))"
  "find_field l KDFParams_fields ''memory_kib'' = Some (dec_int 0 4294967295 (\<lambda>n p. p\<lparr>kdf_MemoryKiB := of_int n\<rparr>))"
  "find_field l KDFParams_fields ''iterations'' = Some (dec_int 0 4294967295 (\<lambda>n p. p\<lparr>kdf_Iterations := of_int n\<rparr>))"
  "find_field l KDFParams_fields ''parallelism'' = Some (dec_int 0 255 (\<lambda>n p. p\<lparr>kdf_Parallelism := of_int n\<rparr>))"
  by (simp_all add: find_field_def fold_name_def KDFParams_fields_def ascii_upper_def ascii_def)

lemma device_params: "KDFParams_Unmarshal device_lib t = Some DefaultKDFParams"
proof -
  have "decode_struct device_lib False KDFParams_fields (gen_KDFParams_json defaultGenKDFParams) zero_KDFParams = Some DefaultKDFParams"
    by (simp add: gen_KDFParams_json_def decode_struct_def dec_int_def dec_string_def KDFParams_find zero_KDFParams_def
        defaultGenKDFParams_def DefaultKDFParams_def Argon2Version13_def)
  then show ?thesis by (simp add: KDFParams_Unmarshal_def device_lib_def)
qed

lemma device_lib_fields:
  "aead_ok device_lib" "argon2_IDKey device_lib pw salt t m p n = pad_to (unat n) (pw @ salt)"
  "hkdf_read device_lib secret info i = Some (pad_to i (secret @ info))"
  "email_Unmarshal device_lib (JStr s) = (if CHR ''@'' \<in> set s then Some s else None)"
  by (simp_all add: aead_ok_device) (simp_all add: device_lib_def sample_lib_def)

lemma device_email: "NormalizeEmail device_lib '' ann@EXAMPLE.org'' = ''ann@example.org''"
    "NormalizeEmail device_lib ''Ann@Example.org'' = ''ann@example.org''"
  by code_simp+

lemma device_keys:
  assumes "pw \<noteq> []"
  shows "\<exists>m. DeriveMasterKey device_lib (to_bytes pw) (to_bytes ''ann@example.org'') DefaultKDFParams = Inr m \<and> length m = 32"
    and "length m = 32 \<Longrightarrow> \<exists>h. DeriveAuthHash device_lib m (to_bytes pw) DefaultKDFParams = Inr h \<and> h \<noteq> []"
    and "length m = 32 \<Longrightarrow> \<exists>e a. StretchMasterKey device_lib m = Inr (e, a) \<and> length e = 32"
proof -
  have p: "KDFParams_validate DefaultKDFParams = None" by (simp add: KDFParams_validate_def DefaultKDFParams_def)
  have n: "pad_to 32 b \<noteq> []" for b using length_pad_to [of 32 b] by fastforce
  show "\<exists>m. DeriveMasterKey device_lib (to_bytes pw) (to_bytes ''ann@example.org'') DefaultKDFParams = Inr m \<and> length m = 32"
    using assms by (simp add: DeriveMasterKey_def p device_lib_fields to_bytes_def MasterKeySizeBytes_def)
  show "\<exists>h. DeriveAuthHash device_lib m (to_bytes pw) DefaultKDFParams = Inr h \<and> h \<noteq> []" if "length m = 32"
    using that assms by (simp add: DeriveAuthHash_def p device_lib_fields to_bytes_def AuthHashSizeBytes_def n)
  show "\<exists>e a. StretchMasterKey device_lib m = Inr (e, a) \<and> length e = 32" if "length m = 32"
    using that by (simp add: StretchMasterKey_def hkdfExpand_def device_lib_fields StretchedKeySizeBytes_def)
qed

lemma device_derived:
  assumes "pw \<noteq> []" and "NormalizeEmail device_lib e = ''ann@example.org''"
  obtains mk keys ah ek where "master_key device_lib pw e t = Inr mk" "stretched device_lib mk = Inr keys"
    "encKey_of keys = JsString (base64_encode ek)" "length ek = 32" "auth_hash device_lib mk pw t = Inr (JsString ah)" "ah \<noteq> []"
proof -
  obtain m where m: "DeriveMasterKey device_lib (to_bytes pw) (to_bytes ''ann@example.org'') DefaultKDFParams = Inr m"
    "length m = 32" using device_keys(1) [OF assms(1)] by blast
  obtain h where h: "DeriveAuthHash device_lib m (to_bytes pw) DefaultKDFParams = Inr h" "h \<noteq> []"
    using device_keys(2) [OF assms(1) m(2)] by blast
  obtain ek a where e: "StretchMasterKey device_lib m = Inr (ek, a)" "length ek = 32"
    using device_keys(3) [OF assms(1) m(2)] by blast
  have "base64_encode h \<noteq> []" using h(2) base64_roundtrip [of h] base64_roundtrip [of "[]"] by auto
  then show ?thesis
    using that [of "JsString (base64_encode m)" "JsObject [(''encKey'', base64_encode ek), (''macKey'', base64_encode a)]" ek]
    by (simp add: master_key_def auth_hash_def stretched_def device_params assms(2) m h e js_String_def base64_roundtrip
        encKey_of_def)
qed

lemma derivations_keep_rng:
  "wa_rng (snd (run_state (jsDeriveMasterKey l [JsString pw, JsString e, JsString t]) s)) = wa_rng s"
  "wa_rng (snd (run_state (jsDeriveAuthHash l [mk, JsString pw, JsString t]) s)) = wa_rng s"
  "wa_rng (snd (run_state (jsStretchMasterKey l [mk]) s)) = wa_rng s"
  "wa_rng (snd (run_state (jsUnwrapVaultKey l [c, k]) s)) = wa_rng s"
  by (auto simp: jsDeriveMasterKey_def jsDeriveAuthHash_def jsStretchMasterKey_def jsUnwrapVaultKey_def run_andThen Let_def
      map_sum_def split: option.split sum.split)

text \<open>One call of a flow, when its result is known and it leaves the random source alone.\<close>

lemma run_quiet:
  "fst (run_state p s) = Inr x \<Longrightarrow> wa_rng (snd (run_state p s)) = wa_rng s \<Longrightarrow>
     \<exists>s'. run_state p s = (Inr x, s') \<and> wa_rng s' = wa_rng s"
  by (cases "run_state p s") auto

lemma run_device_wrap:
  assumes "\<not> rng_fail (wa_rng s) 0" and "length ek = 32"
  shows "\<exists>psk s'. run_state (jsWrapVaultKey device_lib [JsString (base64_encode vk), JsString (base64_encode ek)]) s = (Inr (JsString psk), s')"
  using assms by (auto simp: jsWrapVaultKey_def run_andThen run_draw js_String_def nth_append base64_roundtrip
        WrapKey_def Seal_run [OF aead_ok_device] Let_def)

lemma run_device_key:
  assumes "wa_rng s = sample_rng"
  shows "\<exists>s'. run_state (jsNewVaultKey []) s = (Inr (JsString (base64_encode (map of_nat [0..<32]))), s') \<and> \<not> rng_fail (wa_rng s') 0"
  using assms by (auto simp: jsNewVaultKey_def run_andThen run_draw NewVaultKey_def randomBytes_def rand_Read_run sample_rng_def
      VaultKeySizeBytes_def)

lemma device_sign_up:
  "\<exists>ah psk vk a1. run_state (client_register device_lib ''pw'' '' ann@EXAMPLE.org'' t) \<lparr>wa_rng = sample_rng, wa_heap = []\<rparr> =
     (Inr (JsString ah, JsString psk, vk), a1) \<and> ah \<noteq> []"
proof -
  let ?l = device_lib and ?e = "'' ann@EXAMPLE.org''" and ?s = "\<lparr>wa_rng = sample_rng, wa_heap = []\<rparr>"
  obtain mk keys ah ek where r: "master_key ?l ''pw'' ?e t = Inr mk" "stretched ?l mk = Inr keys"
    "encKey_of keys = JsString (base64_encode ek)" "length ek = 32" "auth_hash ?l mk ''pw'' t = Inr (JsString ah)" "ah \<noteq> []"
    by (rule device_derived [where pw = "''pw''" and e = ?e and t = t]) (simp_all add: device_email)
  obtain s1 where 1: "run_state (jsDeriveMasterKey ?l [JsString ''pw'', JsString ?e, JsString t]) ?s = (Inr mk, s1)"
      "wa_rng s1 = sample_rng" using run_quiet [OF _ derivations_keep_rng(1)] r(1) by (fastforce simp: fst_master_key)
  obtain s2 where 2: "run_state (jsDeriveAuthHash ?l [mk, JsString ''pw'', JsString t]) s1 = (Inr (JsString ah), s2)"
      "wa_rng s2 = sample_rng" using run_quiet [OF _ derivations_keep_rng(2)] r(5) 1(2) by (fastforce simp: fst_auth_hash)
  obtain s3 where 3: "run_state (jsStretchMasterKey ?l [mk]) s2 = (Inr keys, s3)" "wa_rng s3 = sample_rng"
    using run_quiet [OF _ derivations_keep_rng(3)] r(2) 2(2) by (fastforce simp: fst_stretched)
  obtain s4 where 4: "run_state (jsNewVaultKey []) s3 = (Inr (JsString (base64_encode (map of_nat [0..<32]))), s4)"
      "\<not> rng_fail (wa_rng s4) 0" using run_device_key [OF 3(2)] by blast
  obtain psk s5 where 5: "run_state (jsWrapVaultKey ?l [JsString (base64_encode (map of_nat [0..<32])), encKey_of keys]) s4 =
      (Inr (JsString psk), s5)" using run_device_wrap [OF 4(2) r(4)] r(3) by metis
  show ?thesis
    using 1(1) 2(1) 3(1) 4(1) 5 r(6) by (simp add: client_register_def client_derive_def run_andThen)
qed

definition device_register :: "string \<Rightarrow> string \<Rightarrow> request" where
  "device_register ah psk = sample_request ''POST'' ''/api/register''
     (JObj [(''auth_hash'', JStr ah), (''email'', JStr '' ann@EXAMPLE.org''),
        (''kdf_params'', gen_KDFParams_json defaultGenKDFParams), (''protected_symmetric_key'', JStr psk)])"

definition device_login :: "string \<Rightarrow> request" where
  "device_login ah = sample_request ''POST'' ''/api/login''
     (JObj [(''auth_hash'', JStr ah), (''email'', JStr ''Ann@Example.org'')])"

lemma LoginRequest_find [simp]:
  "find_field l (LoginRequest_fields l) ''auth_hash'' = Some (dec_string (\<lambda>s q. q\<lparr>lr_auth_hash := s\<rparr>))"
  "find_field l (LoginRequest_fields l) ''email'' = Some (dec_custom (email_Unmarshal l) (\<lambda>s q. q\<lparr>lr_email := s\<rparr>))"
  by (simp_all add: find_field_def fold_name_def LoginRequest_fields_def ascii_upper_def ascii_def)

lemma device_bodies:
  "decodeJSON device_lib (RegisterRequest_fields device_lib) zero_RegisterRequest (device_register ah psk) =
     Some \<lparr>rr_auth_hash = ah, rr_email = '' ann@EXAMPLE.org'', rr_kdf = defaultGenKDFParams, rr_psk = psk\<rparr>"
  "decodeJSON device_lib (LoginRequest_fields device_lib) zero_LoginRequest (device_login ah) =
     Some \<lparr>lr_auth_hash = ah, lr_email = ''Ann@Example.org''\<rparr>"
  by (simp_all add: decodeJSON_def device_register_def device_login_def sample_request_def
      decode_struct_def [of _ _ "RegisterRequest_fields _"] decode_struct_def [of _ _ "LoginRequest_fields _"]
      zero_RegisterRequest_def zero_LoginRequest_def dec_string_def
      dec_custom_def dec_nested_def gen_KDFParams_decode default_kdf_ok device_lib_fields)

theorem new_device_opens_vault_witness:
  "\<exists>ah psk vk a1 w1 v' mk. run_state (client_register device_lib ''pw'' '' ann@EXAMPLE.org'' ''params'') \<lparr>wa_rng = sample_rng, wa_heap = []\<rparr> =
     (Inr (JsString ah, JsString psk, vk), a1) \<and>
   run_state (PostRegister device_lib (device_register ah psk)) (sample_world empty_db) = ((), w1) \<and>
   run_state (PostLogin device_lib (device_login ah)) (sample_world (empty_db\<lparr>users := users (w_db w1)\<rparr>)) = ((), v') \<and>
   rs_body (w_resp v') = [BJson (LoginResponse defaultGenKDFParams None None psk None)] \<and>
   fst (run_state (vaultKeyFromMaster device_lib mk psk) \<lparr>wa_rng = sample_rng, wa_heap = []\<rparr>) = Inr vk"
proof -
  let ?e = "'' ann@EXAMPLE.org''" and ?e' = "''Ann@Example.org''" and ?s = "\<lparr>wa_rng = sample_rng, wa_heap = []\<rparr>"
  obtain ah psk vk a1 where up: "run_state (client_register device_lib ''pw'' ?e ((\<lambda>k. ''params'') defaultGenKDFParams)) ?s =
     (Inr (JsString ah, JsString psk, vk), a1)" "ah \<noteq> []" using device_sign_up by blast
  obtain w1 where reg: "run_state (PostRegister device_lib (device_register ah psk)) (sample_world empty_db) = ((), w1)"
    using run_unit by blast
  let ?v = "sample_world (empty_db\<lparr>users := users (w_db w1)\<rparr>)"
  obtain u' where ask: "run_state (GetLoginKdfParams device_lib (device_login ah) ?e') ?v = ((), u')" using run_unit by blast
  obtain v' where login: "run_state (PostLogin device_lib (device_login ah)) ?v = ((), v')" using run_unit by blast
  have fresh: "session_fresh (passed ?v) device_lib" by (simp add: session_fresh_def empty_db_def)
  have mail: "NormalizeEmail device_lib ?e \<noteq> []" "NormalizeEmail device_lib ?e' = NormalizeEmail device_lib ?e"
    by (simp_all add: device_email)
  have gate: "fst (RateLimiter_Allow (w_clock (sample_world empty_db) 0) (clientIP (device_register ah psk))
      (m_registerIP (w_auth (sample_world empty_db))))"
    by (simp add: NewManager_def manager_consts fresh_limiter)
  have new: "\<forall>u \<in> set (users (w_db (sample_world empty_db))).
      u_id u \<noteq> ev_uuid (w_events (sample_world empty_db) 0) \<and> u_email u \<noteq> NormalizeEmail device_lib ?e"
    by (simp add: empty_db_def)
  from new_device_opens_vault [OF device_lib_fields(1) up calm_sample rand_ok_sample _ device_bodies(1) mail(1) default_kdf_ok
      gate new reg mail(2) calm_sample _ _ ask calm_sample rand_ok_sample _ _ fresh login_open_sample device_bodies(2) login,
      of ?s ?s]
  show ?thesis using up reg login by (auto simp: fresh_response_def)
qed

end
