(* ===== verification/PasswordChange.thy ===== *)
theory PasswordChange
  imports Devices KeyRotation Guessing
begin

text \<open>
  Changing the master password from the browser to the next login
  (\<open>web/src/components/ChangePasswordModal.tsx\<close>), and logging in with a second factor
  (\<open>LoginForm.tsx\<close>): the client's flows over the exported functions of \<open>cmd/wasm\<close>, and what they
  achieve together with the server - also where they fall short.
\<close>

subsection \<open>The client's flows\<close>

text \<open>
  The derivations of \<open>handleSubmit\<close>: open the vault key with the current password, keep it or
  draw a new one, and wrap it for the new password.
\<close>

definition client_change_keys ::
  "lib \<Rightarrow> string \<Rightarrow> string \<Rightarrow> string \<Rightarrow> string \<Rightarrow> string \<Rightarrow> string \<Rightarrow> bool \<Rightarrow> (js \<times> js \<times> js \<times> js) js_prog" where
  "client_change_keys l currentPassword newPassword email oldParams newParams psk rotateVaultKey =
     andThen (jsDeriveMasterKey l [JsString currentPassword, JsString email, JsString oldParams]) (\<lambda>masterKey.
     andThen (jsStretchMasterKey l [masterKey]) (\<lambda>keys.
     andThen (jsUnwrapVaultKey l [JsString psk, encKey_of keys]) (\<lambda>currentVaultKey.
     andThen (if rotateVaultKey then jsNewVaultKey [] else give currentVaultKey) (\<lambda>newVaultKey.
     andThen (jsDeriveMasterKey l [JsString newPassword, JsString email, JsString newParams]) (\<lambda>newMasterKey.
     andThen (jsStretchMasterKey l [newMasterKey]) (\<lambda>newKeys.
     andThen (jsDeriveAuthHash l [newMasterKey, JsString newPassword, JsString newParams]) (\<lambda>newAuthHash.
     andThen (jsWrapVaultKey l [newVaultKey, encKey_of newKeys]) (\<lambda>newProtected.
     give (newAuthHash, newProtected, currentVaultKey, newVaultKey)))))))))"

text \<open>One round of its loop over the items.\<close>

definition client_reseal :: "lib \<Rightarrow> js \<Rightarrow> js \<Rightarrow> js \<Rightarrow> js js_prog" where
  "client_reseal l ciphertext currentVaultKey newVaultKey =
     andThen (jsOpenItem l [ciphertext, currentVaultKey]) (\<lambda>plain. jsSealItem l [plain, newVaultKey])"

text \<open>\<open>LoginForm.finishLogin\<close>: the parameters of the answer must be the ones derived with.\<close>

definition finishLogin :: "lib \<Rightarrow> string \<Rightarrow> string \<Rightarrow> js \<Rightarrow> string \<Rightarrow> js js_prog" where
  "finishLogin l protectedSymmetricKey kdfParams masterKey cryptoParams =
     (if kdfParams \<noteq> cryptoParams
      then throw (PanicText ''KDF parameters changed during login. Please try again.'')
      else vaultKeyFromMaster l masterKey protectedSymmetricKey)"

text \<open>\<open>LoginForm.handleMfaSubmit\<close> up to the request: the secret it sends with an authenticator code.\<close>

definition mfa_secret :: "lib \<Rightarrow> js \<Rightarrow> string \<Rightarrow> string \<Rightarrow> js js_prog" where
  "mfa_secret l masterKey protectedSymmetricKey protectedTotpSecret =
     andThen (vaultKeyFromMaster l masterKey protectedSymmetricKey) (\<lambda>vaultKey.
     jsUnwrapTOTPSecret l [JsString protectedTotpSecret, vaultKey])"

subsection \<open>Unwrapping depends on its arguments only\<close>

definition unwrapped :: "lib \<Rightarrow> js \<Rightarrow> js \<Rightarrow> panic + js" where
  "unwrapped l c k = (case base64_decode (js_String c) of
     None \<Rightarrow> Inl (PanicText ''invalid base64: '')
   | Some cb \<Rightarrow> (case base64_decode (js_String k) of
       None \<Rightarrow> Inl (PanicText ''invalid base64: '')
     | Some kb \<Rightarrow> map_sum PanicErr (\<lambda>v. JsString (base64_encode v)) (UnwrapKey l kb cb [])))"

lemma fst_unwrapped: "fst (run_state (jsUnwrapVaultKey l [c, k]) s) = unwrapped l c k"
  by (simp add: jsUnwrapVaultKey_def run_andThen unwrapped_def Let_def nth_append map_sum_def
      split: option.split sum.split)

definition opened_totp :: "lib \<Rightarrow> js \<Rightarrow> js \<Rightarrow> panic + js" where
  "opened_totp l c k = (case base64_decode (js_String c) of
     None \<Rightarrow> Inl (PanicText ''invalid base64: '')
   | Some cb \<Rightarrow> (case base64_decode (js_String k) of
       None \<Rightarrow> Inl (PanicText ''invalid base64: '')
     | Some kb \<Rightarrow> map_sum PanicErr JsString (UnwrapTOTPSecret l kb cb)))"

lemma fst_opened_totp: "fst (run_state (jsUnwrapTOTPSecret l [c, k]) s) = opened_totp l c k"
  by (simp add: jsUnwrapTOTPSecret_def run_andThen opened_totp_def Let_def nth_append map_sum_def
      split: option.split sum.split)

lemma unwrapped_text: "unwrapped l c k = Inr v \<Longrightarrow> \<exists>b. v = JsString (base64_encode b)"
  by (auto simp: unwrapped_def map_sum_def split: option.splits sum.splits)

lemma fst_vaultKey:
  assumes "stretched l mk = Inr keys"
  shows "fst (run_state (vaultKeyFromMaster l mk psk) s) = unwrapped l (JsString psk) (encKey_of keys)"
  unfolding vaultKeyFromMaster_def by (rule fst_andThen [where x = keys]) (simp_all add: fst_stretched assms fst_unwrapped)

lemma vaultKey_steps:
  assumes "fst (run_state (vaultKeyFromMaster l mk psk) s) = Inr vk"
  obtains keys where "stretched l mk = Inr keys" "unwrapped l (JsString psk) (encKey_of keys) = Inr vk"
proof -
  obtain s' where "run_state (vaultKeyFromMaster l mk psk) s = (Inr vk, s')" using assms by (metis prod.collapse)
  then obtain keys s1 where "run_state (jsStretchMasterKey l [mk]) s = (Inr keys, s1)"
      "run_state (jsUnwrapVaultKey l [JsString psk, encKey_of keys]) s1 = (Inr vk, s')"
    unfolding vaultKeyFromMaster_def andThen_Inr by blast
  then show ?thesis using that by (metis fst_conv fst_stretched fst_unwrapped)
qed

lemma change_steps:
  assumes "run_state (client_change_keys l cur new e oldp newp psk rot) s = (Inr (ah, psk', vk, vk'), s')"
  obtains mk keys mk' keys' s1 s2 s3 where "master_key l cur e oldp = Inr mk" "stretched l mk = Inr keys"
    "unwrapped l (JsString psk) (encKey_of keys) = Inr vk"
    "run_state (if rot then jsNewVaultKey [] else give vk) s1 = (Inr vk', s2)"
    "master_key l new e newp = Inr mk'" "stretched l mk' = Inr keys'" "auth_hash l mk' new newp = Inr ah"
    "run_state (jsWrapVaultKey l [vk', encKey_of keys']) s3 = (Inr psk', s')"
proof -
  obtain mk keys mk' keys' t1 t2 t3 t4 t5 t6 t7 where
    "run_state (jsDeriveMasterKey l [JsString cur, JsString e, JsString oldp]) s = (Inr mk, t1)"
    "run_state (jsStretchMasterKey l [mk]) t1 = (Inr keys, t2)"
    "run_state (jsUnwrapVaultKey l [JsString psk, encKey_of keys]) t2 = (Inr vk, t3)"
    "run_state (if rot then jsNewVaultKey [] else give vk) t3 = (Inr vk', t4)"
    "run_state (jsDeriveMasterKey l [JsString new, JsString e, JsString newp]) t4 = (Inr mk', t5)"
    "run_state (jsStretchMasterKey l [mk']) t5 = (Inr keys', t6)"
    "run_state (jsDeriveAuthHash l [mk', JsString new, JsString newp]) t6 = (Inr ah, t7)"
    "run_state (jsWrapVaultKey l [vk', encKey_of keys']) t7 = (Inr psk', s')"
    using assms unfolding client_change_keys_def andThen_Inr give_Inr by blast
  then show ?thesis
    using that by (metis fst_conv fst_master_key fst_stretched fst_unwrapped fst_auth_hash)
qed

text \<open>A key wrapped for a password opens with it.\<close>

lemma wrapped_opens:
  assumes "aead_ok l" and "stretched l mk = Inr keys" and "run_state (jsNewVaultKey []) s0 = (Inr (JsString v), s1) \<or>
      unwrapped l c kk = Inr (JsString v)"
    and "run_state (jsWrapVaultKey l [JsString v, encKey_of keys]) s = (Inr (JsString psk), s')"
  shows "fst (run_state (vaultKeyFromMaster l mk psk) t) = Inr (JsString v)" and "validateCiphertext psk = None"
proof -
  obtain ek where ek: "encKey_of keys = JsString ek" using stretched_key [OF assms(2)] by blast
  obtain b where b: "v = base64_encode b" using assms(3) new_key_text unwrapped_text by blast
  note wrap = assms(4) [unfolded ek]
  from unwrap_wrapped_key [OF assms(1) wrap]
  have "unwrapped l (JsString psk) (JsString ek) = Inr (JsString v)"
    by (auto simp: b base64_roundtrip fst_unwrapped)
  then show "fst (run_state (vaultKeyFromMaster l mk psk) t) = Inr (JsString v)"
    by (simp add: fst_vaultKey [OF assms(2)] ek)
  show "validateCiphertext psk = None"
    using wrapped_text [OF assms(1) wrap] by (auto simp: validateCiphertext_def base64_roundtrip)
qed

lemma reseal_opens:
  assumes l: "aead_ok l" and i: "item_encodable l i"
    and plain: "fst (run_state (jsOpenItem l [JsString c, k]) s) = Inr (JsString (of_bytes (Item_Marshal l i)))"
    and again: "fst (run_state (client_reseal l (JsString c) k (JsString k')) s) = Inr (JsString c')"
  shows "fst (run_state (jsOpenItem l [JsString c', JsString k']) t) = Inr (JsString (of_bytes (Item_Marshal l i)))"
proof -
  obtain s1 where 1: "run_state (jsOpenItem l [JsString c, k]) s = (Inr (JsString (of_bytes (Item_Marshal l i))), s1)"
    using plain by (metis prod.collapse)
  with again obtain s2 where 2: "run_state (jsSealItem l [JsString (of_bytes (Item_Marshal l i)), JsString k']) s1 = (Inr (JsString c'), s2)"
    unfolding client_reseal_def run_andThen by (auto simp: 1) (metis prod.collapse)
  have "Item_Unmarshal l (Item_Marshal l i) = Inr i" using i by (rule Item_unmarshal_marshal)
  then show ?thesis using open_sealed_item [OF l 2] i by fastforce
qed

text \<open>A blob under a key other than the one it was sealed with: what opening it comes down to.\<close>

lemma open_other_key:
  assumes l: "aead_ok l" and sealed: "run_state (Seal l kb p aad) g = (Inr cb, g')" and kb': "length kb' = 32"
  obtains nonce where "cb = nonce @ xchacha_seal l kb nonce p aad" "length nonce = 24"
    "Open l kb' cb aad = (case xchacha_open l kb' nonce (xchacha_seal l kb nonce p aad) aad of
       None \<Rightarrow> Inl ErrOpen | Some q \<Rightarrow> Inr q)"
proof -
  have "Open l kb cb aad = Inr p" by (rule Open_Seal [OF l sealed])
  then have blob: "24 \<le> length cb" "drop 24 cb = xchacha_seal l kb (take 24 cb) p aad" by (simp_all add: Open_Inr_iff [OF l])
  then have "cb = take 24 cb @ xchacha_seal l kb (take 24 cb) p aad" by (metis append_take_drop_id)
  moreover have "newAEAD l kb' = Inr ()" using aead_okD(1) [OF l kb', of "take 24 cb"] blob(1) kb' by (simp add: newAEAD_def)
  ultimately show ?thesis
    using that [of "take 24 cb"] blob by (simp add: Open_def NonceSizeBytes_def not_less)
qed

lemma totp_under_other_key:
  assumes l: "aead_ok l" and wrap: "run_state (jsWrapTOTPSecret l [JsString s, JsString v]) w = (Inr (JsString c), w1)"
    and v': "v' = base64_encode kb'" "length kb' = 32"
  obtains kb nonce where "base64_decode v = Some kb" "length nonce = 24"
    "c = base64_encode (nonce @ xchacha_seal l kb nonce (to_bytes s) totp_aad)"
    "\<And>t. fst (run_state (jsUnwrapTOTPSecret l [JsString c, JsString v']) t) =
      (case xchacha_open l kb' nonce (xchacha_seal l kb nonce (to_bytes s) totp_aad) totp_aad of
         None \<Rightarrow> Inl (PanicErr ErrOpen) | Some q \<Rightarrow> Inr (JsString (of_bytes q)))"
proof -
  obtain kb cb g where *: "base64_decode v = Some kb"
      "run_state (Seal l kb (to_bytes s) totp_aad) (wa_rng w) = (Inr cb, g)" "c = base64_encode cb"
    using wrap by (auto simp: jsWrapTOTPSecret_def WrapTOTPSecret_def run_andThen run_draw js_String_def nth_append map_sum_def
        split: sum.splits prod.splits option.splits) (metis prod.collapse)
  obtain nonce where n: "cb = nonce @ xchacha_seal l kb nonce (to_bytes s) totp_aad" "length nonce = 24"
    "Open l kb' cb totp_aad = (case xchacha_open l kb' nonce (xchacha_seal l kb nonce (to_bytes s) totp_aad) totp_aad of
       None \<Rightarrow> Inl ErrOpen | Some q \<Rightarrow> Inr q)"
    by (rule open_other_key [OF l *(2) v'(2)])
  show ?thesis
    by (rule that [OF *(1) n(2)])
       (simp_all add: fst_opened_totp opened_totp_def js_String_def *(3) v' base64_roundtrip UnwrapTOTPSecret_def
         n(3) n(1) [symmetric] split: option.split)
qed

text \<open>The blob of a ciphertext does not authenticate under a key.\<close>

definition refused_under :: "lib \<Rightarrow> js \<Rightarrow> string \<Rightarrow> bool" where
  "refused_under l v c = (case (base64_decode (js_String v), base64_decode c) of
     (Some kb, Some cb) \<Rightarrow> xchacha_open l kb (take 24 cb) (drop 24 cb) [] = None | _ \<Rightarrow> False)"

lemma item_refused:
  assumes "refused_under l (JsString v) c"
  shows "\<exists>e. fst (run_state (jsOpenItem l [JsString c, JsString v]) t) = Inl (PanicErr e)"
proof -
  obtain kb cb where d: "base64_decode v = Some kb" "base64_decode c = Some cb"
      "xchacha_open l kb (take 24 cb) (drop 24 cb) [] = None"
    using assms by (auto simp: refused_under_def js_String_def split: option.splits)
  then have "\<exists>e. Open l kb cb [] = Inl e" by (simp add: Open_def NonceSizeBytes_def split: sum.split)
  then show ?thesis
    using d by (auto simp: jsOpenItem_def run_andThen js_String_def nth_append DecryptItem_def Let_def)
qed

lemma new_key_32: "run_state (jsNewVaultKey []) s = (Inr (JsString v), s') \<Longrightarrow> \<exists>b. v = base64_encode b \<and> length b = 32"
  by (auto simp: jsNewVaultKey_def run_andThen run_draw NewVaultKey_def randomBytes_def rand_Read_run VaultKeySizeBytes_def map_sum_def Let_def
      split: sum.splits if_splits)

lemma rotated_ptotp [simp]: "u_ptotp (rotated_row l w body h u) = u_ptotp u"
  by (simp add: rotated_row_def Let_def)

subsection \<open>Properties\<close>

text \<open>
  C20: a login with a second factor opens the vault.  The password step answers with a
  challenge and no session.  From the password alone the browser opens the vault key and with it
  the enrolled secret; the code of the authenticator, sent with that secret and the
  challenge within five minutes, is answered 200 with both cookies and one new session, and the
  vault key opens.
\<close>

theorem mfa_login_opens_vault:
  assumes l: "aead_ok l"
    and enrol: "run_state (jsWrapTOTPSecret l [JsString secret, JsString vk]) a0 = (Inr (JsString ptotp), a1)"
    and vault: "fst (run_state (vaultKeyFromMaster l mk (u_psk u)) a2) = Inr (JsString vk)"
    and w: "calm w" "rand_ok w" "w_resp w = fresh_response" "challenge_fresh w l"
    and body: "decodeJSON l (LoginRequest_fields l) zero_LoginRequest q = Some body"
      "decode_auth_hash (lr_auth_hash body) = Some h"
    and u: "find (\<lambda>u. u_email u = NormalizeEmail l (lr_email body)) (users (w_db w)) = Some u" "password_ok l u h"
      "u_totp_enabled u" "u_ptotp u = Some ptotp" "gen_KDFParams_Unmarshal l (u_kdf u) = Some k"
    and gate: "login_open w (clientIP q) (NormalizeEmail l (lr_email body))"
    and step1: "run_state (PostLogin l q) w = ((), w1)"
    and sent: "fst (run_state (mfa_secret l mk (u_psk u) ptotp) a3) = Inr (JsString sent)"
    and x: "calm x" "rand_ok x" "w_resp x = fresh_response" "challenges (w_db x) = challenges (w_db w1)"
      "find (\<lambda>v. u_id v = u_id u) (users (w_db x)) = Some u" "session_fresh (passed (passed x)) l"
      "ev_now (w_events x 0) < w_clock w 3 + 5 * Minute"
    and code: "totp_checkable l (TrimSpace l (ToUpper l secret)) (TrimSpace l code)"
      "totp_Validate l (w_clock x 0) (TrimSpace l code) (TrimSpace l (ToUpper l secret))"
    and answer: "decodeJSON l LoginMfaRequest_fields zero_LoginMfaRequest r =
      Some \<lparr>lm_token = token_at w 0, lm_recovery = None, lm_code = Some code, lm_secret = Some sent\<rparr>"
    and step2: "run_state (PostLoginMfa l r) x = ((), x1)"
  shows "rs_status (w_resp w1) = 200 \<and> rs_cookies (w_resp w1) = [] \<and> sessions (w_db w1) = sessions (w_db w) \<and>
    rs_body (w_resp w1) = [BJson (LoginResponse k (Some True) (Some (token_at w 0)) (u_psk u) (Some ptotp))] \<and>
    sent = secret \<and> rs_status (w_resp x1) = 200 \<and>
    map ck_value (sent_cookies (w_resp x1)) = [token_at x 0, token_at x 32] \<and>
    (\<exists>s. sessions (w_db x1) = sessions (w_db x) @ [s] \<and> s_user s = u_id u) \<and>
    fst (run_state (finishLogin l (u_psk u) (text k) mk (text k)) a4) = Inr (JsString vk)"
proof -
  obtain keys where keys: "stretched l mk = Inr keys" "unwrapped l (JsString (u_psk u)) (encKey_of keys) = Inr (JsString vk)"
    by (rule vaultKey_steps [OF vault])
  have open_vault: "fst (run_state (vaultKeyFromMaster l mk (u_psk u)) s) = Inr (JsString vk)" for s
    using fst_vaultKey [OF keys(1)] keys(2) by simp
  have "fst (run_state (mfa_secret l mk (u_psk u) ptotp) a3) = Inr (JsString secret)"
    unfolding mfa_secret_def
    by (rule fst_andThen [OF open_vault]) (rule unwrap_wrapped_totp [OF l enrol])
  then have s: "sent = secret" using sent by simp
  have one: "rs_status (w_resp w1) = 200" "rs_cookies (w_resp w1) = []" "sessions (w_db w1) = sessions (w_db w)"
      "rs_body (w_resp w1) = [BJson (LoginResponse k (Some True) (Some (token_at w 0)) (u_psk u) (Some ptotp))]"
      "challenges (w_db w1) = challenges (w_db w) @ [challenge_row w l (w_clock w 3) (u_id u)]"
    using login_challenges [OF w body u(1-3,5) gate step1] u(4) by (simp_all add: derefString_def)
  have live: "find (live_challenge l (token_at w 0) (ev_now (w_events x 0))) (challenges (w_db x)) =
      Some (challenge_row w l (w_clock w 3) (u_id u))"
    unfolding x(4) one(5) by (rule find_challenge [OF w(4)]) (use x(7) in \<open>simp add: mfaChallengeTTL_def\<close>)
  have uid: "ch_user (challenge_row w l (w_clock w 3) (u_id u)) = u_id u" by (simp add: challenge_row_def)
  obtain s1 where two: "rs_status (w_resp x1) = 200" "map ck_value (sent_cookies (w_resp x1)) = [token_at x 0, token_at x 32]"
      "sessions (w_db x1) = sessions (w_db x) @ [s1]" "s_user s1 = u_id u"
    using mfa_accepts [OF x(1-3) answer _ _ _ _ _ code [folded s] _ u(5) x(6) step2] live x(5) uid s token_not_empty
    by (metis LoginMfaRequest.select_convs)
  show ?thesis
    using one two s open_vault by (auto simp: finishLogin_def)
qed

text \<open>
  C8: a new master password opens the same vault.  The browser opens the vault key with the
  current password, wraps it (or a new one) for the new password and rotates the credentials;
  the request is answered 200.  From then on any browser with the new password derives the
  accepted hash.  An account without a second factor is logged in with both cookies and one new
  session; one with a second factor gets its challenge and no session yet.  Either answer carries
  the wrapped key, and with the new password it opens to that vault key: the old one unless it
  was rotated.  An item the browser resealed opens under it as the same item.
\<close>

theorem password_change_keeps_vault:
  assumes l: "aead_ok l"
    and before: "fst (run_state (client_derive l cur e oldp) a0) = Inr (mk0, ah0)"
      "fst (run_state (vaultKeyFromMaster l mk0 psk0) a1) = Inr vk0"
    and change: "run_state (client_change_keys l cur new e oldp (text k) psk0 rotate_key) a2 =
        (Inr (JsString ah, JsString psk, vk, JsString vk'), a3)" "ah \<noteq> []"
    and w: "calm w" "rand_ok w" "rs_sent (w_resp w) = None" "db_inv (w_db w)" and ctx: "cx_user_id r = Some uid"
    and u: "u \<in> set (users (w_db w))" "u_id u = uid" "u_email u = NormalizeEmail l e"
    and body: "decodeJSON l (UpdateKeyRequest_fields l) zero_UpdateKeyRequest r =
        Some \<lparr>uk_auth_hash = ah, uk_kdf = k, uk_psk = psk\<rparr>" "gen_KDFParams_ok k"
    and rot: "run_state (PutUserKey l r) w = ((), w1)"
    and e': "NormalizeEmail l e' = NormalizeEmail l e"
    and v: "calm v" "rand_ok v" "w_resp v = fresh_response" "users (w_db v) = users (w_db w1)"
      "if u_totp_enabled u then challenge_fresh v l else session_fresh (passed v) l"
      "login_open v (clientIP q) (NormalizeEmail l e')"
    and q: "decodeJSON l (LoginRequest_fields l) zero_LoginRequest q = Some \<lparr>lr_auth_hash = ah, lr_email = e'\<rparr>"
    and login: "run_state (PostLogin l q) v = ((), v')"
  shows "rs_status (w_resp w1) = 200 \<and> items (w_db w1) = items (w_db w) \<and> vk = vk0 \<and>
    (\<not> rotate_key \<longrightarrow> JsString vk' = vk0) \<and>
    (\<exists>mk. fst (run_state (client_derive l new e' (text k)) b0) = Inr (mk, JsString ah) \<and>
       rs_status (w_resp v') = 200 \<and>
       (if u_totp_enabled u
        then rs_body (w_resp v') = [BJson (LoginResponse k (Some True) (Some (token_at v 0)) psk (Some (derefString (u_ptotp u))))] \<and>
          rs_cookies (w_resp v') = [] \<and> sessions (w_db v') = sessions (w_db v)
        else rs_body (w_resp v') = [BJson (LoginResponse k None None psk None)] \<and>
          map ck_value (sent_cookies (w_resp v')) = [token_at v 0, token_at v 32] \<and>
          (\<exists>s. sessions (w_db v') = sessions (w_db v) @ [s] \<and> s_user s = uid)) \<and>
       fst (run_state (finishLogin l psk (text k) mk (text k)) b1) = Inr (JsString vk')) \<and>
    (\<forall>c i c' b2 b3. fst (run_state (jsOpenItem l [JsString c, vk0]) b2) = Inr (JsString (of_bytes (Item_Marshal l i))) \<longrightarrow>
       item_encodable l i \<longrightarrow> fst (run_state (client_reseal l (JsString c) vk0 (JsString vk')) b2) = Inr (JsString c') \<longrightarrow>
       fst (run_state (jsOpenItem l [JsString c', JsString vk']) b3) = Inr (JsString (of_bytes (Item_Marshal l i))))"
proof -
  obtain mk keys mk' keys' s1 s2 s3 where up: "master_key l cur e oldp = Inr mk" "stretched l mk = Inr keys"
    "unwrapped l (JsString psk0) (encKey_of keys) = Inr vk"
    "run_state (if rotate_key then jsNewVaultKey [] else give vk) s1 = (Inr (JsString vk'), s2)"
    "master_key l new e (text k) = Inr mk'" "stretched l mk' = Inr keys'" "auth_hash l mk' new (text k) = Inr (JsString ah)"
    "run_state (jsWrapVaultKey l [JsString vk', encKey_of keys']) s3 = (Inr (JsString psk), a3)"
    by (rule change_steps [OF change(1)])
  have "mk0 = mk" using before(1) up(1) by (metis derive_steps prod.collapse sum.inject(2))
  then have old: "vk = vk0" using before(2) up(3) by (simp add: fst_vaultKey [OF up(2)])
  have same: "\<not> rotate_key \<Longrightarrow> JsString vk' = vk" using up(4) by (simp add: give_Inr)
  have "run_state (jsNewVaultKey []) s1 = (Inr (JsString vk'), s2) \<or> unwrapped l (JsString psk0) (encKey_of keys) = Inr (JsString vk')"
    using up(3,4) by (cases rotate_key) (simp_all add: give_Inr)
  note opens = wrapped_opens [OF l up(6) this up(8)]
  obtain h where "ah = base64_encode h" using auth_hash_text [OF up(7)] by blast
  then have h: "decode_auth_hash ah = Some h" "h \<noteq> []"
    using change(2) by (auto simp: decode_auth_hash_def base64_roundtrip)
  let ?body = "\<lparr>uk_auth_hash = ah, uk_kdf = k, uk_psk = psk\<rparr>"
  let ?u = "rotated_row l w ?body h u"
  have r: "rs_status (w_resp w1) = 200" "users (w_db w1) = rotate l w ?body h uid (users (w_db w))"
      "items (w_db w1) = items (w_db w)"
    using rotation_succeeds [OF w(1-3) ctx u(1,2) body(1)] h(1) opens(2) rot by auto
  have keys: "distinct (map u_email (users (w_db w)))" "distinct (map u_id (users (w_db w)))"
    using w(4) by (simp_all add: db_inv_def keys_ok_def)
  have find: "find (\<lambda>x. u_email x = NormalizeEmail l e') (users (w_db v)) = Some ?u"
    and only: "\<And>x. x \<in> set (users (w_db v)) \<Longrightarrow> u_email x = NormalizeEmail l e' \<Longrightarrow> x = ?u"
    using find_rotated [OF keys u(1), where l = l and w = w and body = ?body and h = h] v(4) r(2) e' u(2,3) by simp_all
  have row: "gen_KDFParams_Unmarshal l (u_kdf ?u) = Some k" "u_totp_enabled ?u = u_totp_enabled u" "password_ok l ?u h"
    "u_id ?u = uid" "u_psk ?u = psk"
    using body(2) u(2) rotated_password [OF h(2), of l w ?body u h] h(2) by (simp_all add: gen_KDFParams_roundtrip)
  have "rs_status (w_resp v') = 200 \<and>
       (if u_totp_enabled u
        then rs_body (w_resp v') = [BJson (LoginResponse k (Some True) (Some (token_at v 0)) psk (Some (derefString (u_ptotp u))))] \<and>
          rs_cookies (w_resp v') = [] \<and> sessions (w_db v') = sessions (w_db v)
        else rs_body (w_resp v') = [BJson (LoginResponse k None None psk None)] \<and>
          map ck_value (sent_cookies (w_resp v')) = [token_at v 0, token_at v 32] \<and>
          (\<exists>s. sessions (w_db v') = sessions (w_db v) @ [s] \<and> s_user s = uid))"
  proof (cases "u_totp_enabled u")
    case True
    with v(5) have "challenge_fresh v l" by simp
    from login_challenges [OF v(1-3) this q _ _ row(3) _ row(1) _ login] show ?thesis
      using True h(1) v(6) find row(2,5) by simp
  next
    case False
    with v(5) have "session_fresh (passed v) l" by simp
    from login_decides(1) [OF v(1-3) q _ this _ _ _ _ row(1) login row(3)] show ?thesis
      using False h(1) v(6) find only row(2,4,5) by auto
  qed
  moreover have "fst (run_state (client_derive l new e' (text k)) b0) = Inr (mk', JsString ah)"
    by (rule derive_again [OF up(5,7) e'])
  moreover have "fst (run_state (finishLogin l psk (text k) mk' (text k)) b1) = Inr (JsString vk')"
    using opens(1) by (simp add: finishLogin_def)
  ultimately show ?thesis
    using r(1,3) old same reseal_opens [OF l] by blast
qed

text \<open>
  C9: rotating the vault key disables the authenticator.  The box \<open>Rotate vault key\<close> of the
  password dialog wraps a new vault key and reseals the items, but the TOTP secret stays wrapped
  under the old key.  After it the password step still answers with that blob, sealed under the
  old key, and the browser, which opened the new vault key, tries to open it with the new one:
  that throws, and no authenticator code can be sent any more, unless the tag of this very blob
  happens to verify under the new, independently drawn key - and then the browser
  would send whatever text comes out.
\<close>

theorem vault_key_rotation_disables_totp:
  assumes l: "aead_ok l"
    and change: "run_state (client_change_keys l cur new e oldp (text k) psk0 True) a2 =
        (Inr (JsString ah, JsString psk, JsString vk, JsString vk'), a3)" "ah \<noteq> []"
    and enrol: "run_state (jsWrapTOTPSecret l [JsString secret, JsString vk]) a0 = (Inr (JsString ptotp), a1)"
    and w: "calm w" "rand_ok w" "rs_sent (w_resp w) = None" "db_inv (w_db w)" and ctx: "cx_user_id r = Some uid"
    and u: "u \<in> set (users (w_db w))" "u_id u = uid" "u_totp_enabled u" "u_ptotp u = Some ptotp"
      "u_email u = NormalizeEmail l e"
    and body: "decodeJSON l (UpdateKeyRequest_fields l) zero_UpdateKeyRequest r =
        Some \<lparr>uk_auth_hash = ah, uk_kdf = k, uk_psk = psk\<rparr>" "gen_KDFParams_ok k"
    and rot: "run_state (PutUserKey l r) w = ((), w1)"
    and e': "NormalizeEmail l e' = NormalizeEmail l e"
    and v: "calm v" "rand_ok v" "w_resp v = fresh_response" "users (w_db v) = users (w_db w1)"
      "challenge_fresh v l" "login_open v (clientIP q) (NormalizeEmail l e')"
    and q: "decodeJSON l (LoginRequest_fields l) zero_LoginRequest q = Some \<lparr>lr_auth_hash = ah, lr_email = e'\<rparr>"
    and login: "run_state (PostLogin l q) v = ((), v')"
  shows "rs_status (w_resp w1) = 200 \<and>
    rs_body (w_resp v') = [BJson (LoginResponse k (Some True) (Some (token_at v 0)) psk (Some ptotp))] \<and>
    (\<exists>mk kb kb' nonce. fst (run_state (client_derive l new e' (text k)) b0) = Inr (mk, JsString ah) \<and>
       fst (run_state (vaultKeyFromMaster l mk psk) b1) = Inr (JsString vk') \<and>
       base64_decode vk = Some kb \<and> base64_decode vk' = Some kb' \<and> length nonce = 24 \<and>
       ptotp = base64_encode (nonce @ xchacha_seal l kb nonce (to_bytes secret) totp_aad) \<and>
       fst (run_state (mfa_secret l mk psk ptotp) b2) =
         (case xchacha_open l kb' nonce (xchacha_seal l kb nonce (to_bytes secret) totp_aad) totp_aad of
            None \<Rightarrow> Inl (PanicErr ErrOpen) | Some q \<Rightarrow> Inr (JsString (of_bytes q))))"
proof -
  obtain mk' keys' s1 s2 s3 where up: "run_state (jsNewVaultKey []) s1 = (Inr (JsString vk'), s2)"
    "master_key l new e (text k) = Inr mk'" "stretched l mk' = Inr keys'" "auth_hash l mk' new (text k) = Inr (JsString ah)"
    "run_state (jsWrapVaultKey l [JsString vk', encKey_of keys']) s3 = (Inr (JsString psk), a3)"
    using change_steps [OF change(1)] by metis
  note opens = wrapped_opens [OF l up(3) disjI1 [OF up(1)] up(5)]
  obtain kb' where kb': "vk' = base64_encode kb'" "length kb' = 32" using new_key_32 [OF up(1)] by blast
  obtain h where "ah = base64_encode h" using auth_hash_text [OF up(4)] by blast
  then have h: "decode_auth_hash ah = Some h" "h \<noteq> []"
    using change(2) by (auto simp: decode_auth_hash_def base64_roundtrip)
  let ?body = "\<lparr>uk_auth_hash = ah, uk_kdf = k, uk_psk = psk\<rparr>"
  let ?u = "rotated_row l w ?body h u"
  have r: "rs_status (w_resp w1) = 200" "users (w_db w1) = rotate l w ?body h uid (users (w_db w))"
    using rotation_succeeds [OF w(1-3) ctx u(1,2) body(1)] h(1) opens(2) rot by auto
  have keys: "distinct (map u_email (users (w_db w)))" "distinct (map u_id (users (w_db w)))"
    using w(4) by (simp_all add: db_inv_def keys_ok_def)
  have find: "find (\<lambda>x. u_email x = NormalizeEmail l e') (users (w_db v)) = Some ?u"
    using find_rotated(1) [OF keys u(1), where l = l and w = w and body = ?body and h = h] v(4) r(2) e' u(2,5) by simp
  have row: "gen_KDFParams_Unmarshal l (u_kdf ?u) = Some k" "u_totp_enabled ?u" "password_ok l ?u h"
    using body(2) u(3) rotated_password [OF h(2), of l w ?body u h] h(2) by (simp_all add: gen_KDFParams_roundtrip)
  have "rs_body (w_resp v') = [BJson (LoginResponse k (Some True) (Some (token_at v 0)) psk (Some ptotp))]"
    using login_challenges [OF v(1-3,5) q _ _ row(3,2,1) _ login] h(1) v(6) find u(4) by (simp add: derefString_def)
  moreover have "fst (run_state (client_derive l new e' (text k)) b0) = Inr (mk', JsString ah)"
    by (rule derive_again [OF up(2,4) e'])
  moreover obtain kb nonce where blob: "base64_decode vk = Some kb" "length nonce = 24"
      "ptotp = base64_encode (nonce @ xchacha_seal l kb nonce (to_bytes secret) totp_aad)"
    and "\<And>t. fst (run_state (jsUnwrapTOTPSecret l [JsString ptotp, JsString vk']) t) =
      (case xchacha_open l kb' nonce (xchacha_seal l kb nonce (to_bytes secret) totp_aad) totp_aad of
         None \<Rightarrow> Inl (PanicErr ErrOpen) | Some q \<Rightarrow> Inr (JsString (of_bytes q)))"
    by (rule totp_under_other_key [OF l enrol kb']) (rule that)
  then have "fst (run_state (mfa_secret l mk' psk ptotp) b2) =
      (case xchacha_open l kb' nonce (xchacha_seal l kb nonce (to_bytes secret) totp_aad) totp_aad of
         None \<Rightarrow> Inl (PanicErr ErrOpen) | Some q \<Rightarrow> Inr (JsString (of_bytes q)))"
    unfolding mfa_secret_def by (intro fst_andThen [OF opens(1)])
  moreover have "base64_decode vk' = Some kb'" by (simp add: kb'(1) base64_roundtrip)
  ultimately show ?thesis using r(1) opens(1) blob by blast
qed

text \<open>
  An interrupted rotation loses items.  The dialog pushes an item resealed under the new vault
  key before the new wrapped key is stored.  If it stops there, the server holds the new
  ciphertext while the account still carries the old wrapped key; the password opens the old vault
  key, and opening the item with it throws, since this ciphertext does not authenticate under
  the old key.
\<close>

theorem interrupted_rotation_loses_item:
  assumes l: "aead_ok l"
    and change: "run_state (client_change_keys l cur new e oldp newp psk0 True) a0 =
        (Inr (JsString ah, JsString psk, JsString vk, JsString vk'), a1)"
    and reseal: "run_state (client_reseal l (JsString c) (JsString vk) (JsString vk')) a1 = (Inr (JsString c'), a2)"
    and apart: "refused_under l (JsString vk) c'"
    and w: "calm w" "db_inv (w_db w)" "1 \<le> n" "n \<le> 2147483647" "ty = [] \<or> ty \<in> set item_types"
    and push: "run_state (ItemsRepo_Update iid uid n c' ty) w = (Inr item, w1)"
  shows "users (w_db w1) = users (w_db w) \<and> (\<exists>row. own_item iid uid (w_db w1) = Some row \<and> i_ciphertext row = c') \<and>
    (\<exists>mk err. master_key l cur e oldp = Inr mk \<and> fst (run_state (vaultKeyFromMaster l mk psk0) b0) = Inr (JsString vk) \<and>
       fst (run_state (jsOpenItem l [JsString c', JsString vk]) b1) = Inl (PanicErr err))"
proof -
  obtain mk keys where up: "master_key l cur e oldp = Inr mk" "stretched l mk = Inr keys"
    "unwrapped l (JsString psk0) (encKey_of keys) = Inr (JsString vk)" using change_steps [OF change] by metis
  obtain err where "fst (run_state (jsOpenItem l [JsString c', JsString vk]) b1) = Inl (PanicErr err)"
    using item_refused [OF apart] by blast
  moreover have "fst (run_state (vaultKeyFromMaster l mk psk0) b0) = Inr (JsString vk)"
    by (simp add: fst_vaultKey [OF up(2)] up(3))
  moreover obtain i where i: "own_item iid uid (w_db w) = Some i"
    and w1: "w_db w1 = (w_db w)\<lparr>items := map (\<lambda>x. if x = i then updated_row c' ty (ev_now (w_events w 0)) x else x) (items (w_db w))\<rparr>"
    using push by (auto simp: run_ItemsRepo_Update [OF w] split: option.splits if_splits)
  have "own_item iid uid (w_db w1) = Some (updated_row c' ty (ev_now (w_events w 0)) i)"
    unfolding w1 by (rule own_item_updated [OF w(2) i])
  ultimately show ?thesis using up(1) w1 by (auto simp: updated_row_def)
qed

subsection \<open>A concrete change\<close>

definition ann_key :: bytes where "ann_key = replicate 32 1"
definition ann_wrapped :: "bytes \<Rightarrow> string" where
  "ann_wrapped ek = base64_encode (replicate 24 0 @ ann_key @ take 16 ek)"

lemma ann_unwraps:
  assumes "length ek = 32"
  shows "unwrapped device_lib (JsString (ann_wrapped ek)) (JsString (base64_encode ek)) = Inr (JsString (base64_encode ann_key))"
proof -
  have "Open device_lib ek (replicate 24 0 @ ann_key @ take 16 ek) [] = Inr ann_key"
    unfolding Open_Inr_iff [OF aead_ok_device] using assms by (simp add: device_lib_def)
  then show ?thesis
    by (simp add: unwrapped_def js_String_def ann_wrapped_def base64_roundtrip UnwrapKey_def)
qed

lemma device_change:
  fixes t :: string and rot :: bool
  defines "kb \<equiv> if rot then map of_nat [0..<32] else ann_key"
  obtains psk0 mk0 ah0 ah psk a3 where "auth_hash device_lib mk0 ''pw'' t = Inr ah0"
    "master_key device_lib ''pw'' ''ann@example.org'' t = Inr mk0"
    "\<And>s. fst (run_state (vaultKeyFromMaster device_lib mk0 psk0) s) = Inr (JsString (base64_encode ann_key))"
    "run_state (client_change_keys device_lib ''pw'' ''new'' ''ann@example.org'' t t psk0 rot) \<lparr>wa_rng = sample_rng, wa_heap = []\<rparr> =
      (Inr (JsString ah, JsString psk, JsString (base64_encode ann_key), JsString (base64_encode kb)), a3)" "ah \<noteq> []"
proof -
  let ?l = device_lib and ?e = "''ann@example.org''" and ?s = "\<lparr>wa_rng = sample_rng, wa_heap = []\<rparr>"
  have e: "NormalizeEmail ?l ?e = ''ann@example.org''" by code_simp
  obtain mk keys ah0 ek where o: "master_key ?l ''pw'' ?e t = Inr mk" "stretched ?l mk = Inr keys"
    "encKey_of keys = JsString (base64_encode ek)" "length ek = 32" "auth_hash ?l mk ''pw'' t = Inr (JsString ah0)"
    by (rule device_derived [where pw = "''pw''" and e = ?e and t = t]) (use e in simp_all)
  obtain mk' keys' ah ek' where n: "master_key ?l ''new'' ?e t = Inr mk'" "stretched ?l mk' = Inr keys'"
    "encKey_of keys' = JsString (base64_encode ek')" "length ek' = 32" "auth_hash ?l mk' ''new'' t = Inr (JsString ah)" "ah \<noteq> []"
    by (rule device_derived [where pw = "''new''" and e = ?e and t = t]) (use e in simp_all)
  let ?psk0 = "ann_wrapped ek" and ?vk = "JsString (base64_encode ann_key)" and ?vk' = "JsString (base64_encode kb)"
  obtain s1 where 1: "run_state (jsDeriveMasterKey ?l [JsString ''pw'', JsString ?e, JsString t]) ?s = (Inr mk, s1)"
      "wa_rng s1 = sample_rng" using run_quiet [OF _ derivations_keep_rng(1)] o(1) by (fastforce simp: fst_master_key)
  obtain s2 where 2: "run_state (jsStretchMasterKey ?l [mk]) s1 = (Inr keys, s2)" "wa_rng s2 = sample_rng"
    using run_quiet [OF _ derivations_keep_rng(3)] o(2) 1(2) by (fastforce simp: fst_stretched)
  obtain s3 where 3: "run_state (jsUnwrapVaultKey ?l [JsString ?psk0, encKey_of keys]) s2 = (Inr ?vk, s3)" "wa_rng s3 = sample_rng"
    using run_quiet [OF _ derivations_keep_rng(4)] ann_unwraps [OF o(4)] 2(2) by (fastforce simp: fst_unwrapped o(3))
  obtain s4 where 4: "run_state (if rot then jsNewVaultKey [] else give ?vk) s3 = (Inr ?vk', s4)" "\<not> rng_fail (wa_rng s4) 0"
    using run_device_key [OF 3(2)] 3(2) by (cases rot) (auto simp: kb_def sample_rng_def)
  obtain s5 where 5: "run_state (jsDeriveMasterKey ?l [JsString ''new'', JsString ?e, JsString t]) s4 = (Inr mk', s5)"
      "wa_rng s5 = wa_rng s4" using run_quiet [OF _ derivations_keep_rng(1)] n(1) by (fastforce simp: fst_master_key)
  obtain s6 where 6: "run_state (jsStretchMasterKey ?l [mk']) s5 = (Inr keys', s6)" "wa_rng s6 = wa_rng s4"
    using run_quiet [OF _ derivations_keep_rng(3)] n(2) 5(2) by (fastforce simp: fst_stretched)
  obtain s7 where 7: "run_state (jsDeriveAuthHash ?l [mk', JsString ''new'', JsString t]) s6 = (Inr (JsString ah), s7)"
      "wa_rng s7 = wa_rng s4" using run_quiet [OF _ derivations_keep_rng(2)] n(5) 6(2) by (fastforce simp: fst_auth_hash)
  have "\<not> rng_fail (wa_rng s7) 0" using 4(2) 7(2) by simp
  from run_device_wrap [OF this n(4), of kb] obtain psk s8 where
    8: "run_state (jsWrapVaultKey ?l [?vk', encKey_of keys']) s7 = (Inr (JsString psk), s8)" by (auto simp: n(3))
  have "run_state (client_change_keys ?l ''pw'' ''new'' ?e t t ?psk0 rot) ?s = (Inr (JsString ah, JsString psk, ?vk, ?vk'), s8)"
    using 1(1) 2(1) 3(1) 4(1) 5(1) 6(1) 7(1) 8 by (simp add: client_change_keys_def run_andThen)
  moreover have "fst (run_state (vaultKeyFromMaster ?l mk ?psk0) s) = Inr ?vk" for s
    by (simp add: fst_vaultKey [OF o(2)] o(3) ann_unwraps [OF o(4)])
  ultimately show ?thesis using that [OF o(5,1)] n(6) by blast
qed

definition device_rotation :: "string \<Rightarrow> string \<Rightarrow> request" where
  "device_rotation ah psk = (sample_request ''PUT'' ''/api/user/key''
     (JObj [(''auth_hash'', JStr ah), (''kdf_params'', gen_KDFParams_json defaultGenKDFParams),
        (''protected_symmetric_key'', JStr psk)]))\<lparr>cx_user_id := Some (UUID 1)\<rparr>"

lemma device_rotation_body:
  "decodeJSON device_lib (UpdateKeyRequest_fields device_lib) zero_UpdateKeyRequest (device_rotation ah psk) =
     Some \<lparr>uk_auth_hash = ah, uk_kdf = defaultGenKDFParams, uk_psk = psk\<rparr>"
  by (simp add: decodeJSON_def device_rotation_def sample_request_def
      decode_struct_def [of _ _ "UpdateKeyRequest_fields _"] zero_UpdateKeyRequest_def dec_string_def
      dec_nested_def gen_KDFParams_decode default_kdf_ok)

lemma device_mails: "NormalizeEmail device_lib ''Ann@Example.org'' = NormalizeEmail device_lib ''ann@example.org''"
    "u_email sample_user = NormalizeEmail device_lib ''ann@example.org''"
  by code_simp+

theorem password_change_keeps_vault_witness:
  "\<exists>psk0 ah psk a w1 v' mk. run_state (client_change_keys device_lib ''pw'' ''new'' ''ann@example.org'' ''p'' ''p'' psk0 False)
        \<lparr>wa_rng = sample_rng, wa_heap = []\<rparr> =
      (Inr (JsString ah, JsString psk, JsString (base64_encode ann_key), JsString (base64_encode ann_key)), a) \<and>
    run_state (PutUserKey device_lib (device_rotation ah psk)) (sample_world sample_db) = ((), w1) \<and>
    run_state (PostLogin device_lib (device_login ah)) (sample_world (empty_db\<lparr>users := users (w_db w1)\<rparr>)) = ((), v') \<and>
    rs_body (w_resp v') = [BJson (LoginResponse defaultGenKDFParams None None psk None)] \<and>
    fst (run_state (finishLogin device_lib psk ''p'' mk ''p'') a) = Inr (JsString (base64_encode ann_key))"
proof -
  let ?e = "''ann@example.org''" and ?e' = "''Ann@Example.org''" and ?vk = "JsString (base64_encode ann_key)"
  obtain psk0 mk0 ah0 ah psk a where old: "auth_hash device_lib mk0 ''pw'' ''p'' = Inr ah0"
      "master_key device_lib ''pw'' ?e ''p'' = Inr mk0"
      "\<And>s. fst (run_state (vaultKeyFromMaster device_lib mk0 psk0) s) = Inr ?vk"
    and change: "run_state (client_change_keys device_lib ''pw'' ''new'' ?e ''p'' ((\<lambda>k. ''p'') defaultGenKDFParams) psk0 False)
        \<lparr>wa_rng = sample_rng, wa_heap = []\<rparr> = (Inr (JsString ah, JsString psk, ?vk, ?vk), a)" "ah \<noteq> []"
    using device_change [of "''p''" False] by (metis (no_types, lifting))
  obtain w1 where rot: "run_state (PutUserKey device_lib (device_rotation ah psk)) (sample_world sample_db) = ((), w1)"
    using run_unit by blast
  let ?v = "sample_world (empty_db\<lparr>users := users (w_db w1)\<rparr>)"
  obtain v' where login: "run_state (PostLogin device_lib (device_login ah)) ?v = ((), v')" using run_unit by blast
  have derive: "fst (run_state (client_derive device_lib ''pw'' ?e ''p'') a) = Inr (mk0, ah0)"
    by (rule derive_again [OF old(2,1) refl])
  have fresh: "session_fresh (passed ?v) device_lib" by (simp add: session_fresh_def empty_db_def)
  have fresh: "if u_totp_enabled sample_user then challenge_fresh ?v device_lib else session_fresh (passed ?v) device_lib"
    using fresh by (simp add: sample_user_def)
  have u: "sample_user \<in> set (users (w_db (sample_world sample_db)))" "u_id sample_user = UUID 1"
      "\<not> u_totp_enabled sample_user" "cx_user_id (device_rotation ah psk) = Some (UUID 1)" "db_inv (w_db (sample_world sample_db))"
    by (simp_all add: sample_db_def sample_user_def device_rotation_def sample_db_inv [unfolded sample_db_def sample_user_def])
  from password_change_keeps_vault [OF aead_ok_device derive old(3) change calm_sample rand_ok_sample _ u(5,4,1,2) device_mails(2)
      device_rotation_body default_kdf_ok rot device_mails(1) calm_sample rand_ok_sample _ _ fresh login_open_sample
      device_bodies(2) login, of a a]
  obtain mk where "rs_body (w_resp v') = [BJson (LoginResponse defaultGenKDFParams None None psk None)]"
      "fst (run_state (finishLogin device_lib psk ''p'' mk ''p'') a) = Inr ?vk"
    using u(3) by (auto simp: fresh_response_def)
  then show ?thesis using change(1) rot login by blast
qed

definition totp_user :: "string \<Rightarrow> User" where
  "totp_user ptotp = sample_user\<lparr>u_totp_enabled := True, u_ptotp := Some ptotp\<rparr>"

lemma device_wraps_totp:
  "\<exists>c w. run_state (jsWrapTOTPSecret device_lib [JsString s, JsString (base64_encode ann_key)]) \<lparr>wa_rng = sample_rng, wa_heap = []\<rparr> =
     (Inr (JsString c), w)"
  by (auto simp: jsWrapTOTPSecret_def run_andThen run_draw js_String_def nth_append base64_roundtrip ann_key_def
        WrapTOTPSecret_def Seal_run [OF aead_ok_device] sample_rng_def Let_def)

lemma device_other_key:
  "xchacha_open device_lib (map of_nat [0..<32]) n (xchacha_seal device_lib ann_key n' p aad) aad = None"
proof -
  have "hd (take 16 ann_key) \<noteq> hd (take 16 (map of_nat [0..<32]))" by (simp add: ann_key_def hd_map)
  then have "take 16 ann_key \<noteq> take 16 (map of_nat [0..<32])" by metis
  moreover have "length (take 16 ann_key) = 16" by (simp add: ann_key_def)
  ultimately show ?thesis by (simp add: device_lib_def)
qed

theorem vault_key_rotation_disables_totp_witness:
  "\<exists>psk0 ah psk vk' ptotp a w1 v' mk err. run_state (client_change_keys device_lib ''pw'' ''new'' ''ann@example.org'' ''p'' ''p'' psk0 True)
        \<lparr>wa_rng = sample_rng, wa_heap = []\<rparr> =
      (Inr (JsString ah, JsString psk, JsString (base64_encode ann_key), JsString vk'), a) \<and>
    run_state (PutUserKey device_lib (device_rotation ah psk)) (sample_world (empty_db\<lparr>users := [totp_user ptotp]\<rparr>)) = ((), w1) \<and>
    run_state (PostLogin device_lib (device_login ah)) (sample_world (empty_db\<lparr>users := users (w_db w1)\<rparr>)) = ((), v') \<and>
    fst (run_state (mfa_secret device_lib mk psk ptotp) a) = Inl (PanicErr err)"
proof -
  let ?e = "''ann@example.org''" and ?s = "\<lparr>wa_rng = sample_rng, wa_heap = []\<rparr>"
  let ?vk' = "base64_encode (map of_nat [0..<32])"
  obtain psk0 ah psk a where
    change: "run_state (client_change_keys device_lib ''pw'' ''new'' ?e ''p'' ((\<lambda>k. ''p'') defaultGenKDFParams) psk0 True) ?s =
      (Inr (JsString ah, JsString psk, JsString (base64_encode ann_key), JsString ?vk'), a)" "ah \<noteq> []"
    using device_change [of "''p''" True] by (metis (no_types, lifting))
  obtain ptotp a1 where enrol: "run_state (jsWrapTOTPSecret device_lib [JsString ''ABCDEFGH'', JsString (base64_encode ann_key)]) ?s =
      (Inr (JsString ptotp), a1)" using device_wraps_totp by blast
  let ?w = "sample_world (empty_db\<lparr>users := [totp_user ptotp]\<rparr>)"
  obtain w1 where rot: "run_state (PutUserKey device_lib (device_rotation ah psk)) ?w = ((), w1)" using run_unit by blast
  let ?v = "sample_world (empty_db\<lparr>users := users (w_db w1)\<rparr>)"
  obtain v' where login: "run_state (PostLogin device_lib (device_login ah)) ?v = ((), v')" using run_unit by blast
  have u: "totp_user ptotp \<in> set (users (w_db ?w))" "u_id (totp_user ptotp) = UUID 1" "u_totp_enabled (totp_user ptotp)"
      "u_ptotp (totp_user ptotp) = Some ptotp" "cx_user_id (device_rotation ah psk) = Some (UUID 1)" "db_inv (w_db ?w)"
    by (simp_all add: totp_user_def sample_user_def device_rotation_def db_inv_def db_inv_defs empty_db_def)
  have mail: "u_email (totp_user ptotp) = NormalizeEmail device_lib ?e"
    using device_mails(2) by (simp add: totp_user_def)
  have fresh: "challenge_fresh ?v device_lib" by (simp add: challenge_fresh_def empty_db_def)
  from vault_key_rotation_disables_totp [OF aead_ok_device change enrol calm_sample rand_ok_sample _ u(6,5,1-4) mail
      device_rotation_body default_kdf_ok rot device_mails(1) calm_sample rand_ok_sample _ _ fresh login_open_sample
      device_bodies(2) login, of ?s ?s a]
  obtain mk kb kb' nonce where "base64_decode (base64_encode ann_key) = Some kb" "base64_decode ?vk' = Some kb'"
      "fst (run_state (mfa_secret device_lib mk psk ptotp) a) =
         (case xchacha_open device_lib kb' nonce (xchacha_seal device_lib kb nonce (to_bytes ''ABCDEFGH'') totp_aad) totp_aad of
            None \<Rightarrow> Inl (PanicErr ErrOpen) | Some q \<Rightarrow> Inr (JsString (of_bytes q)))"
    by (auto simp: fresh_response_def)
  then have "fst (run_state (mfa_secret device_lib mk psk ptotp) a) = Inl (PanicErr ErrOpen)"
    by (auto simp: base64_roundtrip device_other_key)
  then show ?thesis using change(1) rot login by blast
qed

definition device_mfa :: "string \<Rightarrow> string \<Rightarrow> request" where
  "device_mfa tok secret = sample_request ''POST'' ''/api/login/mfa''
     (JObj [(''mfa_token'', JStr tok), (''totp_code'', JStr ''123456''), (''totp_secret'', JStr secret)])"

lemma device_mfa_body:
  "decodeJSON l LoginMfaRequest_fields zero_LoginMfaRequest (device_mfa tok secret) = Some
     \<lparr>lm_token = tok, lm_recovery = None, lm_code = Some ''123456'', lm_secret = Some secret\<rparr>"
  by (simp add: decodeJSON_def device_mfa_def sample_request_def json_defs LoginMfaRequest_fields_def
      zero_LoginMfaRequest_def ascii_def ascii_upper_def)

lemma device_totp:
  "totp_checkable device_lib (TrimSpace device_lib (ToUpper device_lib ''ABCDEFGH'')) (TrimSpace device_lib ''123456'')"
  "totp_Validate device_lib t (TrimSpace device_lib ''123456'') secret"
  by code_simp (simp add: device_lib_def sample_lib_def TrimSpace_def ascii_def ascii_trim_def ascii_space_def)

theorem mfa_login_opens_vault_witness:
  "\<exists>u w1 x1. u_totp_enabled u \<and>
    run_state (PostLogin device_lib (device_login ''QUJD'')) (sample_world (empty_db\<lparr>users := [u]\<rparr>)) = ((), w1) \<and>
    run_state (PostLoginMfa device_lib (device_mfa (token_at (sample_world empty_db) 0) ''ABCDEFGH''))
      (sample_world (empty_db\<lparr>users := [u], challenges := challenges (w_db w1)\<rparr>)) = ((), x1) \<and> rs_status (w_resp x1) = 200"
proof -
  let ?e = "''ann@example.org''" and ?s = "\<lparr>wa_rng = sample_rng, wa_heap = []\<rparr>" and ?l = device_lib
  obtain psk0 mk0 where vault: "\<And>s. fst (run_state (vaultKeyFromMaster ?l mk0 psk0) s) = Inr (JsString (base64_encode ann_key))"
    using device_change [of "''p''" False] by metis
  obtain ptotp a1 where enrol: "run_state (jsWrapTOTPSecret ?l [JsString ''ABCDEFGH'', JsString (base64_encode ann_key)]) ?s =
      (Inr (JsString ptotp), a1)" using device_wraps_totp by blast
  define u where "u = (totp_user ptotp)\<lparr>u_auth_salt := [7], u_auth_hash := argon2_IDKey ?l [65, 66, 67] [7] 2 19456 1 32,
      u_kdf := gen_KDFParams_json defaultGenKDFParams, u_psk := psk0\<rparr>"
  let ?w = "sample_world (empty_db\<lparr>users := [u]\<rparr>)"
  obtain w1 where step1: "run_state (PostLogin ?l (device_login ''QUJD'')) ?w = ((), w1)" using run_unit by blast
  let ?x = "sample_world (empty_db\<lparr>users := [u], challenges := challenges (w_db w1)\<rparr>)"
  obtain x1 where step2: "run_state (PostLoginMfa ?l (device_mfa (token_at ?w 0) ''ABCDEFGH'')) ?x = ((), x1)" using run_unit by blast
  have u: "password_ok ?l u [65, 66, 67]" "u_totp_enabled u" "u_ptotp u = Some ptotp" "u_psk u = psk0"
      "gen_KDFParams_Unmarshal ?l (u_kdf u) = Some defaultGenKDFParams"
    by (simp_all add: u_def totp_user_def password_ok_def DeriveServerAuthHash_default gen_KDFParams_roundtrip default_kdf_ok)
  have mail: "NormalizeEmail ?l ''Ann@Example.org'' = u_email u"
    using device_mails by (simp add: u_def totp_user_def)
  have sent: "fst (run_state (mfa_secret ?l mk0 psk0 ptotp) ?s) = Inr (JsString ''ABCDEFGH'')"
    unfolding mfa_secret_def by (rule fst_andThen [OF vault]) (rule unwrap_wrapped_totp [OF aead_ok_device enrol])
  have fresh: "challenge_fresh ?w ?l" "session_fresh (passed (passed ?x)) ?l"
    by (simp_all add: challenge_fresh_def session_fresh_def empty_db_def)
  have "rs_status (w_resp x1) = 200"
    using mfa_login_opens_vault [OF aead_ok_device enrol vault [folded u(4)] calm_sample rand_ok_sample _ fresh(1)
        device_bodies(2) _ _ u(1-3,5) login_open_sample step1 sent [folded u(4)] calm_sample rand_ok_sample _ _ _ fresh(2) _
        device_totp device_mfa_body step2] sample_hash mail
    by simp
  moreover have "token_at ?w 0 = token_at (sample_world empty_db) 0" by (simp add: token_at_def)
  ultimately show ?thesis using step1 step2 u(2) by metis
qed

end
