(* ===== verification/Revisions.thy ===== *)
theory Revisions
  imports ItemLife Startup
begin

text \<open>
  Revisions over time.  Whatever the server does to the database, the revision of an item never
  falls and a revision number stands for one content, as long as the database does not issue the
  item's identifier again.  So an update with an outdated revision is refused whatever
  happened in between: no client overwrites a version it has not seen.
\<close>

definition newer_than :: "item_row \<Rightarrow> item_row \<Rightarrow> bool" where
  "newer_than x y = (sint (i_revision x) < sint (i_revision y) \<or> y = x)"

definition revisions_kept :: "uuid \<Rightarrow> db \<Rightarrow> db \<Rightarrow> bool" where
  "revisions_kept iid d d' = (\<forall>y \<in> set (items d'). i_id y = iid \<longrightarrow>
     (\<exists>x \<in> set (items d). i_id x = iid \<and> newer_than x y))"

lemma newer_trans: "newer_than x y \<Longrightarrow> newer_than y z \<Longrightarrow> newer_than x z"
  by (auto simp: newer_than_def)

lemma revisions_same: "items d' = items d \<Longrightarrow> revisions_kept iid d d'"
  by (auto simp: revisions_kept_def newer_than_def)

lemma revisions_subset: "set (items d') \<subseteq> set (items d) \<Longrightarrow> revisions_kept iid d d'"
  by (auto simp: revisions_kept_def newer_than_def)

lemma revisions_create: "stmt_within_ids (- {iid}) (revisions_kept iid) (createItem u c t)"
  by (auto simp: stmt_within_ids_def revisions_kept_def createItem_def newer_than_def Let_def)

lemma revisions_update: "stmt_within_ids F (revisions_kept iid) (updateItem i u n c t)"
proof -
  define hit where "hit = (\<lambda>x :: item_row. i_id x = i \<and> i_user x = u \<and> i_revision x = n)"
  define f where "f = (\<lambda>now (x :: item_row). x\<lparr>i_ciphertext := c, i_type := (case t of None \<Rightarrow> i_type x | Some t \<Rightarrow> t),
      i_revision := i_revision x + 1, i_updated := (now :: time)\<rparr>)"
  have "revisions_kept iid d (d\<lparr>items := map (\<lambda>x. if hit x then f now x else x) (items d)\<rparr>)"
    if "find hit (items d) = Some x" "i_revision x \<noteq> int32_max" for d x now
  proof -
    have "n \<noteq> int32_max" using that by (auto simp: hit_def find_Some_iff)
    then have "hit y \<Longrightarrow> newer_than y (f now y)" "i_id (f now y) = i_id y" for y
      using sint_succ [of n] by (auto simp: hit_def f_def newer_than_def)
    then show ?thesis by (fastforce simp: revisions_kept_def newer_than_def [of x x for x])
  qed
  then have "revisions_kept iid d (snd (case find hit (items d) of None \<Rightarrow> (Inl ErrNoRows, d)
      | Some x \<Rightarrow> if i_revision x = int32_max then (Inl out_of_range, d)
          else if \<not> List.member item_types (i_type (f now x)) then (Inl check_violation, d)
          else (Inr (f now x), d\<lparr>items := map (\<lambda>x. if hit x then f now x else x) (items d)\<rparr>)))" for d now
    by (auto intro: revisions_same split: option.split)
  then show ?thesis unfolding stmt_within_ids_def updateItem_def Let_def f_def hit_def by blast
qed

interpretation revs: store_relation_all "- {iid}" "revisions_kept iid" "\<lambda>_. True" for iid
proof unfold_locales
  show "revisions_kept iid d d" for d by (rule revisions_same) simp
  show "revisions_kept iid d d' \<Longrightarrow> revisions_kept iid d' d'' \<Longrightarrow> revisions_kept iid d d''" for d d' d''
    unfolding revisions_kept_def by (meson newer_trans)
  show "stmt_within_ids (- {iid}) (revisions_kept iid) (createItem u c t)" for u c t by (rule revisions_create)
  show "stmt_within_ids (- {iid}) (revisions_kept iid) (updateItem i u n c t)" for i u n c t by (rule revisions_update)
qed (auto simp: stmt_within_ids_def createUser_def updateUserProtectedKey_def set_users_def
    updateUserAuthCredentials_def deleteUser_def cascade_user_def enableUserTOTP_def
    disableUserTOTP_def deleteItem_def createSessionPair_def
    rotateSessionTokens_def deleteSessionByAccessHash_def deleteSessionByRefreshHash_def
    deleteAllSessionsForUser_def deleteRecoveryCodesForUser_def insertRecoveryCode_def
    markRecoveryCodeUsed_def createMFAChallenge_def consumeMFAChallenge_def appendAuditEvent_def
    cleanupExpiredMFAChallenges_def recordDeviceHash_def Let_def
    intro!: revisions_same revisions_subset split: option.split)

lemma served_revisions:
  "rely_ids (- {iid}) (revisions_kept iid) x \<Longrightarrow> run_state (serve_all l spec page origin rs) x = (answers, x') \<Longrightarrow>
     revisions_kept iid (w_db x) (w_db x')"
  using revs.serve_all_within [of iid l spec page origin rs] unfolding within_ids_def by (metis snd_conv)

subsection \<open>Properties\<close>

text \<open>
  C12: no update is lost, whatever happens in between.  A client stores a new version of an
  item; then the server answers any requests of anyone, with failures and interference of
  other servers.  From then on the revision the client saw is never accepted again, and as
  long as the item carries the revision the client was given, it carries the client's
  ciphertext.
\<close>

theorem update_never_lost:
  assumes w: "calm w" "db_inv (w_db w)" "1 \<le> n" "n \<le> 2147483647" "ty = [] \<or> ty \<in> set item_types"
    and mine: "run_state (ItemsRepo_Update iid uid n c ty) w = (Inr item, w1)"
    and history: "w_db x = w_db w1" "rely_ids (- {iid}) (revisions_kept iid) x"
      "run_state (serve_all l spec page origin rs) x = (answers, x1)"
    and v: "calm v" "w_db v = w_db x1" "db_inv (w_db v)" "ty2 = [] \<or> ty2 \<in> set item_types"
    and stale: "run_state (ItemsRepo_Update iid uid2 n c2 ty2) v = (res, v1)"
  shows "res \<in> {Inl ErrNotFound, Inl ErrConflict} \<and> w_db v1 = w_db v \<and>
    (\<forall>y \<in> set (items (w_db v)). i_id y = iid \<longrightarrow>
       n < sint (i_revision y) \<and> (sint (i_revision y) = n + 1 \<longrightarrow> i_ciphertext y = c))"
proof -
  obtain i where i: "own_item iid uid (w_db w) = Some i" "sint (i_revision i) = n" "n \<noteq> 2147483647"
    and w1: "w_db w1 = (w_db w)\<lparr>items := map (\<lambda>x. if x = i then updated_row c ty (ev_now (w_events w 0)) x else x) (items (w_db w))\<rparr>"
    using mine by (auto simp: run_ItemsRepo_Update [OF w] split: option.splits if_splits)
  let ?row = "updated_row c ty (ev_now (w_events w 0)) i"
  have i': "i \<in> set (items (w_db w))" "i_id i = iid" using i(1) by (auto simp: own_item_def find_Some_iff)
  have keys: "distinct (map i_id (items (w_db w)))" using w(2) by (simp add: db_inv_def keys_ok_def)
  have "y = ?row" if "y \<in> set (items (w_db x))" "i_id y = iid" for y
    using that i' keys by (auto simp: history(1) w1 updated_row_def distinct_map inj_on_def split: if_splits)
  then have newer: "newer_than ?row y" if "y \<in> set (items (w_db v))" "i_id y = iid" for y
    using served_revisions [OF history(2,3)] that unfolding revisions_kept_def v(2) by blast
  have rev: "sint (i_revision ?row) = n + 1" using updated_row_revision [OF w(2) i(1)] i(2,3) by simp
  have later: "n < sint (i_revision y)" "sint (i_revision y) = n + 1 \<Longrightarrow> i_ciphertext y = c"
    if "y \<in> set (items (w_db v))" "i_id y = iid" for y
    using newer [OF that] rev by (auto simp: newer_than_def updated_row_def)
  have "sint (i_revision y) \<noteq> n" if "own_item iid uid2 (w_db v) = Some y" for y
  proof -
    have "y \<in> set (items (w_db v))" "i_id y = iid" using that by (auto simp: own_item_def find_Some_iff)
    from later(1) [OF this] show ?thesis by simp
  qed
  then have "res \<in> {Inl ErrNotFound, Inl ErrConflict} \<and> w_db v1 = w_db v"
    using stale by (auto simp: run_ItemsRepo_Update [OF v(1,3) w(3,4) v(4)] split: option.splits)
  with later show ?thesis by blast
qed

definition busy_world :: "db \<Rightarrow> world" where
  "busy_world d = (sample_world d)\<lparr>w_events := (\<lambda>i. (sample_event i)\<lparr>ev_uuid := UUID 100\<rparr>)\<rparr>"

theorem update_never_lost_witness:
  "\<exists>item w1 answers x1 res v1. run_state (ItemsRepo_Update (UUID 9) (UUID 1) 1 ''QUI='' []) (sample_world sample_item_db) = (Inr item, w1) \<and>
     run_state (serve_all sample_lib None [] [] [sample_request ''GET'' ''/api/sync'' JNull, sample_request ''GET'' ''/api/health'' JNull]) (busy_world (w_db w1)) = (answers, x1) \<and>
     run_state (ItemsRepo_Update (UUID 9) (UUID 1) 1 ''QkI='' []) (sample_world (w_db x1)) = (res, v1) \<and>
     res \<in> {Inl ErrNotFound, Inl ErrConflict}"
proof -
  have inv: "db_inv (w_db (sample_world sample_item_db))" by (simp add: sample_item_db_inv)
  obtain item w1 where mine: "run_state (ItemsRepo_Update (UUID 9) (UUID 1) 1 ''QUI='' []) (sample_world sample_item_db) = (Inr item, w1)"
    using run_ItemsRepo_Update [OF calm_sample inv, of 1 "[]"] by (simp add: sample_own_item) (auto simp: sample_item_def)
  obtain answers x1 where served: "run_state (serve_all sample_lib None [] [] [sample_request ''GET'' ''/api/sync'' JNull, sample_request ''GET'' ''/api/health'' JNull]) (busy_world (w_db w1)) = (answers, x1)"
    by fastforce
  obtain res v1 where stale: "run_state (ItemsRepo_Update (UUID 9) (UUID 1) 1 ''QkI='' []) (sample_world (w_db x1)) = (res, v1)"
    by fastforce
  have "within inv_step (ItemsRepo_Update (UUID 9) (UUID 1) 1 ''QUI='' [])" by (rule tables.items_repo(5)) simp
  then have 1: "db_inv (w_db w1)" using inv withinD [OF _ _ mine] by (fastforce simp: rely_def inv_step_def)
  have "rely inv_step (busy_world (w_db w1))" by (simp add: rely_def inv_step_def busy_world_def sample_event_def)
  then have 2: "db_inv (w_db x1)" using 1 withinD [OF tables.serve_all_within _ served] by (simp add: inv_step_def busy_world_def)
  have "rely_ids (- {UUID 9}) (revisions_kept (UUID 9)) (busy_world (w_db w1))"
    by (simp add: rely_ids_def busy_world_def sample_event_def revs.R_refl)
  from update_never_lost [OF calm_sample inv _ _ _ mine _ this served calm_sample _ _ _ stale] 2
  show ?thesis using mine served stale by (auto simp: busy_world_def)
qed

end
