(* ===== verification/Spec2Isabelle.thy ===== *)
theory Spec2Isabelle
  imports Alert RecoveryRace LoginRace Activity Limits Guessing KeyRotation Enrolment ParamInt Docs Devices
    PasswordChange Revisions
begin

text \<open>
  A verification development of Secure Vault, a zero-knowledge password manager: the HTTP
  server under \<open>cmd/server\<close> and \<open>internal\<close>, and the client's cryptography under
  \<open>internal/crypto\<close> and \<open>cmd/wasm\<close>.

  \<^bold>\<open>The program.\<close>  The browser derives a master key from the password, an auth hash from the
  master key, and wraps a random vault key under it (\<open>cmd/wasm\<close> over \<open>internal/crypto\<close>); it
  sends the auth hash, the wrapped key and sealed items.  The server (\<open>internal/api\<close>) routes a
  request through a chain of middlewares to a handler; the handler consults the in-memory
  limits of the session manager (\<open>internal/auth\<close>), the second factor (\<open>internal/mfa\<close>) and
  the repositories (\<open>internal/storage\<close>), which run the SQL statements of
  \<open>internal/storage/sqlcgen\<close>; it records audit events, which feed the alerts of
  \<open>internal/audit\<close>.  \<open>internal/config\<close> and \<open>cmd/server\<close> start and stop it.

  \<^bold>\<open>How it is modelled.\<close>  A Go function that touches shared state is a program of type
  \<open>(world, 'a) state\<close> (theory \<open>World\<close>); a fallible one returns \<open>err + 'a\<close>.  The world holds the
  tables, the manager's limits, the alert tracker, the response being written, the log, and
  the streams the environment decides: clock readings, random bytes, and for each database
  round trip an event that says what other requests did to the tables before it, whether the
  statement was lost before or after it took effect, and the time and identifier the database
  generates.  A request is served by one run of a program; concurrency is in what the events
  of others may do (arbitrary, or constrained by a relation), and, where two requests race,
  in explicit step relations (\<open>RecoveryRace\<close>, \<open>LoginRace\<close>) or in explicit events (\<open>SessionLife\<close>).
  Third-party functions and the parts of the standard library that are pure algorithms or
  tables (Argon2id, HKDF, XChaCha20-Poly1305, SHA, TOTP, the parsers of e-mail addresses,
  UUIDs and IP addresses, Unicode tables, the text syntax of JSON) are fields of the record
  \<open>lib\<close>, an argument of every definition that uses them; what is assumed of them is one of the
  named predicates \<open>aead_ok\<close>, \<open>json_ok\<close>, \<open>sha_injective_on\<close> (theory \<open>Externals\<close>).

  \<^bold>\<open>The theories, and what they model.\<close>
  \<^item> \<open>Prelude\<close>, \<open>GoError\<close>, \<open>Externals\<close>: bytes, strings, time, Go errors, the record \<open>lib\<close>.
  \<^item> \<open>Encoding\<close>, \<open>Json\<close>, \<open>Http\<close>: hex, base64 and base32 acceptance; decoding of JSON objects
    into structs; requests, responses, cookies, \<open>net.SplitHostPort\<close>.
  \<^item> \<open>Window\<close>, \<open>RateLimit\<close>, \<open>Lockout\<close>, \<open>Alert\<close>: \<open>internal/auth/ratelimit.go\<close>, \<open>lockout.go\<close> and
    \<open>internal/audit/alert.go\<close>.  The locale \<open>sliding_window\<close> is the interface the limiter and the
    tracker share; both interpret it.
  \<^item> \<open>Crypto\<close>: \<open>internal/crypto\<close>; the locales \<open>sealer\<close> and \<open>sealed_codec\<close> are the interface between
    \<open>Seal\<close>/\<open>Open\<close> and the key, item and TOTP-secret encodings, which interpret it.
  \<^item> \<open>Database\<close>, \<open>World\<close>, \<open>Queries\<close>, \<open>Storage\<close>: the tables with their keys, references, checks and
    cascades; the statements and transactions; the query functions and the repositories.
  \<^item> \<open>SessionManager\<close>, \<open>Mfa\<close>: \<open>internal/auth/session.go\<close>, \<open>internal/mfa/totp.go\<close>.
  \<^item> \<open>Api\<close>, \<open>Handlers\<close>, \<open>Middleware\<close>, \<open>Router\<close>: \<open>internal/api\<close>; one program per handler, a
    middleware as a function on handlers, the route table and the matching of \<open>ServeMux\<close>.
  \<^item> \<open>GenServer\<close>: the server generated from the OpenAPI contract (\<open>internal/api/gen/api.gen.go\<close>) - the
    interface and its wrappers, parameter errors, registration of the operations - and the
    loading of the embedded document; \<open>Docs\<close>: the two documentation pages.
  \<^item> \<open>Config\<close>, \<open>Startup\<close>, \<open>Wasm\<close>: \<open>internal/config\<close> with \<open>strconv.Atoi\<close> and \<open>time.ParseDuration\<close>;
    \<open>cmd/server\<close> and \<open>cmd/sri\<close>; \<open>cmd/wasm\<close>.

  \<^bold>\<open>What is proved, and where.\<close>
  \<^item> \<open>Effects\<close> lifts a relation on databases from the statements to every handler, middleware and
    the router, once, in the locales \<open>store_relation\<close> and \<open>store_relation_all\<close> (over \<open>db_relation\<close>
    of \<open>World\<close>); \<open>Guarantees\<close> interprets them for the invariant of the tables, for the
    append-only audit log whose events keep their user as long as the account exists, and for
    the frame that confines a request to the vault of a user with a live session.
    \<open>Startup\<close> carries the invariant over a whole run of the process.  The locales take a set of
    identifiers the database may still issue; \<open>Revisions\<close> uses it to show that an item's revision
    never falls while its identifier is not issued again, so that no update is ever lost.
  \<^item> \<open>Frames\<close> does the same for relations on the world (\<open>world_frame\<close>, extended by \<open>quiet_frame\<close> to
    everything but the login limits, by \<open>program_frame\<close> to every handler and by \<open>server_frame\<close> to a served request) and on the response
    (\<open>response_frame\<close>, a \<open>program_frame\<close>).  Their interpretations give that safe methods only read
    and that the CSRF header is needed (\<open>Guards\<close>), that responses are hardened and that private
    routes deny requests without a session (\<open>Perimeter\<close>), and that served requests move the login
    limits only by the steps of an abstract relation (\<open>Limits\<close>).
  \<^item> \<open>Contract\<close> compares the hand-written router with the generated server, request by request,
    behind the guards that a rule on method and path gives to each operation.
  \<^item> \<open>Vault\<close> follows a request through the whole chain, and a secret from one browser through the
    server to another: what a sync returns, and that the second device reads what the first
    stored.  \<open>Devices\<close> does it for the account: the sign-up and login flows of the web client
    (\<open>web/src/components\<close>) over \<open>cmd/wasm\<close>, from a password on one device to the vault key on
    another; \<open>PasswordChange\<close> for a new master password and for the login with a second factor.
  \<^item> \<open>Calm\<close> executes programs symbolically when the database answers and nobody interferes; on it
    rest the life of sessions (\<open>SessionLife\<close>), items (\<open>ItemLife\<close>), accounts (\<open>Accounts\<close>,
    \<open>KeyRotation\<close>, \<open>Deletion\<close>), second factors (\<open>SecondFactor\<close>, \<open>Guessing\<close>; \<open>Enrolment\<close> also when
    round trips fail), the audit pages (\<open>Activity\<close>) and the temporary nature of lockouts
    (\<open>Liveness\<close> over every reachable state of the limits, \<open>Limits\<close> after any served requests).
  \<^item> \<open>LoginPrivacy\<close> compares two runs: an unknown account is answered like a wrong password, a
    taken address like a free one.  \<open>LoginSafety\<close> shows, under any database failure, that a
    session needs the password.
  \<^item> \<open>RecoveryRace\<close> is a step relation for any number of concurrent uses of recovery codes, its
    reachable states and invariant, and the refinement of the code's program to it; \<open>LoginRace\<close> is
    one for the critical sections of concurrent logins on the in-memory limits.
  \<^item> \<open>RateLimit\<close>, \<open>Lockout\<close>, \<open>Alert\<close>, \<open>Mfa\<close>, \<open>Crypto\<close>, \<open>Config\<close> and \<open>Wasm\<close> hold the properties of
    their own components: refinement of an unpruned specification, thresholds, round trips,
    ranges, wiped buffers, and the password generator's termination and lack of bias;
    \<open>ParamInt\<close> the value of number parameters.

  Some theorems record behaviour that differs from what a comment or a document says: the
  anchored lockout window and the backoff formula (\<open>Lockout\<close>), the race of two refreshes
  (\<open>SessionLife\<close>), the TOTP secret the client chooses (\<open>SecondFactor\<close>), the lost audit event of
  a deletion (\<open>Deletion\<close>), second-factor guesses that no limit counts and a login window that
  every own login empties (\<open>Guessing\<close>), an enrolment that fails half-way (\<open>Enrolment\<close>), sessions
  that outlive a password change (\<open>KeyRotation\<close>), an authenticator that a rotation of the vault
  key disables and items that an interrupted one loses (\<open>PasswordChange\<close>), numbers that wrap around (\<open>ParamInt\<close>), the truncated activity
  page (\<open>Activity\<close>), unchecked lifetimes (\<open>Startup\<close>), the missing access-log line of a panic (\<open>Perimeter\<close>), a password buffer that is
  not wiped (\<open>Wasm\<close>).

  \<^bold>\<open>Bounds and loops.\<close>  Integers are kept at their width where it matters: revisions and limits
  are 32-bit words, Argon2 parameters 32- and 8-bit words, the activity limit a wrapping 64-bit
  word, durations checked against 64 bits.  Loops are structural recursions or have a
  termination proof (\<open>duration_terms\<close>).  The password generator's outer loop may run for ever and
  is a partial function; it is proved to return exactly when the random supply allows it.  The
  fuel of \<open>walk\<close> (\<open>Activity\<close>) is the number of requests a client may make; the number of pages the
  events fill (\<open>page_count\<close>) is proved to be enough and to be what the walk takes.

  \<^bold>\<open>Parameters of the generated code.\<close>  The binding of parameters (the oapi-codegen runtime),
  flate and the OpenAPI loader are arguments (\<open>param_binder\<close>, \<open>flate_result\<close>, a loader); the
  chunks of the embedded document are an argument too.

  \<^bold>\<open>Simplifications.\<close>  Rows with equal times come in the order of insertion from \<open>listItems\<close> and
  \<open>listAuditEventsByUser\<close>, where Postgres may choose (the walk over the activity log asks for
  distinct times).  Times are integers in nanoseconds; the columns keep microseconds, so a stored
  expiry is rounded by less than that.  \<open>Manager_ResetLoginLimit\<close> is one step where the code locks
  three times; \<open>LoginRace\<close> has the sections one by one.  The 404, 405 and 301 answers of
  \<open>ServeMux\<close> have no body here, and its path cleaning is reduced to the test for a clean path.

  \<^bold>\<open>Not modelled.\<close>  \<open>sqlcgen/db.go\<close> (plumbing, subsumed in the round-trip primitives);
  connection pooling and \<open>Store.Close\<close>; timeouts of \<open>http.Server\<close> and cancellation of request
  contexts beyond the failure of a round trip; the text of log lines; \<open>url.Parse\<close> and the
  floating-point product inside \<open>time.ParseDuration\<close> (parameters of \<open>Config\<close>); the rest of the web
  frontend, the migrations and the build files, which are not Go code of the server.  Secret buffers are
  tracked only where \<open>cmd/wasm\<close> fills and wipes them itself, not inside \<open>internal/crypto\<close>.
\<close>

end
